(* ===== verification/Prelude.thy ===== *)
theory Prelude
  imports Main "HOL-Library.Char_ord" "HOL-Library.List_Lexorder" "HOL-Library.Sublist"
begin

section \<open>Prelude: Go strings, results and shared automation\<close>

text \<open>
  What the components share: a Go string is the list of its bytes, so it is the type
  \<^typ>\<open>string\<close> with one \<^typ>\<open>char\<close> per byte; \<open>len\<close> is \<^const>\<open>length\<close>, slicing is
  \<^const>\<open>take\<close> and \<^const>\<open>drop\<close>, and \<open>strings.Compare\<close> and \<open>sort.Strings\<close> follow the
  bytewise lexicographic order of \<open>List_Lexorder\<close> over \<open>Char_ord\<close>. The functions of the
  package \<open>strings\<close> that the program calls are defined here, byte for byte:
  \<open>TrimSpace\<close> also removes the UTF-8 encodings of the Unicode spaces.
  \<open>ToLower\<close> maps the ASCII capitals and the two runes whose lower case is an ASCII
  letter (U+0130 and U+212A); the case of every other rune is left as it is, which is
  exact wherever the result is compared with an ASCII constant, the only use made of it.
\<close>

named_theorems go_simps \<open>evaluation of the Go string functions\<close>

subsection \<open>Results of fallible operations\<close>

text \<open>An operation that returns \<open>(T, error)\<close> is a sum: \<^const>\<open>Inl\<close> the error.\<close>

type_synonym ('e, 'a) result = "'e + 'a"

definition bind_result :: "('e, 'a) result \<Rightarrow> ('a \<Rightarrow> ('e, 'b) result) \<Rightarrow> ('e, 'b) result" where
  "bind_result r f = (case r of Inl e \<Rightarrow> Inl e | Inr x \<Rightarrow> f x)"

lemma bind_result_simps [simp]:
  "bind_result (Inl e) f = Inl e"
  "bind_result (Inr x) f = f x"
  by (simp_all add: bind_result_def)

lemma bind_result_Inr_iff:
  "bind_result r f = Inr y \<longleftrightarrow> (\<exists>x. r = Inr x \<and> f x = Inr y)"
  by (cases r) auto

subsection \<open>Bytes\<close>

definition is_digit :: "char \<Rightarrow> bool" where
  "is_digit c \<longleftrightarrow> CHR ''0'' \<le> c \<and> c \<le> CHR ''9''"

definition is_lower :: "char \<Rightarrow> bool" where
  "is_lower c \<longleftrightarrow> CHR ''a'' \<le> c \<and> c \<le> CHR ''z''"

definition is_upper :: "char \<Rightarrow> bool" where
  "is_upper c \<longleftrightarrow> CHR ''A'' \<le> c \<and> c \<le> CHR ''Z''"

definition byte_val :: "char \<Rightarrow> int" where
  "byte_val c = int (of_char c)"

lemma char_le_iff_byte_val: "c \<le> d \<longleftrightarrow> byte_val c \<le> byte_val d"
  by (simp add: less_eq_char_def byte_val_def)

lemma char_less_iff_byte_val: "c < d \<longleftrightarrow> byte_val c < byte_val d"
  by (simp add: less_char_def byte_val_def)

lemma byte_val_inj: "byte_val c = byte_val d \<longleftrightarrow> c = d"
  by (simp add: byte_val_def)

lemma byte_val_range: "0 \<le> byte_val c" "byte_val c < 256"
  by (simp_all add: byte_val_def)

subsection \<open>TrimSpace\<close>

definition ascii_space :: "char \<Rightarrow> bool" where
  "ascii_space c \<longleftrightarrow> c = CHR 0x20 \<or> (CHR 0x09 \<le> c \<and> c \<le> CHR 0x0D)"

text \<open>U+0085 and U+00A0.\<close>

definition utf8_space2 :: "char \<Rightarrow> char \<Rightarrow> bool" where
  "utf8_space2 c d \<longleftrightarrow> c = CHR 0xC2 \<and> (d = CHR 0x85 \<or> d = CHR 0xA0)"

text \<open>U+1680, U+2000 to U+200A, U+2028, U+2029, U+202F, U+205F and U+3000.\<close>

definition utf8_space3 :: "char \<Rightarrow> char \<Rightarrow> char \<Rightarrow> bool" where
  "utf8_space3 c d e \<longleftrightarrow>
     (c = CHR 0xE1 \<and> d = CHR 0x9A \<and> e = CHR 0x80)
   \<or> (c = CHR 0xE2 \<and> d = CHR 0x80 \<and>
        ((CHR 0x80 \<le> e \<and> e \<le> CHR 0x8A) \<or> e = CHR 0xA8 \<or> e = CHR 0xA9 \<or> e = CHR 0xAF))
   \<or> (c = CHR 0xE2 \<and> d = CHR 0x81 \<and> e = CHR 0x9F)
   \<or> (c = CHR 0xE3 \<and> d = CHR 0x80 \<and> e = CHR 0x80)"

fun trim_left :: "string \<Rightarrow> string" where
  "trim_left [] = []"
| "trim_left (c # cs) =
     (if ascii_space c then trim_left cs
      else case cs of [] \<Rightarrow> c # cs
      | d # ds \<Rightarrow> if utf8_space2 c d then trim_left ds
        else case ds of [] \<Rightarrow> c # cs
        | e # es \<Rightarrow> if utf8_space3 c d e then trim_left es else c # cs)"

text \<open>The same from the right, on the reversed bytes.\<close>

fun trim_left_rev :: "string \<Rightarrow> string" where
  "trim_left_rev [] = []"
| "trim_left_rev (c # cs) =
     (if ascii_space c then trim_left_rev cs
      else case cs of [] \<Rightarrow> c # cs
      | d # ds \<Rightarrow> if utf8_space2 d c then trim_left_rev ds
        else case ds of [] \<Rightarrow> c # cs
        | e # es \<Rightarrow> if utf8_space3 e d c then trim_left_rev es else c # cs)"

definition trim_space :: "string \<Rightarrow> string" where
  "trim_space s = rev (trim_left_rev (rev (trim_left s)))"

lemma suffix_trim_left: "suffix (trim_left s) s"
  by (induction s rule: trim_left.induct)
     (auto simp: suffix_Cons split: list.splits)

lemma suffix_trim_left_rev: "suffix (trim_left_rev s) s"
  by (induction s rule: trim_left_rev.induct)
     (auto simp: suffix_Cons split: list.splits)

lemma length_trim_space: "length (trim_space s) \<le> length s"
  using suffix_length_le [OF suffix_trim_left, of s]
    suffix_length_le [OF suffix_trim_left_rev, of "rev (trim_left s)"]
  by (simp add: trim_space_def)

lemma trim_space_Nil [simp, go_simps]: "trim_space [] = []"
  by (simp add: trim_space_def)

lemma utf8_space_bytes:
  "utf8_space2 c d \<Longrightarrow> 128 \<le> byte_val c \<and> 128 \<le> byte_val d"
  "utf8_space3 c d e \<Longrightarrow> 128 \<le> byte_val c \<and> 128 \<le> byte_val e"
proof -
  have v: "byte_val (CHR 0x80) = 128" "byte_val (CHR 0x85) = 133" "byte_val (CHR 0xA0) = 160" "byte_val (CHR 0xC2) = 194"
    "byte_val (CHR 0xE1) = 225" "byte_val (CHR 0xE2) = 226" "byte_val (CHR 0xE3) = 227" "byte_val (CHR 0xA8) = 168"
    "byte_val (CHR 0xA9) = 169" "byte_val (CHR 0xAF) = 175" "byte_val (CHR 0x9F) = 159"
    by (simp_all add: byte_val_def)
  show "utf8_space2 c d \<Longrightarrow> 128 \<le> byte_val c \<and> 128 \<le> byte_val d"
    by (auto simp: utf8_space2_def v)
  show "utf8_space3 c d e \<Longrightarrow> 128 \<le> byte_val c \<and> 128 \<le> byte_val e"
    unfolding utf8_space3_def char_le_iff_byte_val v by (elim disjE conjE) (simp_all add: v)
qed

lemma trim_left_stop:
  assumes "\<not> ascii_space c" "byte_val c < 128"
  shows "trim_left (c # cs) = c # cs"
proof -
  have "\<not> utf8_space2 c d" for d using utf8_space_bytes(1) [of c d] assms(2) by linarith
  moreover have "\<not> utf8_space3 c d e" for d e using utf8_space_bytes(2) [of c d e] assms(2) by linarith
  ultimately show ?thesis using assms(1) by (simp split: list.split)
qed

lemma trim_left_rev_stop:
  assumes "\<not> ascii_space c" "byte_val c < 128"
  shows "trim_left_rev (c # cs) = c # cs"
proof -
  have "\<not> utf8_space2 d c" for d using utf8_space_bytes(1) [of d c] assms(2) by linarith
  moreover have "\<not> utf8_space3 e d c" for d e using utf8_space_bytes(2) [of e d c] assms(2) by linarith
  ultimately show ?thesis using assms(1) by (simp split: list.split)
qed

lemma trim_space_stop:
  assumes "\<not> ascii_space c" "byte_val c < 128" "\<not> ascii_space d" "byte_val d < 128"
  shows "trim_space (c # s @ [d]) = c # s @ [d]"
  using trim_left_stop [OF assms(1,2), of "s @ [d]"] trim_left_rev_stop [OF assms(3,4), of "rev s @ [c]"]
  by (simp add: trim_space_def)

lemma set_trim_space: "set (trim_space s) \<subseteq> set s"
  using set_mono_suffix [OF suffix_trim_left, of s]
    set_mono_suffix [OF suffix_trim_left_rev, of "rev (trim_left s)"]
  by (simp add: trim_space_def)

lemma trim_left_idem: "trim_left (trim_left s) = trim_left s"
  by (induction s rule: trim_left.induct) (auto split: list.splits)

lemma trim_left_rev_idem: "trim_left_rev (trim_left_rev s) = trim_left_rev s"
  by (induction s rule: trim_left_rev.induct) (auto split: list.splits)

subsection \<open>ToLower\<close>

definition ascii_lower :: "char \<Rightarrow> char" where
  "ascii_lower c = (if is_upper c then char_of (of_char c + 32 :: nat) else c)"

fun to_lower :: "string \<Rightarrow> string" where
  "to_lower [] = []"
| "to_lower (c # cs) =
     (case cs of
        d # ds \<Rightarrow>
          if c = CHR 0xC4 \<and> d = CHR 0xB0 then CHR ''i'' # to_lower ds
          else (case ds of
             e # es \<Rightarrow>
               if c = CHR 0xE2 \<and> d = CHR 0x84 \<and> e = CHR 0xAA then CHR ''k'' # to_lower es
               else ascii_lower c # to_lower cs
           | [] \<Rightarrow> ascii_lower c # to_lower cs)
      | [] \<Rightarrow> ascii_lower c # to_lower cs)"

subsection \<open>Runes\<close>

text \<open>
  The conversion \<open>[]rune(s)\<close>, each rune given by its UTF-8 encoding. A byte that starts no
  well-formed encoding is one rune, the replacement character U+FFFD.
\<close>

definition utf8_cont :: "int \<Rightarrow> int \<Rightarrow> char \<Rightarrow> bool" where
  "utf8_cont lo hi c \<longleftrightarrow> lo \<le> byte_val c \<and> byte_val c \<le> hi"

definition rune_width :: "string \<Rightarrow> nat" where
  \<comment> \<open>bytes of the well-formed encoding that starts the string, 0 when there is none\<close>
  "rune_width s =
     (case s of
        [] \<Rightarrow> 0
      | a # r \<Rightarrow>
          let x = byte_val a;
              lo = (if x = 224 then 160 else if x = 240 then 144 else 128);
              hi = (if x = 237 then 159 else if x = 244 then 143 else 191)
          in if x < 128 then 1
             else if 194 \<le> x \<and> x \<le> 223 then
               (case r of b # _ \<Rightarrow> if utf8_cont 128 191 b then 2 else 0 | _ \<Rightarrow> 0)
             else if 224 \<le> x \<and> x \<le> 239 then
               (case r of b # c # _ \<Rightarrow> if utf8_cont lo hi b \<and> utf8_cont 128 191 c then 3 else 0 | _ \<Rightarrow> 0)
             else if 240 \<le> x \<and> x \<le> 244 then
               (case r of b # c # d # _ \<Rightarrow>
                  if utf8_cont lo hi b \<and> utf8_cont 128 191 c \<and> utf8_cont 128 191 d then 4 else 0 | _ \<Rightarrow> 0)
             else 0)"

definition rune_error :: string where
  "rune_error = [CHR 0xEF, CHR 0xBF, CHR 0xBD]"

function go_runes :: "string \<Rightarrow> string list" where
  "go_runes s =
     (if s = [] then []
      else if rune_width s = 0 then rune_error # go_runes (drop 1 s)
      else take (rune_width s) s # go_runes (drop (rune_width s) s))"
  by auto
termination
  by (relation "measure length") auto

declare go_runes.simps [simp del]

subsection \<open>Other functions of package strings\<close>

text \<open>\<open>strings.Cut\<close> at a one-byte separator: the parts around it and whether it occurs.\<close>

definition cut_at :: "string \<Rightarrow> char \<Rightarrow> string \<times> string \<times> bool" where
  "cut_at s c = (takeWhile (\<lambda>x. x \<noteq> c) s, tl (dropWhile (\<lambda>x. x \<noteq> c) s), c \<in> set s)"

definition contains :: "string \<Rightarrow> string \<Rightarrow> bool" where
  "contains s t \<longleftrightarrow> list_ex (prefix t) (suffixes s)"

fun join :: "string \<Rightarrow> string list \<Rightarrow> string" where
  "join sep [] = []"
| "join sep [x] = x"
| "join sep (x # y # xs) = x @ sep @ join sep (y # xs)"

text \<open>\<open>strings.ReplaceAll\<close> of a single byte.\<close>

definition replace_char :: "char \<Rightarrow> string \<Rightarrow> string \<Rightarrow> string" where
  "replace_char c t s = concat (map (\<lambda>x. if x = c then t else [x]) s)"

text \<open>\<open>strconv.Itoa\<close>.\<close>

fun nat_digits :: "nat \<Rightarrow> string" where
  "nat_digits n = (if n < 10 then [char_of (48 + n)] else nat_digits (n div 10) @ [char_of (48 + n mod 10)])"

declare nat_digits.simps [simp del]

definition itoa :: "int \<Rightarrow> string" where
  "itoa i = (if i < 0 then CHR ''-'' # nat_digits (nat (- i)) else nat_digits (nat i))"

lemma cut_at_fst_not: "c \<notin> set (fst (cut_at s c))"
  using set_takeWhileD by (fastforce simp: cut_at_def)

lemma cut_at_append: "snd (snd (cut_at s c)) \<Longrightarrow> s = fst (cut_at s c) @ c # fst (snd (cut_at s c))"
  by (induction s) (auto simp: cut_at_def)

lemma cut_at_none: "\<not> snd (snd (cut_at s c)) \<Longrightarrow> fst (cut_at s c) = s"
  by (auto simp: cut_at_def takeWhile_eq_all_conv)

lemma not_suffix_last: "xs \<noteq> [] \<Longrightarrow> \<not> suffix [c] xs \<Longrightarrow> last xs \<noteq> c"
  by (metis append_butlast_last_id suffixI)

text \<open>\<open>strings.Split\<close> at a one-byte separator.\<close>

fun split_char :: "char \<Rightarrow> string \<Rightarrow> string list" where
  "split_char c [] = [[]]"
| "split_char c (x # xs) =
     (if x = c then [] # split_char c xs
      else case split_char c xs of [] \<Rightarrow> [[x]] | w # ws \<Rightarrow> (x # w) # ws)"

lemma split_char_not_Nil [simp]: "split_char c s \<noteq> []"
  by (induction s) (auto split: list.splits)

lemma split_char_none: "c \<notin> set s \<Longrightarrow> split_char c s = [s]"
  by (induction s) auto

lemma split_char_append: "c \<notin> set s \<Longrightarrow> split_char c (s @ c # t) = s # split_char c t"
  by (induction s) auto

lemma split_char_free: "w \<in> set (split_char c s) \<Longrightarrow> c \<notin> set w"
  by (induction s arbitrary: w) (auto split: list.splits if_splits)

text \<open>\<open>strings.Fields\<close>: the maximal runs without a Unicode space. The lead byte of a space never
  occurs inside another encoding, so the scan may proceed byte by byte.\<close>

definition space_width :: "string \<Rightarrow> nat" where
  "space_width s =
     (case s of [] \<Rightarrow> 0
      | c # cs \<Rightarrow> if ascii_space c then 1
        else case cs of [] \<Rightarrow> 0
        | d # ds \<Rightarrow> if utf8_space2 c d then 2
          else case ds of [] \<Rightarrow> 0 | e # es \<Rightarrow> if utf8_space3 c d e then 3 else 0)"

function fields_loop :: "string \<Rightarrow> string \<Rightarrow> string list" where
  "fields_loop w s =
     (if s = [] then (if w = [] then [] else [w])
      else if space_width s = 0 then fields_loop (w @ [hd s]) (tl s)
      else (if w = [] then [] else [w]) @ fields_loop [] (drop (space_width s) s))"
  by auto
termination
  by (relation "measure (\<lambda>(w, s). length s)") auto

declare fields_loop.simps [simp del]

definition go_fields :: "string \<Rightarrow> string list" where
  "go_fields s = fields_loop [] s"

lemma trim_left_space_width:
  "trim_left s = (if space_width s = 0 then s else trim_left (drop (space_width s) s))"
  by (cases s) (simp_all add: space_width_def split: list.split)

lemma trim_left_fixed_iff: "trim_left s = s \<longleftrightarrow> space_width s = 0"
proof (cases "space_width s = 0")
  case False
  then have "s \<noteq> []" by (auto simp: space_width_def)
  then have "length (drop (space_width s) s) < length s" using False by simp
  moreover have "length (trim_left s) \<le> length (drop (space_width s) s)"
    using False trim_left_space_width [of s] suffix_length_le [OF suffix_trim_left, of "drop (space_width s) s"] by simp
  ultimately have "length (trim_left s) < length s" by linarith
  then have "trim_left s \<noteq> s" by (metis less_irrefl)
  with False show ?thesis by simp
next
  case True
  with trim_left_space_width [of s] show ?thesis by simp
qed

lemma space_width_prefix: "space_width (y @ z) = 0 \<Longrightarrow> space_width y = 0"
proof (cases y)
  case (Cons c cs)
  assume "space_width (y @ z) = 0"
  then show ?thesis
    by (cases cs; cases "tl cs") (auto simp: Cons space_width_def split: list.splits if_splits)
qed (simp add: space_width_def)

lemma trim_left_prefix: "trim_left x = x \<Longrightarrow> prefix y x \<Longrightarrow> trim_left y = y"
  by (auto simp: trim_left_fixed_iff prefix_def dest: space_width_prefix)

lemma trim_space_idem [simp]: "trim_space (trim_space s) = trim_space s"
proof -
  have "prefix (trim_space s) (trim_left s)"
    using suffix_trim_left_rev [of "rev (trim_left s)"]
    by (simp add: trim_space_def suffix_to_prefix)
  then have "trim_left (trim_space s) = trim_space s" by (rule trim_left_prefix [OF trim_left_idem])
  then show ?thesis by (simp add: trim_space_def trim_left_rev_idem)
qed

lemma trim_space_Cons_space: "ascii_space c \<Longrightarrow> trim_space (c # s) = trim_space s"
  by (simp add: trim_space_def)

text \<open>\<open>strings.TrimPrefix\<close> and \<open>strings.TrimSuffix\<close>.\<close>

definition trim_prefix :: "string \<Rightarrow> string \<Rightarrow> string" where
  "trim_prefix p s = (if prefix p s then drop (length p) s else s)"

definition trim_suffix :: "string \<Rightarrow> string \<Rightarrow> string" where
  "trim_suffix p s = (if suffix p s then take (length s - length p) s else s)"

lemma trim_prefix_append [simp]: "trim_prefix p (p @ s) = s"
  by (simp add: trim_prefix_def)

lemma trim_suffix_append [simp]: "trim_suffix p (s @ p) = s"
  by (auto simp: trim_suffix_def suffix_def)

subsection \<open>Machine integers\<close>

text \<open>The value of a 64-bit signed computation whose exact result is \<open>x\<close>.\<close>

definition int64 :: "int \<Rightarrow> int" where
  "int64 x = (x + 2 ^ 63) mod 2 ^ 64 - 2 ^ 63"

definition MaxInt64 :: int where
  "MaxInt64 = 2 ^ 63 - 1"

definition in_int64 :: "int \<Rightarrow> bool" where
  "in_int64 x \<longleftrightarrow> - (2 ^ 63) \<le> x \<and> x \<le> MaxInt64"

lemma int64_id: "in_int64 x \<Longrightarrow> int64 x = x"
  by (simp add: int64_def in_int64_def MaxInt64_def)

text \<open>\<open>strconv.ParseInt\<close> with base 10 and 64 bits: an optional sign and decimal digits.\<close>

definition decimal :: "string \<Rightarrow> int" where
  "decimal s = foldl (\<lambda>n c. 10 * n + (byte_val c - 48)) 0 s"

definition parse_int64 :: "string \<Rightarrow> int option" where
  "parse_int64 s =
     (let negative = (s \<noteq> [] \<and> hd s = CHR ''-'');
          ds = (if s \<noteq> [] \<and> (hd s = CHR ''-'' \<or> hd s = CHR ''+'') then tl s else s);
          v = (if negative then - decimal ds else decimal ds)
      in if ds \<noteq> [] \<and> list_all is_digit ds \<and> in_int64 v then Some v else None)"

lemma parse_int64_range: "parse_int64 s = Some v \<Longrightarrow> in_int64 v"
  by (auto simp: parse_int64_def Let_def split: if_splits)

lemma decimal_snoc: "decimal (s @ [c]) = 10 * decimal s + (byte_val c - 48)"
  by (simp add: decimal_def)

lemma is_digit_byte: "is_digit c \<longleftrightarrow> 48 \<le> byte_val c \<and> byte_val c \<le> 57"
  by (simp add: is_digit_def char_le_iff_byte_val byte_val_def)

lemma decimal_nonneg: "list_all is_digit s \<Longrightarrow> 0 \<le> decimal s"
  by (induction s rule: rev_induct) (auto simp: decimal_snoc is_digit_byte, simp add: decimal_def)

end
