(* ===== verification/DebianVersion.thy ===== *)
theory DebianVersion
  imports Prelude
begin

section \<open>Debian version comparison\<close>

text \<open>
  The model of \<open>internal/updates/debian_version.go\<close>: splitting a version into epoch,
  upstream part and revision, comparing digit runs without converting them to machine
  integers, and the two nested loops that compare a part. The abstract specification
  reads a part as a list of integers (its weights): the weight of each non-digit byte,
  and for a digit run a zero followed by the number it denotes. Two parts compare as
  their weights do in the lexicographic order of lists padded with zeros, so the
  comparison is a total preorder on the versions that split.
\<close>

subsection \<open>Model\<close>

text \<open>\<open>strings.IndexByte\<close> and \<open>strings.LastIndexByte\<close>; \<^const>\<open>None\<close> is the result \<open>-1\<close>.\<close>

fun index_byte :: "string \<Rightarrow> char \<Rightarrow> nat option" where
  "index_byte [] c = None"
| "index_byte (x # xs) c = (if x = c then Some 0 else map_option Suc (index_byte xs c))"

fun last_index_byte :: "string \<Rightarrow> char \<Rightarrow> nat option" where
  "last_index_byte [] c = None"
| "last_index_byte (x # xs) c =
     (case last_index_byte xs c of Some i \<Rightarrow> Some (Suc i)
      | None \<Rightarrow> if x = c then Some 0 else None)"

definition upstream_char :: "char \<Rightarrow> bool" where
  "upstream_char c \<longleftrightarrow> is_digit c \<or> is_upper c \<or> is_lower c \<or> c \<in> set ''.+:~-''"

definition revision_char :: "char \<Rightarrow> bool" where
  "revision_char c \<longleftrightarrow> is_digit c \<or> is_upper c \<or> is_lower c \<or> c \<in> set ''.+~''"

definition split_epoch :: "string \<Rightarrow> (string \<times> string) option" where
  "split_epoch v =
     (case index_byte v (CHR '':'') of
        None \<Rightarrow> Some (''0'', v)
      | Some i \<Rightarrow>
          let epoch = take i v; rest = drop (Suc i) v in
          if epoch = [] then None
          else if \<not> list_all is_digit epoch then None
          else Some (epoch, rest))"

definition split_revision :: "string \<Rightarrow> (string \<times> string) option" where
  "split_revision v =
     (case last_index_byte v (CHR ''-'') of
        None \<Rightarrow> Some (v, ''0'')
      | Some i \<Rightarrow>
          let upstream = take i v; revision = drop (Suc i) v in
          if revision = [] then None else Some (upstream, revision))"

definition splitDebianVersion :: "string \<Rightarrow> (string \<times> string \<times> string) option" where
  "splitDebianVersion v =
     (if v = [] \<or> 512 < length v then None
      else case split_epoch v of
        None \<Rightarrow> None
      | Some (epoch, v1) \<Rightarrow>
        (case split_revision v1 of
           None \<Rightarrow> None
         | Some (v2, revision) \<Rightarrow>
             if v2 = [] \<or> \<not> is_digit (hd v2) then None
             else if \<not> list_all upstream_char v2 then None
             else if \<not> list_all revision_char revision then None
             else Some (epoch, v2, revision)))"

text \<open>\<open>strings.TrimLeft(s, "0")\<close> and \<open>strings.Compare\<close>.\<close>

definition trim_zeros :: "string \<Rightarrow> string" where
  "trim_zeros s = dropWhile (\<lambda>c. c = CHR ''0'') s"

definition string_compare :: "string \<Rightarrow> string \<Rightarrow> int" where
  "string_compare a b = (if a = b then 0 else if a < b then -1 else 1)"

definition compareDebianDigits :: "string \<Rightarrow> string \<Rightarrow> int" where
  "compareDebianDigits a b =
     (let a = trim_zeros a; b = trim_zeros b in
      if length a < length b then -1
      else if length b < length a then 1
      else string_compare a b)"

definition debianOrder :: "char \<Rightarrow> int" where
  "debianOrder c =
     (if c = CHR ''~'' then -1
      else if c = CHR 0x00 \<or> is_digit c then 0
      else if is_upper c \<or> is_lower c then byte_val c
      else byte_val c + 256)"

text \<open>
  The inner loop of \<open>compareDebianPart\<close>: \<^const>\<open>Inl\<close> the value it returns,
  or \<^const>\<open>Inr\<close> the two suffixes it leaves. A missing byte is the zero byte.
\<close>

definition nondigit_head :: "string \<Rightarrow> bool" where
  "nondigit_head s \<longleftrightarrow> s \<noteq> [] \<and> \<not> is_digit (hd s)"

definition head_byte :: "string \<Rightarrow> char" where
  "head_byte s = (if s \<noteq> [] then hd s else CHR 0x00)"

function compare_nondigits :: "string \<Rightarrow> string \<Rightarrow> int + string \<times> string" where
  "compare_nondigits a b =
     (if nondigit_head a \<or> nondigit_head b then
        (if debianOrder (head_byte a) - debianOrder (head_byte b) < 0 then Inl (-1)
         else if 0 < debianOrder (head_byte a) - debianOrder (head_byte b) then Inl 1
         else compare_nondigits (tl a) (tl b))
      else Inr (a, b))"
  by pat_completeness auto
termination
  by (relation "measure (\<lambda>(a, b). length a + length b)")
     (auto simp: neq_Nil_conv nondigit_head_def)

declare compare_nondigits.simps [simp del]

lemma compare_nondigits_Inr:
  "compare_nondigits a b = Inr (a', b') \<Longrightarrow>
     length a' \<le> length a \<and> length b' \<le> length b \<and> \<not> nondigit_head a' \<and> \<not> nondigit_head b'"
proof (induction a b rule: compare_nondigits.induct)
  case (1 a b)
  show ?case
  proof (cases "nondigit_head a \<or> nondigit_head b")
    case True
    with "1.prems" have eq: "debianOrder (head_byte a) = debianOrder (head_byte b)"
      and rec: "compare_nondigits (tl a) (tl b) = Inr (a', b')"
      by (auto simp: compare_nondigits.simps [of a b] split: if_splits)
    from "1.IH" [OF True _ _ rec] eq show ?thesis by auto
  next
    case False
    with "1.prems" show ?thesis by (auto simp: compare_nondigits.simps [of a b])
  qed
qed

text \<open>The outer loop.\<close>

function compareDebianPart :: "string \<Rightarrow> string \<Rightarrow> int" where
  "compareDebianPart a b =
     (if a = [] \<and> b = [] then 0
      else case compare_nondigits a b of
        Inl c \<Rightarrow> c
      | Inr (a1, b1) \<Rightarrow>
          let c = compareDebianDigits (takeWhile is_digit a1) (takeWhile is_digit b1) in
          if c \<noteq> 0 then c
          else compareDebianPart (dropWhile is_digit a1) (dropWhile is_digit b1))"
  by pat_completeness auto

lemma length_dropWhile_digit:
  "\<not> nondigit_head s \<Longrightarrow> s \<noteq> [] \<Longrightarrow> length (dropWhile is_digit s) < length s"
  by (cases s) (auto simp: nondigit_head_def less_Suc_eq_le length_dropWhile_le)

lemma compare_nondigits_progress:
  assumes "compare_nondigits a b = Inr (a1, b1)" and "\<not> (a = [] \<and> b = [])"
  shows "length (dropWhile is_digit a1) + length (dropWhile is_digit b1) < length a + length b"
proof -
  from compare_nondigits_Inr [OF assms(1)] have le: "length a1 \<le> length a" "length b1 \<le> length b"
    and nd: "\<not> nondigit_head a1" "\<not> nondigit_head b1" by auto
  show ?thesis
  proof (cases "a1 = [] \<and> b1 = []")
    case True
    with assms(2) show ?thesis by auto
  next
    case False
    then have "length (dropWhile is_digit a1) + length (dropWhile is_digit b1)
      < length a1 + length b1"
      using length_dropWhile_digit [OF nd(1)] length_dropWhile_digit [OF nd(2)]
        length_dropWhile_le [of is_digit a1] length_dropWhile_le [of is_digit b1]
      by (cases "a1 = []"; cases "b1 = []") auto
    with le show ?thesis by linarith
  qed
qed

termination compareDebianPart
  by (relation "measure (\<lambda>(a, b). length a + length b)")
     (auto simp: compare_nondigits_progress simp del: length_greater_0_conv)

declare compareDebianPart.simps [simp del]

definition compareDebianVersions :: "string \<Rightarrow> string \<Rightarrow> (int \<times> bool)" where
  "compareDebianVersions a b =
     (case splitDebianVersion a of
        None \<Rightarrow> (0, False)
      | Some (ae, au, ar) \<Rightarrow>
        (case splitDebianVersion b of
           None \<Rightarrow> (0, False)
         | Some (be, bu, br) \<Rightarrow>
             let c = compareDebianDigits ae be in
             if c \<noteq> 0 then (c, True)
             else let c = compareDebianPart au bu in
             if c \<noteq> 0 then (c, True)
             else (compareDebianPart ar br, True)))"

subsection \<open>Comparators\<close>

text \<open>
  The contract of a three-way comparison on the values that satisfy \<open>ok\<close>, and what
  follows from it for every caller.
\<close>

locale comparator =
  fixes ok :: "'a \<Rightarrow> bool"
    and cmp :: "'a \<Rightarrow> 'a \<Rightarrow> int"
  assumes cmp_range: "ok a \<Longrightarrow> ok b \<Longrightarrow> cmp a b \<in> {-1, 0, 1}"
    and cmp_antisym: "ok a \<Longrightarrow> ok b \<Longrightarrow> cmp b a = - cmp a b"
    and cmp_trans: "ok a \<Longrightarrow> ok b \<Longrightarrow> ok c \<Longrightarrow> cmp a b \<le> 0 \<Longrightarrow> cmp b c \<le> 0 \<Longrightarrow> cmp a c \<le> 0"
begin

lemma cmp_refl:
  assumes "ok a"
  shows "cmp a a = 0"
proof -
  have "cmp a a = - cmp a a" using cmp_antisym assms by blast
  then show ?thesis by linarith
qed

lemma cmp_eq_sym: "ok a \<Longrightarrow> ok b \<Longrightarrow> cmp a b = 0 \<Longrightarrow> cmp b a = 0"
  using cmp_antisym [of a b] by simp

lemma cmp_eq_trans:
  assumes ok: "ok a" "ok b" "ok c" and "cmp a b = 0" "cmp b c = 0"
  shows "cmp a c = 0"
proof -
  have "cmp a c \<le> 0" using cmp_trans [OF ok] assms(4,5) by simp
  moreover have "cmp c a \<le> 0"
    using cmp_trans [OF ok(3,2,1)] cmp_antisym [OF ok(1,2)] cmp_antisym [OF ok(2,3)] assms(4,5)
    by linarith
  ultimately show ?thesis using cmp_antisym [OF ok(1,3)] by linarith
qed

lemma cmp_less_le_trans:
  assumes ok: "ok a" "ok b" "ok c" and ab: "cmp a b < 0" and bc: "cmp b c \<le> 0"
  shows "cmp a c < 0"
proof (rule ccontr)
  assume "\<not> cmp a c < 0"
  then have "cmp c a \<le> 0" using cmp_antisym [OF ok(1,3)] by linarith
  with bc have "cmp b a \<le> 0" by (rule cmp_trans [OF ok(2,3,1)])
  with ab cmp_antisym [OF ok(1,2)] show False by linarith
qed

lemma cmp_le_less_trans:
  assumes ok: "ok a" "ok b" "ok c" and ab: "cmp a b \<le> 0" and bc: "cmp b c < 0"
  shows "cmp a c < 0"
proof (rule ccontr)
  assume "\<not> cmp a c < 0"
  then have "cmp c a \<le> 0" using cmp_antisym [OF ok(1,3)] by linarith
  then have "cmp c b \<le> 0" using ab by (rule cmp_trans [OF ok(3,1,2)])
  with bc cmp_antisym [OF ok(2,3)] show False by linarith
qed

end

definition lex_cmp :: "('a \<Rightarrow> 'a \<Rightarrow> int) \<Rightarrow> ('b \<Rightarrow> 'b \<Rightarrow> int) \<Rightarrow> 'a \<times> 'b \<Rightarrow> 'a \<times> 'b \<Rightarrow> int" where
  "lex_cmp f g p q = (if f (fst p) (fst q) \<noteq> 0 then f (fst p) (fst q) else g (snd p) (snd q))"

locale comparator_pair =
  fst: comparator okA cmpA + snd: comparator okB cmpB
  for okA :: "'a \<Rightarrow> bool" and cmpA and okB :: "'b \<Rightarrow> bool" and cmpB

sublocale comparator_pair \<subseteq> pair: comparator "\<lambda>p. okA (fst p) \<and> okB (snd p)" "lex_cmp cmpA cmpB"
proof unfold_locales
  fix a b :: "'a \<times> 'b"
  assume ok: "okA (fst a) \<and> okB (snd a)" "okA (fst b) \<and> okB (snd b)"
  then show "lex_cmp cmpA cmpB a b \<in> {-1, 0, 1}"
    using fst.cmp_range [of "fst a" "fst b"] snd.cmp_range [of "snd a" "snd b"]
    by (auto simp: lex_cmp_def)
  from ok show "lex_cmp cmpA cmpB b a = - lex_cmp cmpA cmpB a b"
    using fst.cmp_antisym [of "fst a" "fst b"] snd.cmp_antisym [of "snd a" "snd b"]
    by (auto simp: lex_cmp_def)
next
  fix a b c :: "'a \<times> 'b"
  assume ok: "okA (fst a) \<and> okB (snd a)" "okA (fst b) \<and> okB (snd b)" "okA (fst c) \<and> okB (snd c)"
    and ab: "lex_cmp cmpA cmpB a b \<le> 0" and bc: "lex_cmp cmpA cmpB b c \<le> 0"
  have le: "cmpA (fst a) (fst b) \<le> 0" "cmpA (fst b) (fst c) \<le> 0"
    using ab bc by (auto simp: lex_cmp_def split: if_splits)
  show "lex_cmp cmpA cmpB a c \<le> 0"
  proof (cases "cmpA (fst a) (fst b) = 0 \<and> cmpA (fst b) (fst c) = 0")
    case True
    then have "cmpB (snd a) (snd b) \<le> 0" "cmpB (snd b) (snd c) \<le> 0"
      using ab bc by (auto simp: lex_cmp_def)
    with True ok show ?thesis
      using fst.cmp_eq_trans [of "fst a" "fst b" "fst c"]
        snd.cmp_trans [of "snd a" "snd b" "snd c"]
      by (simp add: lex_cmp_def)
  next
    case False
    then have "cmpA (fst a) (fst c) < 0"
      using le ok fst.cmp_less_le_trans [of "fst a" "fst b" "fst c"]
        fst.cmp_le_less_trans [of "fst a" "fst b" "fst c"]
      by auto
    then show ?thesis by (simp add: lex_cmp_def)
  qed
qed

subsection \<open>Digit runs compare as numbers\<close>

fun digits_val :: "string \<Rightarrow> int" where
  "digits_val [] = 0"
| "digits_val (c # cs) = (byte_val c - 48) * 10 ^ length cs + digits_val cs"

lemma is_digit_val: "is_digit c \<longleftrightarrow> 48 \<le> byte_val c \<and> byte_val c \<le> 57"
  by (simp add: is_digit_def char_le_iff_byte_val) (simp add: byte_val_def)

lemma zero_digit_val: "c = CHR ''0'' \<longleftrightarrow> byte_val c = 48"
proof -
  have "byte_val (CHR ''0'') = 48" by (simp add: byte_val_def)
  then show ?thesis by (metis byte_val_inj)
qed

lemma digits_val_bounds:
  "list_all is_digit s \<Longrightarrow> 0 \<le> digits_val s \<and> digits_val s < 10 ^ length s"
proof (induction s)
  case (Cons c cs)
  then have d: "0 \<le> byte_val c - 48" "byte_val c - 48 \<le> 9" and
    IH: "0 \<le> digits_val cs" "digits_val cs < 10 ^ length cs"
    by (auto simp: is_digit_val)
  have "(byte_val c - 48) * 10 ^ length cs \<le> 9 * 10 ^ length cs"
    using d by (intro mult_right_mono) auto
  moreover have "0 \<le> (byte_val c - 48) * 10 ^ length cs" using d by simp
  ultimately have "0 \<le> (byte_val c - 48) * 10 ^ length cs + digits_val cs"
    "(byte_val c - 48) * 10 ^ length cs + digits_val cs < 10 * 10 ^ length cs"
    using IH by linarith+
  then show ?case by simp
qed simp

lemma digits_val_trim_zeros: "digits_val (trim_zeros s) = digits_val s"
  by (induction s) (simp_all add: trim_zeros_def zero_digit_val)

lemma list_all_trim_zeros: "list_all is_digit s \<Longrightarrow> list_all is_digit (trim_zeros s)"
  by (induction s) (simp_all add: trim_zeros_def)

lemma trim_zeros_lower:
  assumes "list_all is_digit s" and "trim_zeros s \<noteq> []"
  shows "10 ^ (length (trim_zeros s) - 1) \<le> digits_val (trim_zeros s)"
proof -
  obtain c cs where c: "trim_zeros s = c # cs" using assms(2) by (cases "trim_zeros s") auto
  then have nz: "c \<noteq> CHR ''0''"
    using hd_dropWhile [of "\<lambda>c. c = CHR ''0''" s] by (simp add: trim_zeros_def)
  have dig: "is_digit c" "list_all is_digit cs" using list_all_trim_zeros [OF assms(1)] c by auto
  with nz have one: "1 \<le> byte_val c - 48" by (simp add: is_digit_val zero_digit_val)
  have "10 ^ length cs \<le> (byte_val c - 48) * 10 ^ length cs"
    using mult_right_mono [OF one, of "10 ^ length cs"] by simp
  then have "10 ^ length cs \<le> (byte_val c - 48) * 10 ^ length cs + digits_val cs"
    using digits_val_bounds [OF dig(2)] by linarith
  with c show ?thesis by simp
qed

lemma digits_val_eq_length:
  "length a = length b \<Longrightarrow> list_all is_digit a \<Longrightarrow> list_all is_digit b \<Longrightarrow>
     string_compare a b = sgn (digits_val a - digits_val b)"
proof (induction a b rule: list_induct2)
  case Nil
  show ?case by (simp add: string_compare_def)
next
  case (Cons x xs y ys)
  have bx: "0 \<le> digits_val xs" "digits_val xs < 10 ^ length ys"
    and "by": "0 \<le> digits_val ys" "digits_val ys < 10 ^ length ys"
    using Cons digits_val_bounds [of xs] digits_val_bounds [of ys] by auto
  consider "x < y" | "x = y" | "y < x" by (rule linorder_cases)
  then show ?case
  proof cases
    case 1
    then have "(byte_val x - 48 + 1) * 10 ^ length ys \<le> (byte_val y - 48) * 10 ^ length ys"
      by (intro mult_right_mono) (auto simp: char_less_iff_byte_val)
    with bx "by" have "digits_val (x # xs) < digits_val (y # ys)"
      by (simp add: Cons.hyps algebra_simps)
    with 1 show ?thesis by (auto simp: string_compare_def)
  next
    case 2
    with Cons.IH Cons.prems have "string_compare xs ys = sgn (digits_val xs - digits_val ys)"
      by simp
    with 2 Cons.hyps show ?thesis by (auto simp: string_compare_def split: if_splits)
  next
    case 3
    then have "(byte_val y - 48 + 1) * 10 ^ length ys \<le> (byte_val x - 48) * 10 ^ length ys"
      by (intro mult_right_mono) (auto simp: char_less_iff_byte_val)
    with bx "by" have "digits_val (y # ys) < digits_val (x # xs)"
      by (simp add: Cons.hyps algebra_simps)
    with 3 show ?thesis by (auto simp: string_compare_def)
  qed
qed

lemma digits_shorter_less:
  assumes "list_all is_digit a" "list_all is_digit b"
    and "length (trim_zeros a) < length (trim_zeros b)"
  shows "digits_val a < digits_val b"
proof -
  have ne: "trim_zeros b \<noteq> []" using assms(3) by auto
  have "digits_val a < 10 ^ length (trim_zeros a)"
    using digits_val_bounds [OF list_all_trim_zeros [OF assms(1)]] by (simp add: digits_val_trim_zeros)
  also have "\<dots> \<le> 10 ^ (length (trim_zeros b) - 1)"
    using assms(3) by (intro power_increasing) auto
  also have "\<dots> \<le> digits_val b"
    using trim_zeros_lower [OF assms(2) ne] by (simp add: digits_val_trim_zeros)
  finally show ?thesis .
qed

lemma compareDebianDigits_sgn:
  assumes "list_all is_digit a" "list_all is_digit b"
  shows "compareDebianDigits a b = sgn (digits_val a - digits_val b)"
proof -
  consider "length (trim_zeros a) < length (trim_zeros b)"
    | "length (trim_zeros a) = length (trim_zeros b)"
    | "length (trim_zeros b) < length (trim_zeros a)" by linarith
  then show ?thesis
  proof cases
    case 1
    with digits_shorter_less [OF assms 1] show ?thesis
      by (simp add: compareDebianDigits_def)
  next
    case 2
    then show ?thesis
      using digits_val_eq_length [OF 2 list_all_trim_zeros [OF assms(1)] list_all_trim_zeros [OF assms(2)]]
      by (simp add: compareDebianDigits_def digits_val_trim_zeros)
  next
    case 3
    with digits_shorter_less [OF assms(2,1) 3] show ?thesis
      by (simp add: compareDebianDigits_def)
  qed
qed

interpretation digits: comparator "list_all is_digit" compareDebianDigits
proof unfold_locales
  fix a b c
  assume d: "list_all is_digit a" "list_all is_digit b"
  show "compareDebianDigits a b \<in> {-1, 0, 1}"
    by (simp add: compareDebianDigits_sgn d sgn_if)
  show "compareDebianDigits b a = - compareDebianDigits a b"
    by (simp add: compareDebianDigits_sgn d sgn_if)
  assume "list_all is_digit c" "compareDebianDigits a b \<le> 0" "compareDebianDigits b c \<le> 0"
  with d show "compareDebianDigits a c \<le> 0"
    by (simp add: compareDebianDigits_sgn sgn_if split: if_split_asm)
qed

subsection \<open>The weights of a part\<close>

function weights :: "string \<Rightarrow> int list" where
  "weights [] = []"
| "weights (c # cs) =
     (if is_digit c
      then 0 # digits_val (takeWhile is_digit (c # cs)) # weights (dropWhile is_digit (c # cs))
      else debianOrder c # weights cs)"
  by pat_completeness auto
termination
  by (relation "measure length") (auto simp: less_Suc_eq_le length_dropWhile_le)

text \<open>The lexicographic order of two lists continued by zeros.\<close>

fun padded_cmp :: "int list \<Rightarrow> int list \<Rightarrow> int" where
  "padded_cmp [] [] = 0"
| "padded_cmp [] (y # ys) = (if 0 < y then -1 else if y < 0 then 1 else padded_cmp [] ys)"
| "padded_cmp (x # xs) [] = (if x < 0 then -1 else if 0 < x then 1 else padded_cmp xs [])"
| "padded_cmp (x # xs) (y # ys) = (if x < y then -1 else if y < x then 1 else padded_cmp xs ys)"

definition hd0 :: "int list \<Rightarrow> int" where
  "hd0 xs = (case xs of [] \<Rightarrow> 0 | x # _ \<Rightarrow> x)"

lemma padded_cmp_unfold:
  "padded_cmp xs ys =
     (if hd0 xs < hd0 ys then -1 else if hd0 ys < hd0 xs then 1 else padded_cmp (tl xs) (tl ys))"
  by (cases xs; cases ys) (simp_all add: hd0_def)

lemma padded_cmp_zero: "padded_cmp [0, 0] ys = padded_cmp [] ys" "padded_cmp xs [0, 0] = padded_cmp xs []"
  by (cases ys; cases "tl ys"; simp) (cases xs; cases "tl xs"; simp)

lemma padded_cmp_trans:
  "length xs \<le> n \<Longrightarrow> length ys \<le> n \<Longrightarrow> length zs \<le> n \<Longrightarrow>
     padded_cmp xs ys \<le> 0 \<Longrightarrow> padded_cmp ys zs \<le> 0 \<Longrightarrow> padded_cmp xs zs \<le> 0"
proof (induction n arbitrary: xs ys zs)
  case 0
  then show ?case by simp
next
  case (Suc n)
  have len: "length (tl xs) \<le> n" "length (tl ys) \<le> n" "length (tl zs) \<le> n"
    using Suc.prems(1-3) by auto
  have ab: "hd0 xs < hd0 ys \<or> hd0 xs = hd0 ys \<and> padded_cmp (tl xs) (tl ys) \<le> 0"
    using Suc.prems(4) padded_cmp_unfold [of xs ys] by (simp split: if_splits)
  have bc: "hd0 ys < hd0 zs \<or> hd0 ys = hd0 zs \<and> padded_cmp (tl ys) (tl zs) \<le> 0"
    using Suc.prems(5) padded_cmp_unfold [of ys zs] by (simp split: if_splits)
  have "hd0 xs < hd0 zs \<or> hd0 xs = hd0 zs \<and> padded_cmp (tl xs) (tl zs) \<le> 0"
    using ab bc Suc.IH [OF len] by auto
  then show ?case using padded_cmp_unfold [of xs zs] by auto
qed

interpretation padded: comparator "\<lambda>_. True" padded_cmp
proof unfold_locales
  fix a b :: "int list"
  show "padded_cmp a b \<in> {-1, 0, 1}" by (induction a b rule: padded_cmp.induct) auto
  show "padded_cmp b a = - padded_cmp a b" by (induction a b rule: padded_cmp.induct) auto
next
  fix a b c :: "int list"
  assume "padded_cmp a b \<le> 0" "padded_cmp b c \<le> 0"
  then show "padded_cmp a c \<le> 0"
    by (intro padded_cmp_trans [of a "max (length a) (max (length b) (length c))" b c]) auto
qed

definition part_ok :: "string \<Rightarrow> bool" where
  "part_ok s \<longleftrightarrow> CHR 0x00 \<notin> set s"

lemma part_ok_tl: "part_ok s \<Longrightarrow> part_ok (tl s)"
  by (cases s) (auto simp: part_ok_def)

lemma part_ok_dropWhile: "part_ok s \<Longrightarrow> part_ok (dropWhile P s)"
  by (auto simp: part_ok_def dest: set_dropWhileD)

lemma debianOrder_nonzero: "c \<noteq> CHR 0x00 \<Longrightarrow> \<not> is_digit c \<Longrightarrow> debianOrder c \<noteq> 0"
proof -
  assume "c \<noteq> CHR 0x00" "\<not> is_digit c"
  moreover from this have "0 < byte_val c"
    using byte_val_range(1) [of c] byte_val_inj [of c "CHR 0x00"] by (auto simp: byte_val_def)
  ultimately show ?thesis by (auto simp: debianOrder_def)
qed

lemma debianOrder_digit: "is_digit c \<Longrightarrow> debianOrder c = 0"
  by (auto simp: debianOrder_def is_digit_def)

lemma debianOrder_eof: "debianOrder (CHR 0x00) = 0"
  by (simp add: debianOrder_def)

lemma hd0_weights: "hd0 (weights s) = debianOrder (head_byte s)"
  by (cases s) (simp_all add: hd0_def head_byte_def debianOrder_def is_digit_def)

lemma tl_weights_nondigit: "nondigit_head s \<Longrightarrow> tl (weights s) = weights (tl s)"
  by (cases s) (simp_all add: nondigit_head_def)

lemma same_order_nondigit:
  assumes "part_ok a" "part_ok b" "nondigit_head a"
    and "debianOrder (head_byte a) = debianOrder (head_byte b)"
  shows "nondigit_head b"
proof (rule ccontr)
  assume "\<not> nondigit_head b"
  then have "debianOrder (head_byte b) = 0"
    by (cases b) (simp_all add: nondigit_head_def head_byte_def debianOrder_digit debianOrder_eof)
  moreover have "debianOrder (head_byte a) \<noteq> 0"
    using assms(1,3) debianOrder_nonzero [of "hd a"]
    by (cases a) (auto simp: nondigit_head_def head_byte_def part_ok_def)
  ultimately show False using assms(4) by simp
qed

lemma compare_nondigits_weights:
  assumes "part_ok a" "part_ok b"
  shows "(case compare_nondigits a b of
            Inl c \<Rightarrow> padded_cmp (weights a) (weights b) = c
          | Inr (a', b') \<Rightarrow> part_ok a' \<and> part_ok b' \<and>
              padded_cmp (weights a) (weights b) = padded_cmp (weights a') (weights b'))"
  using assms
proof (induction a b rule: compare_nondigits.induct)
  case (1 a b)
  show ?case
  proof (cases "nondigit_head a \<or> nondigit_head b")
    case nd: True
    show ?thesis
    proof (cases "debianOrder (head_byte a) = debianOrder (head_byte b)")
      case True
      with nd "1.prems" have both: "nondigit_head a" "nondigit_head b"
        using same_order_nondigit [of a b] same_order_nondigit [of b a] by auto
      have eq: "padded_cmp (weights a) (weights b) = padded_cmp (weights (tl a)) (weights (tl b))"
        using both True by (subst padded_cmp_unfold) (simp add: hd0_weights tl_weights_nondigit)
      have step: "compare_nondigits a b = compare_nondigits (tl a) (tl b)"
        using nd True by (simp add: compare_nondigits.simps [of a b])
      show ?thesis
        unfolding step eq using True "1.prems" by (intro "1.IH" [OF nd]) (simp_all add: part_ok_tl)
    next
      case False
      with nd show ?thesis
        by (auto simp: compare_nondigits.simps [of a b] padded_cmp_unfold [of "weights a"] hd0_weights)
    qed
  next
    case False
    with "1.prems" show ?thesis by (simp add: compare_nondigits.simps [of a b])
  qed
qed

lemma padded_cmp_digits:
  assumes "\<not> nondigit_head s"
  shows "padded_cmp (weights s) ys =
    padded_cmp (0 # digits_val (takeWhile is_digit s) # weights (dropWhile is_digit s)) ys"
    "padded_cmp ys (weights s) =
    padded_cmp ys (0 # digits_val (takeWhile is_digit s) # weights (dropWhile is_digit s))"
  using assms by (cases s; simp add: nondigit_head_def padded_cmp_zero)+

text \<open>The comparison of two parts is the padded comparison of their weights.\<close>

lemma compareDebianPart_weights:
  "part_ok a \<Longrightarrow> part_ok b \<Longrightarrow> compareDebianPart a b = padded_cmp (weights a) (weights b)"
proof (induction a b rule: compareDebianPart.induct)
  case (1 a b)
  show ?case
  proof (cases "a = [] \<and> b = []")
    case True
    then show ?thesis by (simp add: compareDebianPart.simps)
  next
    case ne: False
    note spec = compare_nondigits_weights [OF "1.prems"]
    show ?thesis
    proof (cases "compare_nondigits a b")
      case (Inl c)
      with spec ne show ?thesis by (auto simp: compareDebianPart.simps [of a b])
    next
      case (Inr p)
      then obtain a' b' where p: "compare_nondigits a b = Inr (a', b')" by (cases p) auto
      let ?da = "takeWhile is_digit a'" and ?db = "takeWhile is_digit b'"
      from spec p have ok: "part_ok a'" "part_ok b'"
        and eq: "padded_cmp (weights a) (weights b) = padded_cmp (weights a') (weights b')" by auto
      from compare_nondigits_Inr [OF p] have nd: "\<not> nondigit_head a'" "\<not> nondigit_head b'" by auto
      have dig: "compareDebianDigits ?da ?db = sgn (digits_val ?da - digits_val ?db)"
        by (intro compareDebianDigits_sgn) (auto simp: list_all_iff dest: set_takeWhileD)
      have "padded_cmp (weights a') (weights b') =
        (if digits_val ?da < digits_val ?db then -1 else if digits_val ?db < digits_val ?da then 1
         else padded_cmp (weights (dropWhile is_digit a')) (weights (dropWhile is_digit b')))"
        by (simp add: padded_cmp_digits(1) [OF nd(1)] padded_cmp_digits(2) [OF nd(2)])
      moreover have "digits_val ?da = digits_val ?db \<Longrightarrow>
        compareDebianPart (dropWhile is_digit a') (dropWhile is_digit b') =
        padded_cmp (weights (dropWhile is_digit a')) (weights (dropWhile is_digit b'))"
        using "1.IH" [OF ne p refl refl] dig ok by (simp add: part_ok_dropWhile)
      ultimately show ?thesis
        using ne p eq dig by (auto simp: compareDebianPart.simps [of a b] Let_def sgn_if)
    qed
  qed
qed

interpretation part: comparator part_ok compareDebianPart
proof unfold_locales
  fix a b c
  assume ok: "part_ok a" "part_ok b"
  show "compareDebianPart a b \<in> {-1, 0, 1}"
    using padded.cmp_range ok by (simp add: compareDebianPart_weights)
  show "compareDebianPart b a = - compareDebianPart a b"
    using padded.cmp_antisym [of "weights a" "weights b"] ok by (simp add: compareDebianPart_weights)
  assume "part_ok c" "compareDebianPart a b \<le> 0" "compareDebianPart b c \<le> 0"
  then show "compareDebianPart a c \<le> 0"
    using padded.cmp_trans [of "weights a" "weights b" "weights c"] ok
    by (simp add: compareDebianPart_weights)
qed

subsection \<open>Versions\<close>

interpretation upstream_revision: comparator_pair part_ok compareDebianPart part_ok compareDebianPart
  by unfold_locales

interpretation version: comparator_pair "list_all is_digit" compareDebianDigits
  "\<lambda>p. part_ok (fst p) \<and> part_ok (snd p)" "lex_cmp compareDebianPart compareDebianPart"
  by unfold_locales

lemma upstream_chars_ok: "list_all upstream_char s \<Longrightarrow> part_ok s"
  by (auto simp: part_ok_def list_all_iff upstream_char_def is_digit_def is_upper_def is_lower_def)

lemma revision_chars_ok: "list_all revision_char s \<Longrightarrow> part_ok s"
  by (auto simp: part_ok_def list_all_iff revision_char_def is_digit_def is_upper_def is_lower_def)

lemma split_epoch_digits: "split_epoch v = Some (e, r) \<Longrightarrow> list_all is_digit e"
  by (auto simp: split_epoch_def Let_def is_digit_def split: option.splits if_splits)

lemma splitDebianVersion_ok:
  "splitDebianVersion v = Some (e, u, r) \<Longrightarrow> list_all is_digit e \<and> part_ok u \<and> part_ok r"
  by (auto simp: splitDebianVersion_def upstream_chars_ok revision_chars_ok
      dest: split_epoch_digits split: option.splits prod.splits if_splits)

lemma compareDebianVersions_lex:
  assumes "splitDebianVersion a = Some p" "splitDebianVersion b = Some q"
  shows "compareDebianVersions a b =
    (lex_cmp compareDebianDigits (lex_cmp compareDebianPart compareDebianPart) p q, True)"
  using assms by (cases p; cases q) (simp add: compareDebianVersions_def lex_cmp_def Let_def)

definition version_ok :: "string \<Rightarrow> bool" where
  "version_ok v \<longleftrightarrow> splitDebianVersion v \<noteq> None"

interpretation versions: comparator version_ok "\<lambda>a b. fst (compareDebianVersions a b)"
proof unfold_locales
  fix a b c
  assume "version_ok a" "version_ok b"
  then obtain p q where p: "splitDebianVersion a = Some p" and q: "splitDebianVersion b = Some q"
    by (auto simp: version_ok_def)
  have ok: "list_all is_digit (fst p) \<and> part_ok (fst (snd p)) \<and> part_ok (snd (snd p))"
    "list_all is_digit (fst q) \<and> part_ok (fst (snd q)) \<and> part_ok (snd (snd q))"
    using splitDebianVersion_ok [of a "fst p" "fst (snd p)" "snd (snd p)"]
      splitDebianVersion_ok [of b "fst q" "fst (snd q)" "snd (snd q)"] p q by simp_all
  show "fst (compareDebianVersions a b) \<in> {-1, 0, 1}"
    using version.pair.cmp_range [OF ok] by (simp add: compareDebianVersions_lex [OF p q])
  show "fst (compareDebianVersions b a) = - fst (compareDebianVersions a b)"
    using version.pair.cmp_antisym [OF ok]
    by (simp add: compareDebianVersions_lex [OF p q] compareDebianVersions_lex [OF q p])
  assume "version_ok c" and ab: "fst (compareDebianVersions a b) \<le> 0"
    and bc: "fst (compareDebianVersions b c) \<le> 0"
  then obtain r where r: "splitDebianVersion c = Some r" by (auto simp: version_ok_def)
  have okr: "list_all is_digit (fst r) \<and> part_ok (fst (snd r)) \<and> part_ok (snd (snd r))"
    using splitDebianVersion_ok [of c "fst r" "fst (snd r)" "snd (snd r)"] r by simp
  show "fst (compareDebianVersions a c) \<le> 0"
    using version.pair.cmp_trans [OF ok okr] ab bc
    by (simp add: compareDebianVersions_lex [OF p q] compareDebianVersions_lex [OF q r]
        compareDebianVersions_lex [OF p r])
qed

lemma weights_append: "\<not> is_digit c \<Longrightarrow> weights (s @ c # t) = weights s @ weights (c # t)"
proof (induction s rule: weights.induct)
  case (2 d ds)
  show ?case
  proof (cases "is_digit d")
    case True
    have "takeWhile is_digit (ds @ c # t) = takeWhile is_digit ds"
      "dropWhile is_digit (ds @ c # t) = dropWhile is_digit ds @ c # t"
      using "2.prems" by (induction ds) auto
    with "2.IH"(1) [OF True "2.prems"] True show ?thesis by simp
  next
    case False
    with "2.IH"(2) "2.prems" show ?thesis by simp
  qed
qed simp

lemma padded_cmp_append_neg: "padded_cmp (xs @ - 1 # ys) xs = -1"
  by (induction xs) simp_all

lemma tilde_before_part:
  assumes "part_ok s" "part_ok t"
  shows "compareDebianPart (s @ CHR ''~'' # t) s = -1"
proof -
  have t: "weights (CHR ''~'' # t) = -1 # weights t"
    by (simp add: is_digit_def debianOrder_def)
  have "part_ok (s @ CHR ''~'' # t)" using assms by (auto simp: part_ok_def)
  then show ?thesis
    using assms padded_cmp_append_neg
    by (simp add: compareDebianPart_weights weights_append is_digit_def t del: weights.simps)
qed

subsection \<open>Properties\<close>

text \<open>On the versions that the parser accepts the comparison is known and is a total preorder:
  its result is -1, 0 or 1, swapping the arguments flips the sign, and it is transitive.\<close>

lemma version_order_is_total_preorder:
  assumes "splitDebianVersion a \<noteq> None" and "splitDebianVersion b \<noteq> None" and "splitDebianVersion c \<noteq> None"
  shows "snd (compareDebianVersions a b)
     \<and> fst (compareDebianVersions a b) \<in> {-1, 0, 1}
     \<and> fst (compareDebianVersions b a) = - fst (compareDebianVersions a b)
     \<and> \<not> (fst (compareDebianVersions a b) \<le> 0 \<and> fst (compareDebianVersions b c) \<le> 0
           \<and> 0 < fst (compareDebianVersions a c))"
proof -
  have ok: "version_ok a" "version_ok b" "version_ok c" using assms by (simp_all add: version_ok_def)
  have "snd (compareDebianVersions a b)"
    using assms(1,2) by (auto simp: compareDebianVersions_def Let_def split: option.splits)
  then show ?thesis
    using versions.cmp_range [OF ok(1,2)] versions.cmp_antisym [OF ok(1,2)] versions.cmp_trans [OF ok]
    by linarith
qed



text \<open>A pre-release sorts before its release: appending a tilde and any further text to an
  upstream part or a revision makes it strictly smaller.\<close>

lemma tilde_sorts_before_release:
  assumes "CHR 0x00 \<notin> set s" and "CHR 0x00 \<notin> set t"
  shows "compareDebianPart (s @ CHR ''~'' # t) s = -1"
  by (rule tilde_before_part) (use assms in \<open>simp_all add: part_ok_def\<close>)

end
