(* ===== verification/JobLogs.thy ===== *)
theory JobLogs
  imports Prelude
begin

section \<open>Bounded job logs\<close>

text \<open>
  The model of \<open>internal/jobs/logs.go\<close>. The log of one job is the six columns of its row
  in the table \<open>jobs\<close> and its rows of \<open>job_log_chunks\<close>, kept in the order of the query
  \<open>ORDER BY sequence\<close>; the SQL statements are list operations that select rows by their
  sequence number, as the statements do. A log grows by fragments; past \<open>MaxBytes\<close> its
  middle is dropped and a marker chunk takes its place, and from then on the oldest bytes
  after the marker are dropped. The lemmas show that the stored chunks always are a
  faithful abridgement of the bytes that were written, within the configured bound.
\<close>

subsection \<open>Constants and data\<close>

definition DefaultLogRetentionDays :: int where "DefaultLogRetentionDays = 30"
definition DefaultLogMaxBytes :: int where "DefaultLogMaxBytes = 2 * 1024 * 1024"
definition LogHeadBytes :: nat where "LogHeadBytes = 64 * 1024"
definition LogPreviewMaxBytes :: nat where "LogPreviewMaxBytes = 32 * 1024"
definition LogChunkMaxBytes :: nat where "LogChunkMaxBytes = 32 * 1024"
definition MinLogMaxBytes :: int where "MinLogMaxBytes = 128 * 1024"
definition MaxLogMaxBytes :: int where "MaxLogMaxBytes = 1024 * 1024 * 1024"

abbreviation LogStreamCombined :: string where "LogStreamCombined \<equiv> ''combined''"
abbreviation LogStreamStdout :: string where "LogStreamStdout \<equiv> ''stdout''"
abbreviation LogStreamStderr :: string where "LogStreamStderr \<equiv> ''stderr''"
abbreviation LogStreamSystem :: string where "LogStreamSystem \<equiv> ''system''"

definition LogTruncationMarker :: string where
  "LogTruncationMarker = CHR 0x0A # ''[... job log middle truncated ...]'' @ [CHR 0x0A]"

definition logPreviewMarker :: string where
  "logPreviewMarker = CHR 0x0A # ''[... job log preview truncated ...]'' @ [CHR 0x0A]"

text \<open>The clock of \<open>LogConfig\<close> is an argument of the operations that read it.\<close>

record log_config =
  RetentionDays :: int
  MaxBytes :: int

record log_fragment =
  fStream :: string
  fData :: string

record log_chunk =
  cSequence :: int
  cStream :: string
  cData :: string
  cCreatedAt :: string

record job_log =
  logs_text :: string
  logs_expired :: bool
  logs_truncated :: bool
  log_next_sequence :: int
  log_source_bytes :: int
  log_chunks :: "log_chunk list"

record log_page =
  pFragments :: "log_chunk list"
  pNextSequence :: int
  pHasMore :: bool
  pExpired :: bool
  pTruncated :: bool
  pRetentionDays :: int

record log_write_result =
  wChunks :: "log_chunk list"
  wReset :: bool

definition DefaultLogConfig :: log_config where
  "DefaultLogConfig = \<lparr>RetentionDays = DefaultLogRetentionDays, MaxBytes = DefaultLogMaxBytes\<rparr>"

definition normalizeLogConfig :: "log_config \<Rightarrow> log_config" where
  "normalizeLogConfig config =
     (let config = (if RetentionDays config \<le> 0
                    then config\<lparr>RetentionDays := RetentionDays DefaultLogConfig\<rparr> else config) in
      if MaxBytes config < MinLogMaxBytes \<or> MaxLogMaxBytes < MaxBytes config
      then config\<lparr>MaxBytes := MaxBytes DefaultLogConfig\<rparr> else config)"

subsection \<open>Cutting at rune boundaries\<close>

definition rune_start :: "char \<Rightarrow> bool" where
  "rune_start c \<longleftrightarrow> byte_val c div 64 \<noteq> 2"

text \<open>\<open>for cut > 0 && cut < len(data) && !utf8.RuneStart(data[cut]) { cut-- }\<close>\<close>

fun rune_cut :: "string \<Rightarrow> nat \<Rightarrow> nat" where
  "rune_cut s 0 = 0"
| "rune_cut s (Suc n) =
     (if Suc n < length s \<and> \<not> rune_start (s ! Suc n) then rune_cut s n else Suc n)"

text \<open>
  \<open>splitLogData\<close> is called with the positive constant \<^const>\<open>LogChunkMaxBytes\<close> only; the
  guard \<open>0 < maxBytes\<close> makes the recursion total (Go would loop at zero).
\<close>

function splitLogData :: "string \<Rightarrow> nat \<Rightarrow> string list" where
  "splitLogData data maxBytes =
     (if data = [] then []
      else if 0 < maxBytes \<and> maxBytes < length data then
        (let cut = rune_cut data maxBytes; cut = (if cut = 0 then maxBytes else cut) in
         take cut data # splitLogData (drop cut data) maxBytes)
      else [data])"
  by pat_completeness auto
termination
  by (relation "measure (\<lambda>(d, m). length d)") (auto simp: Let_def)

declare splitLogData.simps [simp del]

definition safePrefixBytes :: "string \<Rightarrow> nat \<Rightarrow> string" where
  "safePrefixBytes data maxBytes =
     (if maxBytes = 0 then [] else if length data \<le> maxBytes then data
      else take (rune_cut data maxBytes) data)"

text \<open>Advancing \<open>start\<close> to the next rune start is dropping the continuation bytes.\<close>

definition safeSuffixBytes :: "string \<Rightarrow> nat \<Rightarrow> string" where
  "safeSuffixBytes data maxBytes =
     (if maxBytes = 0 then [] else if length data \<le> maxBytes then data
      else dropWhile (\<lambda>c. \<not> rune_start c) (drop (length data - maxBytes) data))"

definition trimLogPrefix :: "string \<Rightarrow> nat \<Rightarrow> string" where
  "trimLogPrefix data bytes =
     (if bytes = 0 then data else if length data \<le> bytes then []
      else dropWhile (\<lambda>c. \<not> rune_start c) (drop bytes data))"

definition BoundedLogPreview :: "string \<Rightarrow> string" where
  "BoundedLogPreview data =
     (if length data \<le> LogPreviewMaxBytes then data
      else let headBudget = LogPreviewMaxBytes div 2;
               tailBudget = LogPreviewMaxBytes - headBudget - length logPreviewMarker in
        safePrefixBytes data headBudget @ logPreviewMarker @ safeSuffixBytes data tailBudget)"

subsection \<open>Statements on the chunk table\<close>

definition chunk_delete :: "int \<Rightarrow> log_chunk list \<Rightarrow> log_chunk list" where
  "chunk_delete s t = filter (\<lambda>c. cSequence c \<noteq> s) t"

definition chunk_delete_range :: "int \<Rightarrow> int \<Rightarrow> log_chunk list \<Rightarrow> log_chunk list" where
  "chunk_delete_range lo hi t = filter (\<lambda>c. \<not> (lo \<le> cSequence c \<and> cSequence c < hi)) t"

definition chunk_update :: "int \<Rightarrow> string \<Rightarrow> log_chunk list \<Rightarrow> log_chunk list" where
  "chunk_update s d t = map (\<lambda>c. if cSequence c = s then c\<lparr>cData := d\<rparr> else c) t"

text \<open>\<open>INSERT\<close> fails on the primary key; \<open>INSERT OR REPLACE\<close> does not.\<close>

definition chunk_place :: "log_chunk \<Rightarrow> log_chunk list \<Rightarrow> log_chunk list" where
  "chunk_place c t = takeWhile (\<lambda>x. cSequence x < cSequence c) t
     @ c # dropWhile (\<lambda>x. cSequence x < cSequence c) t"

definition chunk_insert :: "log_chunk \<Rightarrow> log_chunk list \<Rightarrow> (string, log_chunk list) result" where
  "chunk_insert c t =
     (if cSequence c \<in> cSequence ` set t then Inl ''UNIQUE constraint failed''
      else Inr (chunk_place c t))"

definition chunk_replace :: "log_chunk \<Rightarrow> log_chunk list \<Rightarrow> log_chunk list" where
  "chunk_replace c t = chunk_place c (chunk_delete (cSequence c) t)"

definition chunk_bytes :: "log_chunk list \<Rightarrow> nat" where
  "chunk_bytes cs = sum_list (map (\<lambda>c. length (cData c)) cs)"

definition chunk_text :: "log_chunk list \<Rightarrow> string" where
  "chunk_text cs = concat (map cData cs)"

definition is_marker :: "log_chunk \<Rightarrow> bool" where
  "is_marker c \<longleftrightarrow> cStream c = LogStreamSystem \<and> cData c = LogTruncationMarker"

text \<open>The last chunk that is a marker, as the scan leaves \<open>markerIndex\<close>.\<close>

fun marker_index :: "log_chunk list \<Rightarrow> nat option" where
  "marker_index [] = None"
| "marker_index (c # cs) =
     (case marker_index cs of Some i \<Rightarrow> Some (Suc i)
      | None \<Rightarrow> if is_marker c then Some 0 else None)"

subsection \<open>enforceLogLimitTx\<close>

text \<open>The loop that drops the oldest bytes behind the marker.\<close>

fun trim_tail :: "int \<Rightarrow> log_chunk list \<Rightarrow> log_chunk list \<Rightarrow> log_chunk list" where
  "trim_tail excess [] t = t"
| "trim_tail excess (c # cs) t =
     (if excess \<le> 0 then t
      else if int (length (cData c)) \<le> excess
      then trim_tail (excess - int (length (cData c))) cs (chunk_delete (cSequence c) t)
      else chunk_update (cSequence c) (trimLogPrefix (cData c) (nat excess)) t)"

text \<open>
  How many chunks fit a budget, and the bytes they use: the head loop from the front and
  the tail loop from the back.
\<close>

fun fit_scan :: "int \<Rightarrow> log_chunk list \<Rightarrow> int \<Rightarrow> nat \<times> int" where
  "fit_scan budget [] used = (0, used)"
| "fit_scan budget (c # cs) used =
     (if used + int (length (cData c)) \<le> budget
      then (let (n, b) = fit_scan budget cs (used + int (length (cData c))) in (Suc n, b))
      else (0, used))"

definition truncate_head :: "log_chunk list \<Rightarrow> nat \<times> log_chunk list" where
  "truncate_head chunks =
     (let (headEnd, headBytes) = fit_scan (int LogHeadBytes) chunks 0 in
      if headBytes < int LogHeadBytes \<and> headEnd < length chunks
      then let chunk = chunks ! headEnd;
               keep = safePrefixBytes (cData chunk) (nat (int LogHeadBytes - headBytes))
           in (Suc headEnd, chunk_update (cSequence chunk) keep chunks)
      else (headEnd, chunks))"

definition truncate_tail ::
  "int \<Rightarrow> log_chunk list \<Rightarrow> nat \<Rightarrow> log_chunk list \<Rightarrow> nat \<times> log_chunk list" where
  "truncate_tail tailBudget chunks headEnd t =
     (let (fitting, tailBytes) = fit_scan tailBudget (rev (drop headEnd chunks)) 0;
          tailStart = length chunks - fitting in
      if headEnd < tailStart \<and> tailBytes < tailBudget
      then let chunk = chunks ! (tailStart - 1);
               keep = safeSuffixBytes (cData chunk) (nat (tailBudget - tailBytes))
           in (tailStart - 1, chunk_update (cSequence chunk) keep t)
      else (tailStart, t))"

definition place_marker ::
  "string \<Rightarrow> log_chunk list \<Rightarrow> nat \<Rightarrow> nat \<Rightarrow> log_chunk list \<Rightarrow> (string, log_chunk list) result" where
  "place_marker now chunks headEnd tailStart t =
     (case (if headEnd < tailStart then Some (cSequence (chunks ! headEnd), tailStart)
            else if tailStart < length chunks
            then Some (cSequence (chunks ! tailStart), Suc tailStart)
            else None) of
        None \<Rightarrow> Inl ''job log truncation could not reserve a marker sequence''
      | Some (markerSequence, tailStart) \<Rightarrow>
          let upper = (if tailStart < length chunks then cSequence (chunks ! tailStart)
                       else cSequence (last chunks) + 1);
              t = chunk_delete_range (cSequence (chunks ! headEnd)) upper t
          in Inr (chunk_replace \<lparr>cSequence = markerSequence, cStream = LogStreamSystem,
                    cData = LogTruncationMarker, cCreatedAt = now\<rparr> t))"

definition truncate_middle ::
  "int \<Rightarrow> string \<Rightarrow> log_chunk list \<Rightarrow> (string, log_chunk list) result" where
  "truncate_middle tailBudget now chunks =
     (let (headEnd, t) = truncate_head chunks;
          (tailStart, t) = truncate_tail tailBudget chunks headEnd t
      in place_marker now chunks headEnd tailStart t)"

definition enforceLogLimitTx ::
  "log_config \<Rightarrow> string \<Rightarrow> job_log \<Rightarrow> (string, job_log) result" where
  "enforceLogLimitTx cfg now st =
     (let config = normalizeLogConfig cfg; chunks = log_chunks st in
      if marker_index chunks = None \<and> int (chunk_bytes chunks) \<le> MaxBytes config then Inr st
      else let tailBudget = MaxBytes config - int LogHeadBytes - int (length LogTruncationMarker) in
      if tailBudget < 1 then Inl ''job log max bytes is too small''
      else case marker_index chunks of
        Some i \<Rightarrow>
          let tail = drop (Suc i) chunks; excess = int (chunk_bytes tail) - tailBudget in
          Inr (st\<lparr>log_chunks := trim_tail excess tail chunks, logs_truncated := True\<rparr>)
      | None \<Rightarrow>
          bind_result (truncate_middle tailBudget now chunks)
            (\<lambda>t. Inr (st\<lparr>log_chunks := t, logs_truncated := True\<rparr>)))"

subsection \<open>Appending and replacing\<close>

definition normalizeLogStream :: "string \<Rightarrow> string" where
  "normalizeLogStream stream =
     (let s = to_lower (trim_space stream) in
      if s = LogStreamStdout then LogStreamStdout
      else if s = LogStreamStderr then LogStreamStderr
      else if s = LogStreamSystem then LogStreamSystem
      else LogStreamCombined)"

definition updateLogPreviewTx :: "job_log \<Rightarrow> job_log" where
  "updateLogPreviewTx st = st\<lparr>logs_text := BoundedLogPreview (chunk_text (log_chunks st))\<rparr>"

text \<open>The inner loop: one row per part, with consecutive sequence numbers.\<close>

fun insert_parts ::
  "string \<Rightarrow> string \<Rightarrow> string list \<Rightarrow> int \<Rightarrow> log_chunk list \<Rightarrow> log_chunk list
    \<Rightarrow> (string, int \<times> log_chunk list \<times> log_chunk list) result" where
  "insert_parts stream createdAt [] next t acc = Inr (next, t, acc)"
| "insert_parts stream createdAt (part # parts) next t acc =
     (let c = \<lparr>cSequence = next, cStream = stream, cData = part, cCreatedAt = createdAt\<rparr> in
      bind_result (chunk_insert c t)
        (\<lambda>t'. insert_parts stream createdAt parts (next + 1) t' (acc @ [c])))"

fun insert_fragments ::
  "string \<Rightarrow> log_fragment list \<Rightarrow> int \<Rightarrow> int \<Rightarrow> log_chunk list \<Rightarrow> log_chunk list
    \<Rightarrow> (string, int \<times> int \<times> log_chunk list \<times> log_chunk list) result" where
  "insert_fragments createdAt [] next source t acc = Inr (next, source, t, acc)"
| "insert_fragments createdAt (f # fs) next source t acc =
     (if fData f = [] then insert_fragments createdAt fs next source t acc
      else bind_result
        (insert_parts (normalizeLogStream (fStream f)) createdAt
           (splitLogData (fData f) LogChunkMaxBytes) next t acc)
        (\<lambda>(next', t', acc'). insert_fragments createdAt fs next'
            (source + int (length (fData f))) t' acc'))"

definition appendFragmentsTx ::
  "log_config \<Rightarrow> string \<Rightarrow> log_fragment list \<Rightarrow> string \<Rightarrow> job_log
    \<Rightarrow> (string, log_write_result \<times> job_log) result" where
  "appendFragmentsTx cfg now fragments createdAt st =
     (if logs_expired st then Inr (\<lparr>wChunks = [], wReset = False\<rparr>, st)
      else bind_result
        (insert_fragments createdAt fragments (log_next_sequence st) (log_source_bytes st)
           (log_chunks st) [])
        (\<lambda>(next, source, t, chunks).
          let st1 = st\<lparr>log_chunks := t, log_next_sequence := next, log_source_bytes := source\<rparr> in
          bind_result (enforceLogLimitTx cfg now st1)
            (\<lambda>st2. let st3 = updateLogPreviewTx st2 in
              if logs_truncated st3 then Inr (\<lparr>wChunks = [], wReset = True\<rparr>, st3)
              else Inr (\<lparr>wChunks = chunks, wReset = False\<rparr>, st3))))"

text \<open>The scan of \<open>replaceLogSnapshotTx\<close>: the text before and after the first marker.\<close>

fun split_at_marker :: "log_chunk list \<Rightarrow> bool \<Rightarrow> string \<times> string" where
  "split_at_marker [] after = ([], [])"
| "split_at_marker (c # cs) after =
     (if is_marker c then split_at_marker cs True
      else let (h, t) = split_at_marker cs after in
        if after then (h, cData c @ t) else (cData c @ h, t))"

definition replaceLogSnapshotTx ::
  "log_config \<Rightarrow> string \<Rightarrow> string \<Rightarrow> string \<Rightarrow> string \<Rightarrow> job_log
    \<Rightarrow> (string, log_write_result \<times> job_log) result" where
  "replaceLogSnapshotTx cfg now data stream createdAt st =
     (let retained = chunk_text (log_chunks st);
          (head, tail) = split_at_marker (log_chunks st) False;
          nothing = \<lparr>wChunks = [], wReset = False\<rparr> in
      if \<not> logs_truncated st \<and> 0 < length retained \<and> prefix retained data then
        let delta = drop (length retained) data in
        if delta = [] then Inr (nothing, st)
        else appendFragmentsTx cfg now [\<lparr>fStream = stream, fData = delta\<rparr>] createdAt st
      else if logs_truncated st \<and> log_source_bytes st \<le> int (length data)
        \<and> prefix head data
        \<and> (tail = [] \<or> suffix tail (take (nat (log_source_bytes st)) data)) then
        let delta = drop (nat (log_source_bytes st)) data in
        if delta = [] then Inr (nothing, st)
        else appendFragmentsTx cfg now [\<lparr>fStream = stream, fData = delta\<rparr>] createdAt st
      else bind_result
        (appendFragmentsTx cfg now [\<lparr>fStream = stream, fData = data\<rparr>] createdAt
           (st\<lparr>log_chunks := [], logs_expired := False, logs_truncated := False,
               log_source_bytes := 0\<rparr>))
        (\<lambda>(w, st'). Inr (w\<lparr>wReset := True, wChunks := []\<rparr>, st')))"

subsection \<open>Reading\<close>

definition ReadLogPage :: "log_config \<Rightarrow> job_log \<Rightarrow> int \<Rightarrow> int \<Rightarrow> log_page" where
  "ReadLogPage cfg st afterSequence limit =
     (let limit = (if limit < 1 then 100 else limit);
          limit = (if 500 < limit then 500 else limit);
          rows = take (nat (limit + 1)) (filter (\<lambda>c. afterSequence < cSequence c) (log_chunks st));
          fragments = take (nat limit) rows in
      \<lparr>pFragments = fragments,
       pNextSequence = (if fragments = [] then afterSequence else cSequence (last fragments)),
       pHasMore = nat limit < length rows,
       pExpired = logs_expired st, pTruncated = logs_truncated st,
       pRetentionDays = RetentionDays (normalizeLogConfig cfg)\<rparr>)"

lemma ReadLogPage_more_nonempty: "pHasMore (ReadLogPage cfg st a 500) \<Longrightarrow> pFragments (ReadLogPage cfg st a 500) \<noteq> []"
  by (auto simp: ReadLogPage_def Let_def)

lemma ReadLogPage_last_after:
  "pFragments (ReadLogPage cfg st a 500) \<noteq> [] \<Longrightarrow>
     last (pFragments (ReadLogPage cfg st a 500)) \<in> {c \<in> set (log_chunks st). a < cSequence c}"
proof -
  let ?p = "pFragments (ReadLogPage cfg st a 500)"
  assume "?p \<noteq> []"
  then have "last ?p \<in> set ?p" by simp
  moreover have "set ?p \<subseteq> {c \<in> set (log_chunks st). a < cSequence c}"
    by (auto simp: ReadLogPage_def Let_def dest!: in_set_takeD)
  ultimately show ?thesis by blast
qed

lemma length_filter_after_less:
  "x \<in> set cs \<Longrightarrow> a < cSequence x \<Longrightarrow>
     length (filter (\<lambda>c. cSequence x < cSequence c) cs) < length (filter (\<lambda>c. a < cSequence c) cs)"
proof (induction cs)
  case (Cons y ys)
  have le: "length (filter (\<lambda>c. cSequence x < cSequence c) ys) \<le> length (filter (\<lambda>c. a < cSequence c) ys)"
    using Cons.prems(2) by (induction ys) auto
  show ?case
  proof (cases "x = y")
    case True
    with le Cons.prems(2) show ?thesis by simp
  next
    case False
    with Cons show ?thesis by auto
  qed
qed simp

text \<open>The loop of \<open>ReadFullLog\<close>.\<close>

function read_pages :: "log_config \<Rightarrow> job_log \<Rightarrow> int \<Rightarrow> string" where
  "read_pages cfg st after =
     (let page = ReadLogPage cfg st after 500 in
      chunk_text (pFragments page) @
      (if pHasMore page then read_pages cfg st (cSequence (last (pFragments page))) else []))"
  by pat_completeness auto
termination
proof (relation "measure (\<lambda>(cfg, st, after). length (filter (\<lambda>c. after < cSequence c) (log_chunks st)))")
  fix cfg st after page
  assume page: "page = ReadLogPage cfg st after 500" and more: "pHasMore page"
  then have "last (pFragments page) \<in> {c \<in> set (log_chunks st). after < cSequence c}"
    using ReadLogPage_last_after ReadLogPage_more_nonempty by blast
  then show "((cfg, st, cSequence (last (pFragments page))), cfg, st, after)
    \<in> measure (\<lambda>(cfg, st, after). length (filter (\<lambda>c. after < cSequence c) (log_chunks st)))"
    by (simp add: length_filter_after_less)
qed simp

declare read_pages.simps [simp del]

definition ReadFullLog :: "log_config \<Rightarrow> job_log \<Rightarrow> string \<times> bool \<times> bool" where
  "ReadFullLog cfg st =
     (let full = read_pages cfg st 0;
          full = (if full = [] \<and> \<not> logs_expired st then logs_text st else full) in
      (full, logs_expired st, logs_truncated st))"

subsection \<open>Cutting: lemmas\<close>

lemma rune_cut_le: "rune_cut s n \<le> n"
  by (induction n) auto

lemma rune_cut_start: "rune_cut s n \<noteq> 0 \<Longrightarrow> rune_cut s n < length s \<Longrightarrow> rune_start (s ! rune_cut s n)"
  by (induction n) (auto split: if_splits)

lemma concat_splitLogData: "concat (splitLogData s m) = s"
proof (induction s m rule: splitLogData.induct)
  case (1 s m)
  then show ?case by (subst splitLogData.simps) (auto simp: Let_def)
qed

lemma splitLogData_parts:
  "0 < m \<Longrightarrow> p \<in> set (splitLogData s m) \<Longrightarrow> p \<noteq> [] \<and> length p \<le> m"
proof (induction s m rule: splitLogData.induct)
  case (1 s m)
  let ?cut = "if rune_cut s m = 0 then m else rune_cut s m"
  show ?case
  proof (cases "m < length s")
    case True
    then have ne: "s \<noteq> []" by auto
    from "1.prems" True ne have "p = take ?cut s \<or> p \<in> set (splitLogData (drop ?cut s) m)"
      by (subst (asm) splitLogData.simps) (simp add: Let_def split: if_splits)
    then show ?thesis
    proof
      assume "p = take ?cut s"
      with True "1.prems"(1) rune_cut_le [of s m] show ?thesis by auto
    next
      assume "p \<in> set (splitLogData (drop ?cut s) m)"
      with "1.IH" [OF ne _ refl refl] True "1.prems"(1) show ?thesis by simp
    qed
  next
    case False
    with "1.prems" show ?thesis
      by (subst (asm) splitLogData.simps) (auto split: if_splits)
  qed
qed

text \<open>No four consecutive continuation bytes, as in every valid UTF-8 text.\<close>

definition short_runs :: "string \<Rightarrow> bool" where
  "short_runs s \<longleftrightarrow> (\<forall>i. i + 3 < length s \<longrightarrow> (\<exists>j\<le>3. rune_start (s ! (i + j))))"

lemma short_runs_drop: "short_runs s \<Longrightarrow> short_runs (drop k s)"
  unfolding short_runs_def
proof (intro allI impI)
  fix i assume s: "\<forall>i. i + 3 < length s \<longrightarrow> (\<exists>j\<le>3. rune_start (s ! (i + j)))"
    and "i + 3 < length (drop k s)"
  then have "(k + i) + 3 < length s" by simp
  with s obtain j where "j \<le> 3" "rune_start (s ! (k + i + j))" by blast
  with \<open>i + 3 < length (drop k s)\<close> show "\<exists>j\<le>3. rune_start (drop k s ! (i + j))"
    by (auto simp: add.assoc)
qed

lemma rune_cut_ge:
  assumes "j \<le> n" "j \<noteq> 0" "rune_start (s ! j)"
  shows "j \<le> rune_cut s n"
  using assms by (induction n) (auto simp: le_Suc_eq)

lemma rune_cut_positive:
  assumes "short_runs s" "4 \<le> m" "m < length s"
  shows "0 < rune_cut s m"
proof -
  have "(m - 3) + 3 < length s" using assms by simp
  with assms(1) obtain j where "j \<le> 3" "rune_start (s ! (m - 3 + j))"
    unfolding short_runs_def by blast
  moreover from this assms(2) have "m - 3 + j \<le> rune_cut s m"
    by (intro rune_cut_ge) auto
  ultimately show ?thesis using assms(2) by linarith
qed

lemma splitLogData_rune_starts:
  "4 \<le> m \<Longrightarrow> short_runs s \<Longrightarrow> s \<noteq> [] \<Longrightarrow> rune_start (hd s) \<Longrightarrow>
     p \<in> set (splitLogData s m) \<Longrightarrow> rune_start (hd p)"
proof (induction s m rule: splitLogData.induct)
  case (1 s m)
  show ?case
  proof (cases "m < length s")
    case True
    let ?cut = "rune_cut s m"
    have pos: "0 < ?cut" using rune_cut_positive "1.prems" True by blast
    have lt: "?cut < length s" using rune_cut_le [of s m] True by simp
    from "1.prems" True pos have "p = take ?cut s \<or> p \<in> set (splitLogData (drop ?cut s) m)"
      by (subst (asm) splitLogData.simps) (simp add: Let_def split: if_splits)
    then show ?thesis
    proof
      assume "p = take ?cut s"
      with pos "1.prems" show ?thesis by (cases s; cases ?cut) auto
    next
      assume p: "p \<in> set (splitLogData (drop ?cut s) m)"
      have "rune_start (hd (drop ?cut s))"
        using rune_cut_start [of s m] pos lt by (simp add: hd_drop_conv_nth)
      with "1.IH" [OF "1.prems"(3) _ refl refl] True pos p lt "1.prems"(1,2) show ?thesis
        by (simp add: short_runs_drop)
    qed
  next
    case False
    with "1.prems" show ?thesis
      by (subst (asm) splitLogData.simps) (auto split: if_splits)
  qed
qed

lemma safePrefixBytes_prefix: "prefix (safePrefixBytes d n) d"
  by (simp add: safePrefixBytes_def take_is_prefix)

lemma length_safePrefixBytes: "length (safePrefixBytes d n) \<le> n"
  using rune_cut_le [of d n] by (simp add: safePrefixBytes_def min_def)

lemma suffix_dropWhile_drop: "suffix (dropWhile P (drop k d)) d"
  by (meson suffix_dropWhile suffix_drop suffix_order.trans)

lemma safeSuffixBytes_suffix: "suffix (safeSuffixBytes d n) d"
  by (simp add: safeSuffixBytes_def suffix_dropWhile_drop)

lemma length_safeSuffixBytes: "length (safeSuffixBytes d n) \<le> n"
  using length_dropWhile_le [of "\<lambda>c. \<not> rune_start c" "drop (length d - n) d"]
  by (auto simp: safeSuffixBytes_def)

lemma trimLogPrefix_suffix: "suffix (trimLogPrefix d n) d"
  by (simp add: trimLogPrefix_def suffix_dropWhile_drop)

lemma length_trimLogPrefix: "length (trimLogPrefix d n) \<le> length d - n"
  using length_dropWhile_le [of "\<lambda>c. \<not> rune_start c" "drop n d"]
  by (auto simp: trimLogPrefix_def)

lemma short_runs_take: "short_runs s \<Longrightarrow> short_runs (take k s)"
  unfolding short_runs_def
proof (intro allI impI)
  fix i assume s: "\<forall>i. i + 3 < length s \<longrightarrow> (\<exists>j\<le>3. rune_start (s ! (i + j)))" and i: "i + 3 < length (take k s)"
  then obtain j where "j \<le> 3" "rune_start (s ! (i + j))" by auto
  with i show "\<exists>j\<le>3. rune_start (take k s ! (i + j))" by (intro exI [of _ j]) simp
qed

lemma short_runs_middle: "short_runs (a @ b @ c) \<Longrightarrow> short_runs b"
  using short_runs_take [OF short_runs_drop [of "a @ b @ c" "length a"], of "length b"] by simp

lemma length_safePrefixBytes_ge:
  assumes "short_runs d" "n < length d"
  shows "n \<le> length (safePrefixBytes d n) + 3"
proof (cases "n \<le> 3")
  case False
  then have "(n - 3) + 3 < length d" using assms(2) by simp
  with assms(1) obtain j where "j \<le> 3" "rune_start (d ! (n - 3 + j))" unfolding short_runs_def by blast
  then have "n - 3 + j \<le> rune_cut d n" using False by (intro rune_cut_ge) auto
  then show ?thesis using rune_cut_le [of d n] assms(2) False by (simp add: safePrefixBytes_def)
qed simp

lemma length_dropWhile_runes: "short_runs d \<Longrightarrow> length d \<le> length (dropWhile (\<lambda>c. \<not> rune_start c) d) + 3"
proof (rule ccontr)
  let ?w = "takeWhile (\<lambda>c. \<not> rune_start c) d"
  assume d: "short_runs d" and "\<not> length d \<le> length (dropWhile (\<lambda>c. \<not> rune_start c) d) + 3"
  moreover have "length ?w + length (dropWhile (\<lambda>c. \<not> rune_start c) d) = length d" by (metis length_append takeWhile_dropWhile_id)
  ultimately have w: "3 < length ?w" by linarith
  then have "3 < length d" using length_takeWhile_le [of "\<lambda>c. \<not> rune_start c" d] by simp
  then have "0 + 3 < length d" by simp
  with d obtain j where j: "j \<le> 3" "rune_start (d ! (0 + j))" unfolding short_runs_def by blast
  have "j < length ?w" using j(1) w by simp
  from nth_mem [OF this] takeWhile_nth [OF this] show False using j(2) by (metis add_0 set_takeWhileD)
qed

lemma length_safeSuffixBytes_ge: "short_runs d \<Longrightarrow> n < length d \<Longrightarrow> n \<le> length (safeSuffixBytes d n) + 3"
  using length_dropWhile_runes [OF short_runs_drop, of d "length d - n"] by (simp add: safeSuffixBytes_def)

lemma length_trimLogPrefix_ge: "short_runs d \<Longrightarrow> length d \<le> length (trimLogPrefix d n) + n + 3"
  using length_dropWhile_runes [OF short_runs_drop, of d n] by (auto simp: trimLogPrefix_def)

lemma length_BoundedLogPreview: "length (BoundedLogPreview d) \<le> LogPreviewMaxBytes"
proof -
  let ?h = "LogPreviewMaxBytes div 2" and ?t = "LogPreviewMaxBytes - LogPreviewMaxBytes div 2 - length logPreviewMarker"
  have "?h + length logPreviewMarker + ?t \<le> LogPreviewMaxBytes"
    by (simp add: LogPreviewMaxBytes_def logPreviewMarker_def)
  then show ?thesis
    using length_safePrefixBytes [of d ?h] length_safeSuffixBytes [of d ?t]
    by (auto simp: BoundedLogPreview_def Let_def)
qed

subsection \<open>The chunk table: lemmas\<close>

definition ordered :: "log_chunk list \<Rightarrow> bool" where
  "ordered cs \<longleftrightarrow> sorted_wrt (<) (map cSequence cs)"

lemma ordered_Nil [simp]: "ordered []"
  by (simp add: ordered_def)

lemma ordered_append:
  "ordered (xs @ ys) \<longleftrightarrow> ordered xs \<and> ordered ys \<and> (\<forall>x\<in>set xs. \<forall>y\<in>set ys. cSequence x < cSequence y)"
  by (auto simp: ordered_def sorted_wrt_append)

lemma ordered_Cons:
  "ordered (x # ys) \<longleftrightarrow> (\<forall>y\<in>set ys. cSequence x < cSequence y) \<and> ordered ys"
  by (auto simp: ordered_def)

lemma ordered_same_sequences: "map cSequence xs = map cSequence ys \<Longrightarrow> ordered xs \<longleftrightarrow> ordered ys"
  by (simp add: ordered_def)

lemmas ordered_simps = ordered_append ordered_Cons

lemma chunk_bytes_simps [simp]:
  "chunk_bytes [] = 0"
  "chunk_bytes (c # cs) = length (cData c) + chunk_bytes cs"
  "chunk_bytes (xs @ ys) = chunk_bytes xs + chunk_bytes ys"
  by (simp_all add: chunk_bytes_def)

lemma chunk_bytes_rev [simp]: "chunk_bytes (rev xs) = chunk_bytes xs"
  by (induction xs) simp_all

lemma chunk_text_simps [simp]:
  "chunk_text [] = []"
  "chunk_text (c # cs) = cData c @ chunk_text cs"
  "chunk_text (xs @ ys) = chunk_text xs @ chunk_text ys"
  by (simp_all add: chunk_text_def)

lemma length_chunk_text: "length (chunk_text cs) = chunk_bytes cs"
  by (induction cs) simp_all

lemma chunk_update_absent: "s \<notin> cSequence ` set t \<Longrightarrow> chunk_update s d t = t"
  by (induction t) (auto simp: chunk_update_def)

lemma chunk_update_ordered:
  assumes "ordered (xs @ c # ys)"
  shows "chunk_update (cSequence c) d (xs @ c # ys) = xs @ c\<lparr>cData := d\<rparr> # ys"
proof -
  have "chunk_update (cSequence c) d xs = xs" "chunk_update (cSequence c) d ys = ys"
    using assms by (intro chunk_update_absent; force simp: ordered_simps)+
  then show ?thesis by (simp add: chunk_update_def)
qed

lemma chunk_delete_absent: "s \<notin> cSequence ` set t \<Longrightarrow> chunk_delete s t = t"
  by (induction t) (auto simp: chunk_delete_def)

lemma chunk_delete_ordered:
  assumes "ordered (xs @ c # ys)"
  shows "chunk_delete (cSequence c) (xs @ c # ys) = xs @ ys"
proof -
  have "chunk_delete (cSequence c) xs = xs" "chunk_delete (cSequence c) ys = ys"
    using assms by (intro chunk_delete_absent; force simp: ordered_simps)+
  then show ?thesis by (simp add: chunk_delete_def)
qed

lemma ordered_last: "ordered ms \<Longrightarrow> m \<in> set ms \<Longrightarrow> cSequence m \<le> cSequence (last ms)"
  by (induction ms rule: rev_induct) (auto simp: ordered_simps intro: less_imp_le)

lemma chunk_delete_range_ordered:
  assumes "ordered (xs @ ms @ ys)" "ms \<noteq> []" "lo = cSequence (hd ms)"
    and "hi = (if ys = [] then cSequence (last ms) + 1 else cSequence (hd ys))"
  shows "chunk_delete_range lo hi (xs @ ms @ ys) = xs @ ys"
proof -
  have xs: "\<forall>x\<in>set xs. cSequence x < lo" using assms by (auto simp: ordered_append)
  have lo: "\<forall>m\<in>set ms. lo \<le> cSequence m"
    using assms(1-3) by (cases ms) (auto simp: ordered_simps intro: less_imp_le)
  have hi: "\<forall>m\<in>set ms. cSequence m < hi"
  proof (cases "ys = []")
    case True
    have "\<forall>m\<in>set ms. cSequence m \<le> cSequence (last ms)"
      using assms(1) ordered_last [of ms] by (auto simp: ordered_append)
    with True assms(4) show ?thesis by auto
  next
    case False
    with assms show ?thesis by (auto simp: ordered_append)
  qed
  have ys: "\<forall>y\<in>set ys. hi \<le> cSequence y"
    using assms(1,4) by (cases ys) (auto simp: ordered_simps)
  have "filter (\<lambda>c. \<not> (lo \<le> cSequence c \<and> cSequence c < hi)) xs = xs"
    "filter (\<lambda>c. \<not> (lo \<le> cSequence c \<and> cSequence c < hi)) ms = []"
    "filter (\<lambda>c. \<not> (lo \<le> cSequence c \<and> cSequence c < hi)) ys = ys"
    using xs lo hi ys by (force simp: filter_id_conv filter_empty_conv)+
  then show ?thesis by (simp add: chunk_delete_range_def)
qed

lemma chunk_place_ordered:
  assumes "\<forall>x\<in>set xs. cSequence x < cSequence c" "\<forall>y\<in>set ys. cSequence c < cSequence y"
  shows "chunk_place c (xs @ ys) = xs @ c # ys"
proof -
  have "takeWhile (\<lambda>x. cSequence x < cSequence c) ys = []" "dropWhile (\<lambda>x. cSequence x < cSequence c) ys = ys"
    using assms(2) by (cases ys; force)+
  with assms(1) show ?thesis by (simp add: chunk_place_def takeWhile_append dropWhile_append)
qed

lemma chunk_replace_ordered:
  assumes "\<forall>x\<in>set xs. cSequence x < cSequence c" "\<forall>y\<in>set ys. cSequence c < cSequence y"
  shows "chunk_replace c (xs @ ys) = xs @ c # ys"
proof -
  have "chunk_delete (cSequence c) (xs @ ys) = xs @ ys"
    using assms by (intro chunk_delete_absent) force
  then show ?thesis using chunk_place_ordered [OF assms] by (simp add: chunk_replace_def)
qed

lemma chunk_insert_last:
  assumes "\<forall>x\<in>set t. cSequence x < cSequence c"
  shows "chunk_insert c t = Inr (t @ [c])"
  using assms chunk_place_ordered [of t c "[]"] by (auto simp: chunk_insert_def)

lemma marker_index_None: "marker_index cs = None \<longleftrightarrow> (\<forall>c\<in>set cs. \<not> is_marker c)"
  by (induction cs) (auto split: option.splits)

lemma marker_index_unique:
  assumes "\<forall>c\<in>set ts. \<not> is_marker c" "is_marker m"
  shows "marker_index (hs @ m # ts) = Some (length hs)"
proof -
  have "marker_index ts = None" using assms(1) by (simp add: marker_index_None)
  then have "marker_index (m # ts) = Some 0" using assms(2) by simp
  then show ?thesis by (induction hs) simp_all
qed

subsection \<open>Trimming behind the marker\<close>

text \<open>Chunks written by the program are plain: only the marker is on the system stream.\<close>

definition plain :: "log_chunk \<Rightarrow> bool" where
  "plain c \<longleftrightarrow> cStream c \<noteq> LogStreamSystem \<and> length (cData c) \<le> LogChunkMaxBytes"

lemma plain_not_marker: "plain c \<Longrightarrow> \<not> is_marker c"
  by (simp add: plain_def is_marker_def)

lemma plain_shrink: "plain c \<Longrightarrow> length d \<le> length (cData c) \<Longrightarrow> plain (c\<lparr>cData := d\<rparr>)"
  by (simp add: plain_def)

lemma short_runs_chunk: "short_runs (chunk_text cs) \<Longrightarrow> c \<in> set cs \<Longrightarrow> short_runs (cData c)"
  by (metis chunk_text_simps(2,3) short_runs_middle split_list)

lemma trim_tail_spec:
  assumes "ordered (ps @ ts)" "list_all plain ts" "e \<le> int (chunk_bytes ts)"
  shows "\<exists>ts'. trim_tail e ts (ps @ ts) = ps @ ts' \<and> ordered (ps @ ts') \<and> list_all plain ts'
    \<and> suffix (chunk_text ts') (chunk_text ts)
    \<and> int (chunk_bytes ts') \<le> max (int (chunk_bytes ts) - e) 0
    \<and> (short_runs (chunk_text ts) \<longrightarrow> min (int (chunk_bytes ts)) (int (chunk_bytes ts) - e) \<le> int (chunk_bytes ts') + 3)
    \<and> cSequence ` set ts' \<subseteq> cSequence ` set ts"
  using assms
proof (induction ts arbitrary: e)
  case Nil
  then show ?case by auto
next
  case (Cons c cs)
  consider (stop) "e \<le> 0" | (drop) "0 < e" "int (length (cData c)) \<le> e"
    | (cut) "0 < e" "e < int (length (cData c))" by linarith
  then show ?case
  proof cases
    case stop
    with Cons.prems show ?thesis by (intro exI [of _ "c # cs"]) auto
  next
    case drop
    have del: "chunk_delete (cSequence c) (ps @ c # cs) = ps @ cs"
      by (rule chunk_delete_ordered) (fact Cons.prems(1))
    have "ordered (ps @ cs)" using Cons.prems(1) by (auto simp: ordered_simps)
    then obtain ts' where "trim_tail (e - int (length (cData c))) cs (ps @ cs) = ps @ ts'"
      "ordered (ps @ ts')" "list_all plain ts'" "suffix (chunk_text ts') (chunk_text cs)"
      "int (chunk_bytes ts') \<le> max (int (chunk_bytes cs) - (e - int (length (cData c)))) 0"
      "short_runs (chunk_text cs) \<longrightarrow> min (int (chunk_bytes cs)) (int (chunk_bytes cs) - (e - int (length (cData c)))) \<le> int (chunk_bytes ts') + 3"
      "cSequence ` set ts' \<subseteq> cSequence ` set cs"
      using Cons.IH [of "e - int (length (cData c))"] Cons.prems by auto
    moreover have "short_runs (chunk_text (c # cs)) \<Longrightarrow> short_runs (chunk_text cs)"
      using short_runs_drop [of "chunk_text (c # cs)" "length (cData c)"] by simp
    ultimately show ?thesis using drop del
      by (intro exI [of _ ts']) (auto intro: suffix_appendI)
  next
    case cut
    let ?c = "c\<lparr>cData := trimLogPrefix (cData c) (nat e)\<rparr>"
    have upd: "chunk_update (cSequence c) (trimLogPrefix (cData c) (nat e)) (ps @ c # cs) = ps @ ?c # cs"
      by (rule chunk_update_ordered) (fact Cons.prems(1))
    have len: "length (trimLogPrefix (cData c) (nat e)) \<le> length (cData c) - nat e"
      by (rule length_trimLogPrefix)
    have "suffix (trimLogPrefix (cData c) (nat e) @ chunk_text cs) (cData c @ chunk_text cs)"
      using trimLogPrefix_suffix [of "cData c" "nat e"] by (auto simp: suffix_def)
    moreover have "ordered (ps @ ?c # cs)"
      using Cons.prems(1) ordered_same_sequences [of "ps @ ?c # cs" "ps @ c # cs"] by simp
    moreover have "plain ?c" using Cons.prems(2) len by (intro plain_shrink) auto
    moreover have "int (chunk_bytes (?c # cs)) \<le> int (chunk_bytes (c # cs)) - e"
      using len cut by auto
    moreover have "short_runs (chunk_text (c # cs)) \<Longrightarrow> int (chunk_bytes (c # cs)) - e \<le> int (chunk_bytes (?c # cs)) + 3"
      using length_trimLogPrefix_ge [of "cData c" "nat e"] short_runs_chunk [of "c # cs" c] cut by auto
    ultimately show ?thesis
      using cut upd Cons.prems by (intro exI [of _ "?c # cs"]) auto
  qed
qed

subsection \<open>Dropping the middle\<close>

lemma fit_scan_spec:
  "fit_scan b cs u = (n, v) \<Longrightarrow> n \<le> length cs \<and> v = u + int (chunk_bytes (take n cs))
     \<and> (u \<le> b \<longrightarrow> v \<le> b) \<and> (n < length cs \<longrightarrow> b < v + int (length (cData (cs ! n))))"
proof (induction cs arbitrary: u n)
  case (Cons c cs)
  show ?case
  proof (cases "u + int (length (cData c)) \<le> b")
    case True
    obtain k w where k: "fit_scan b cs (u + int (length (cData c))) = (k, w)" by force
    with True Cons.prems have "n = Suc k" "v = w" by auto
    with Cons.IH [OF k [unfolded \<open>v = w\<close> [symmetric]]] True show ?thesis by auto
  next
    case False
    with Cons.prems show ?thesis by auto
  qed
qed simp

lemma take_Suc_nth: "n < length xs \<Longrightarrow> take (Suc n) xs = take n xs @ [xs ! n]"
  by (rule take_Suc_conv_app_nth)

lemma truncate_head_spec:
  assumes "ordered chunks" "list_all plain chunks" "truncate_head chunks = (h, t)"
  shows "\<exists>hs lost. t = hs @ drop h chunks \<and> h \<le> length chunks
    \<and> map cSequence hs = map cSequence (take h chunks) \<and> list_all plain hs
    \<and> chunk_text (take h chunks) = chunk_text hs @ lost \<and> chunk_bytes hs \<le> LogHeadBytes
    \<and> chunk_bytes (take h chunks) \<le> LogHeadBytes + LogChunkMaxBytes
    \<and> (short_runs (chunk_text chunks) \<and> LogHeadBytes < chunk_bytes chunks \<longrightarrow> LogHeadBytes \<le> chunk_bytes hs + 3)"
proof -
  obtain n v where nv: "fit_scan (int LogHeadBytes) chunks 0 = (n, v)" by force
  note fit = fit_scan_spec [OF nv]
  have bytes: "chunk_bytes (take n chunks) \<le> LogHeadBytes" using fit by auto
  show ?thesis
  proof (cases "v < int LogHeadBytes \<and> n < length chunks")
    case False
    with assms nv have "h = n" "t = chunks" by (auto simp: truncate_head_def)
    moreover have "LogHeadBytes \<le> chunk_bytes (take n chunks)" if "LogHeadBytes < chunk_bytes chunks"
    proof (cases "n < length chunks")
      case True
      then show ?thesis using False fit by auto
    qed (use that in simp)
    ultimately show ?thesis using fit bytes assms(2)
      by (intro exI [of _ "take n chunks"] exI [of _ "[]"])
         (auto simp: list_all_iff dest: in_set_takeD)
  next
    case True
    let ?c = "chunks ! n"
    let ?keep = "safePrefixBytes (cData ?c) (nat (int LogHeadBytes - v))"
    have split: "chunks = take n chunks @ ?c # drop (Suc n) chunks"
      using True by (simp add: id_take_nth_drop)
    have h: "h = Suc n" "t = chunk_update (cSequence ?c) ?keep chunks"
      using True assms(3) nv by (auto simp: truncate_head_def Let_def)
    have t: "t = (take n chunks @ [?c\<lparr>cData := ?keep\<rparr>]) @ drop h chunks"
      using chunk_update_ordered [of "take n chunks" ?c "drop (Suc n) chunks" ?keep] split assms(1) h
      by simp
    obtain lost where lost: "cData ?c = ?keep @ lost"
      using safePrefixBytes_prefix [of "cData ?c"] by (auto simp: prefix_def)
    have "length ?keep \<le> nat (int LogHeadBytes - v)" by (rule length_safePrefixBytes)
    with fit True have "chunk_bytes (take n chunks) + length ?keep \<le> LogHeadBytes" by auto
    moreover have plain: "plain ?c" "list_all plain (take n chunks)"
      using assms(2) True by (auto simp: list_all_iff dest: in_set_takeD)
    moreover have "plain (?c\<lparr>cData := ?keep\<rparr>)"
      using plain(1) safePrefixBytes_prefix by (intro plain_shrink) (auto dest: prefix_length_le)
    moreover have "LogHeadBytes \<le> chunk_bytes (take n chunks) + length ?keep + 3" if "short_runs (chunk_text chunks)"
    proof -
      have "nat (int LogHeadBytes - v) < length (cData ?c)" using fit True by auto
      from length_safePrefixBytes_ge [OF _ this] show ?thesis using short_runs_chunk [OF that, of ?c] fit True by auto
    qed
    ultimately show ?thesis
      using t h True lost bytes
      by (intro exI [of _ "take n chunks @ [?c\<lparr>cData := ?keep\<rparr>]"] exI [of _ lost])
         (auto simp: take_Suc_nth plain_def)
  qed
qed

lemma drop_pred_nth: "0 < n \<Longrightarrow> n \<le> length xs \<Longrightarrow> drop (n - 1) xs = xs ! (n - 1) # drop n xs"
  using Cons_nth_drop_Suc [of "n - 1" xs] by simp

lemma truncate_tail_spec:
  assumes "ordered (hs @ drop h chunks)" "list_all plain chunks" "h \<le> length chunks"
    and "length hs = h" "0 \<le> b" "truncate_tail b chunks h (hs @ drop h chunks) = (s, t)"
  shows "\<exists>ts lost. h \<le> s \<and> s \<le> length chunks \<and> t = hs @ take (s - h) (drop h chunks) @ ts
    \<and> map cSequence ts = map cSequence (drop s chunks) \<and> list_all plain ts
    \<and> chunk_text (drop s chunks) = lost @ chunk_text ts \<and> int (chunk_bytes ts) \<le> b
    \<and> (short_runs (chunk_text chunks) \<longrightarrow> b \<le> int (chunk_bytes ts) + 3 \<or> s = h \<and> lost = [])"
proof -
  let ?r = "drop h chunks"
  obtain n v where nv: "fit_scan b (rev ?r) 0 = (n, v)" by force
  note fit = fit_scan_spec [OF nv]
  define s0 where "s0 = length chunks - n"
  have n: "n \<le> length ?r" using fit by simp
  have s0: "h \<le> s0" "s0 \<le> length chunks" using n assms(3) by (auto simp: s0_def)
  have rev: "take n (rev ?r) = rev (drop s0 chunks)"
    using n assms(3) by (simp add: take_rev s0_def)
  have v: "v = int (chunk_bytes (drop s0 chunks))" using fit rev by simp
  have vb: "v \<le> b" using fit assms(5) by simp
  have r: "?r = take (s0 - h) ?r @ drop s0 chunks"
    using s0 by (metis append_take_drop_id drop_drop le_add_diff_inverse2)
  have plain: "\<And>k. list_all plain (drop k chunks)"
    using assms(2) by (auto simp: list_all_iff dest: in_set_dropD)
  show ?thesis
  proof (cases "h < s0 \<and> v < b")
    case False
    with assms(6) nv have "s = s0" "t = hs @ ?r" by (auto simp: truncate_tail_def s0_def)
    with r s0 vb v plain [of s0] show ?thesis
      by (intro exI [of _ "drop s0 chunks"] exI [of _ "[]"]) (use False in auto)
  next
    case True
    let ?c = "chunks ! (s0 - 1)" and ?ms = "take (s0 - 1 - h) ?r"
    let ?keep = "safeSuffixBytes (cData ?c) (nat (b - v))"
    have st: "s = s0 - 1" "t = chunk_update (cSequence ?c) ?keep (hs @ ?r)"
      using True assms(6) nv by (auto simp: truncate_tail_def s0_def Let_def)
    have dr: "drop (s0 - 1) chunks = ?c # drop s0 chunks"
      using drop_pred_nth [of s0 chunks] True s0 by simp
    have r': "?r = ?ms @ ?c # drop s0 chunks"
      using True dr by (metis append_take_drop_id drop_drop le_add_diff_inverse2 Suc_leI less_imp_Suc_add
          add_diff_cancel_left' diff_Suc_1 le_add1)
    have "t = (hs @ ?ms) @ ?c\<lparr>cData := ?keep\<rparr> # drop s0 chunks"
      using chunk_update_ordered [of "hs @ ?ms" ?c "drop s0 chunks" ?keep] assms(1) st(2) r' by simp
    moreover obtain lost where "cData ?c = lost @ ?keep"
      using safeSuffixBytes_suffix [of "cData ?c"] by (auto simp: suffix_def)
    moreover have "length ?keep \<le> nat (b - v)" by (rule length_safeSuffixBytes)
    moreover have "plain (?c\<lparr>cData := ?keep\<rparr>)"
      using plain [of "s0 - 1"] dr safeSuffixBytes_suffix
      by (intro plain_shrink) (auto dest: suffix_length_le)
    moreover have "b - v \<le> int (length ?keep) + 3" if sr: "short_runs (chunk_text chunks)"
    proof -
      have "n < length (rev ?r)" "rev ?r ! n = ?c" using True s0 assms(3) by (auto simp: s0_def rev_nth)
      then have "nat (b - v) < length (cData ?c)" using fit True by auto
      from length_safeSuffixBytes_ge [OF _ this] show ?thesis
        using short_runs_chunk [OF sr, of ?c] True s0 by auto
    qed
    ultimately show ?thesis
      using st(1) dr v vb True s0 plain [of s0]
      by (intro exI [of _ "?c\<lparr>cData := ?keep\<rparr> # drop s0 chunks"] exI [of _ lost]) auto
  qed
qed

abbreviation marker_chunk :: "int \<Rightarrow> string \<Rightarrow> log_chunk" where
  "marker_chunk s now \<equiv> \<lparr>cSequence = s, cStream = LogStreamSystem,
     cData = LogTruncationMarker, cCreatedAt = now\<rparr>"

lemma is_marker_chunk: "is_marker (marker_chunk s now)"
  by (simp add: is_marker_def)

lemma replace_range_with_marker:
  assumes "ordered (xs @ ms @ ys)" "ms \<noteq> []"
    and "hi = (if ys = [] then cSequence (last ms) + 1 else cSequence (hd ys))"
  shows "chunk_replace (marker_chunk (cSequence (hd ms)) now)
      (chunk_delete_range (cSequence (hd ms)) hi (xs @ ms @ ys))
    = xs @ marker_chunk (cSequence (hd ms)) now # ys"
proof -
  have "hd ms \<in> set ms" using assms(2) by simp
  then have "\<forall>x\<in>set xs. cSequence x < cSequence (hd ms)" "\<forall>y\<in>set ys. cSequence (hd ms) < cSequence y"
    using assms(1) by (auto simp: ordered_append)
  then show ?thesis
    using chunk_delete_range_ordered [OF assms(1,2) refl assms(3)]
      chunk_replace_ordered [of xs "marker_chunk (cSequence (hd ms)) now" ys] by simp
qed

lemma hd_drop_sequence:
  assumes "map cSequence ts = map cSequence (drop s chunks)" "s < length chunks"
  shows "ts \<noteq> []" "cSequence (hd ts) = cSequence (chunks ! s)"
proof -
  show ne: "ts \<noteq> []" using assms by auto
  have "hd (map cSequence ts) = hd (map cSequence (drop s chunks))" using assms(1) by simp
  with ne assms(2) show "cSequence (hd ts) = cSequence (chunks ! s)"
    by (simp add: hd_map hd_drop_conv_nth)
qed

lemma place_marker_gap:
  assumes "ordered (hs @ take (s - h) (drop h chunks) @ ts)" "h < s" "s \<le> length chunks"
    and "map cSequence ts = map cSequence (drop s chunks)"
  shows "place_marker now chunks h s (hs @ take (s - h) (drop h chunks) @ ts)
    = Inr (hs @ marker_chunk (cSequence (chunks ! h)) now # ts)"
proof -
  let ?ms = "take (s - h) (drop h chunks)"
  have ms: "?ms \<noteq> []" "cSequence (hd ?ms) = cSequence (chunks ! h)"
    using assms(2,3) by (auto simp: hd_drop_conv_nth)
  have "(if s < length chunks then cSequence (chunks ! s) else cSequence (last chunks) + 1)
    = (if ts = [] then cSequence (last ?ms) + 1 else cSequence (hd ts))"
  proof (cases "s < length chunks")
    case True
    with hd_drop_sequence [OF assms(4) True] show ?thesis by simp
  next
    case False
    with assms(2-4) have "ts = []" "last ?ms = last chunks" by (auto simp: last_drop)
    with False show ?thesis by simp
  qed
  then show ?thesis
    using replace_range_with_marker [OF assms(1) ms(1) refl, of now] assms(2) ms(2)
    by (simp add: place_marker_def)
qed

lemma place_marker_over_tail:
  assumes "ordered (hs @ ts)" "h < length chunks"
    and "map cSequence ts = map cSequence (drop h chunks)"
  shows "place_marker now chunks h h (hs @ ts)
    = Inr (hs @ marker_chunk (cSequence (chunks ! h)) now # tl ts)"
proof -
  note ts = hd_drop_sequence [OF assms(3,2)]
  have tl: "map cSequence (tl ts) = map cSequence (drop (Suc h) chunks)"
    using arg_cong [OF assms(3), of tl] by (simp add: drop_Suc tl_drop flip: map_tl)
  have "(if Suc h < length chunks then cSequence (chunks ! Suc h) else cSequence (last chunks) + 1)
    = (if tl ts = [] then cSequence (last [hd ts]) + 1 else cSequence (hd (tl ts)))"
  proof (cases "Suc h < length chunks")
    case True
    with hd_drop_sequence [OF tl True] show ?thesis by simp
  next
    case False
    with assms(2) have l: "length chunks = Suc h" by simp
    then have "last chunks = chunks ! h" by (subst last_conv_nth) auto
    moreover have "tl ts = []" using tl l by simp
    ultimately show ?thesis using False ts by simp
  qed
  then show ?thesis
    using replace_range_with_marker [of hs "[hd ts]" "tl ts", OF _ _ refl, of now] assms(1,2) ts
    by (simp add: place_marker_def)
qed

text \<open>
  The chunks are an abridgement of the text \<open>src\<close>: a beginning of it within the head
  bound, one marker, an end of it within the tail bound, and the two do not overlap. If the
  texts are \<open>utf8\<close>, the head is full up to a cut character and the tail has at least \<open>lo\<close> bytes.
\<close>

definition abridged :: "bool \<Rightarrow> int \<Rightarrow> int \<Rightarrow> string \<Rightarrow> log_chunk list \<Rightarrow> bool" where
  "abridged utf8 lo budget src cs \<longleftrightarrow> (\<exists>hs m ts. cs = hs @ m # ts \<and> is_marker m
     \<and> list_all plain hs \<and> list_all plain ts
     \<and> prefix (chunk_text hs) src \<and> suffix (chunk_text ts) src
     \<and> chunk_bytes hs \<le> LogHeadBytes \<and> int (chunk_bytes ts) \<le> budget
     \<and> chunk_bytes hs + chunk_bytes ts \<le> length src
     \<and> (utf8 \<longrightarrow> LogHeadBytes \<le> chunk_bytes hs + 3 \<and> lo \<le> int (chunk_bytes ts)))"

lemma truncate_middle_spec:
  assumes ord: "ordered chunks" and pl: "list_all plain chunks" and b: "0 \<le> b"
    and big: "LogHeadBytes + LogChunkMaxBytes < chunk_bytes chunks"
    and utf8: "utf8 \<longrightarrow> short_runs (chunk_text chunks)"
    and lo: "lo + int LogChunkMaxBytes + 3 \<le> b" "lo + int LogHeadBytes + 2 * int LogChunkMaxBytes \<le> int (chunk_bytes chunks)"
  shows "\<exists>cs. truncate_middle b now chunks = Inr cs \<and> ordered cs
    \<and> abridged utf8 lo b (chunk_text chunks) cs \<and> cSequence ` set cs \<subseteq> cSequence ` set chunks"
proof -
  obtain h t where th: "truncate_head chunks = (h, t)" by force
  from truncate_head_spec [OF ord pl th] obtain hs lost where hs: "t = hs @ drop h chunks"
    "h \<le> length chunks" "map cSequence hs = map cSequence (take h chunks)" "list_all plain hs"
    "chunk_text (take h chunks) = chunk_text hs @ lost" "chunk_bytes hs \<le> LogHeadBytes"
    "chunk_bytes (take h chunks) \<le> LogHeadBytes + LogChunkMaxBytes"
    "short_runs (chunk_text chunks) \<and> LogHeadBytes < chunk_bytes chunks \<longrightarrow> LogHeadBytes \<le> chunk_bytes hs + 3" by blast
  have hl: "h < length chunks" using hs(2,7) big by (cases "h = length chunks") auto
  have len: "length hs = h" using hs(2,3) map_eq_imp_length_eq by fastforce
  have ord1: "ordered (hs @ drop h chunks)"
    using ord ordered_same_sequences [of "hs @ drop h chunks" chunks] hs(3)
    by (metis append_take_drop_id map_append)
  obtain s t' where tt: "truncate_tail b chunks h (hs @ drop h chunks) = (s, t')" by force
  from truncate_tail_spec [OF ord1 pl hs(2) len b tt] obtain ts lost' where
    ts: "h \<le> s" "s \<le> length chunks" "t' = hs @ take (s - h) (drop h chunks) @ ts"
    "map cSequence ts = map cSequence (drop s chunks)" "list_all plain ts"
    "chunk_text (drop s chunks) = lost' @ chunk_text ts" "int (chunk_bytes ts) \<le> b"
    "short_runs (chunk_text chunks) \<longrightarrow> b \<le> int (chunk_bytes ts) + 3 \<or> s = h \<and> lost' = []" by blast
  have full: "LogHeadBytes \<le> chunk_bytes hs + 3" if utf8 using that utf8 hs(8) big by simp
  let ?ms = "take (s - h) (drop h chunks)"
  have dec: "chunks = take h chunks @ ?ms @ drop s chunks"
    using ts(1) by (metis append_take_drop_id drop_drop le_add_diff_inverse2)
  have seqs: "map cSequence (hs @ ?ms @ ts) = map cSequence chunks"
    using hs(3) ts(4) dec by (metis map_append)
  have ord2: "ordered (hs @ ?ms @ ts)" using ord ordered_same_sequences [OF seqs] by simp
  have parts: "chunk_text chunks = chunk_text hs @ lost @ chunk_text ?ms @ lost' @ chunk_text ts"
    using hs(5) ts(6) by (subst dec) simp
  have bytes: "chunk_bytes hs + chunk_bytes ts \<le> length (chunk_text chunks)"
    by (simp add: parts flip: length_chunk_text)
  have all_seqs: "cSequence ` set hs \<union> cSequence ` set ?ms \<union> cSequence ` set ts = cSequence ` set chunks"
    using arg_cong [OF seqs, of set] by (simp add: image_Un Un_assoc)
  have mk: "truncate_middle b now chunks = place_marker now chunks h s t'"
    using th tt hs(1) by (simp add: truncate_middle_def)
  have nth: "cSequence (chunks ! h) \<in> cSequence ` set chunks" using hl by simp
  let ?m = "marker_chunk (cSequence (chunks ! h)) now"
  show ?thesis
  proof (cases "h < s")
    case True
    have "truncate_middle b now chunks = Inr (hs @ ?m # ts)"
      using place_marker_gap [OF ord2 True ts(2,4)] mk ts(3) by simp
    moreover have "ordered (hs @ ?m # ts)"
    proof -
      have "chunks ! h = hd ?ms" "?ms \<noteq> []" using True ts(2) by (auto simp: hd_drop_conv_nth)
      then have "chunks ! h \<in> set ?ms" by (metis hd_in_set)
      with ord2 show ?thesis by (auto simp: ordered_simps)
    qed
    moreover have "lo \<le> int (chunk_bytes ts)" if utf8 using that utf8 ts(8) True lo(1) by auto
    then have "abridged utf8 lo b (chunk_text chunks) (hs @ ?m # ts)"
      unfolding abridged_def using hs(4,6) ts(5,7) parts bytes is_marker_chunk full
      by (intro exI [of _ hs] exI [of _ ?m] exI [of _ ts]) (auto simp: suffix_def)
    ultimately show ?thesis using all_seqs nth by auto
  next
    case False
    with ts(1) have eq: "s = h" "?ms = []" by auto
    have ord3: "ordered (hs @ ts)" using ord2 eq by simp
    have tsn: "ts \<noteq> []" "cSequence (hd ts) = cSequence (chunks ! h)"
      using hd_drop_sequence [of ts h chunks] ts(4) eq(1) hl by auto
    then obtain u us where u: "ts = u # us" "cSequence u = cSequence (chunks ! h)"
      by (cases ts) auto
    have "truncate_middle b now chunks = Inr (hs @ ?m # us)"
      using place_marker_over_tail [OF ord3 hl] ts(3,4) eq mk u by simp
    moreover have "ordered (hs @ ?m # us)"
      using ord3 u by (auto simp: ordered_simps)
    moreover have "lo \<le> int (chunk_bytes us)" if u8: utf8
    proof -
      have pu: "length (cData u) \<le> LogChunkMaxBytes" using ts(5) by (simp add: u(1) plain_def)
      from u8 utf8 ts(8) consider "b \<le> int (chunk_bytes ts) + 3" | "lost' = []" by auto
      then show ?thesis
      proof cases
        case 1
        then show ?thesis using pu lo(1) by (simp add: u(1))
      next
        case 2
        then have "chunk_bytes chunks = chunk_bytes (take h chunks) + chunk_bytes ts"
          using arg_cong [OF ts(6), of length] eq by (simp add: length_chunk_text) (metis append_take_drop_id chunk_bytes_simps(3))
        then show ?thesis using pu lo(2) hs(7) by (simp add: u(1))
      qed
    qed
    then have "abridged utf8 lo b (chunk_text chunks) (hs @ ?m # us)"
      unfolding abridged_def using hs(4,6) ts(5,7) parts bytes is_marker_chunk u full
      by (intro exI [of _ hs] exI [of _ ?m] exI [of _ us]) (auto simp: suffix_def)
    ultimately show ?thesis using all_seqs nth u by auto
  qed
qed

subsection \<open>The limit is enforced and the log stays an abridgement\<close>

definition tail_budget :: "log_config \<Rightarrow> int" where
  "tail_budget cfg = MaxBytes (normalizeLogConfig cfg) - int LogHeadBytes - int (length LogTruncationMarker)"

lemma normalized_MaxBytes: "MinLogMaxBytes \<le> MaxBytes (normalizeLogConfig cfg)"
  by (auto simp: normalizeLogConfig_def Let_def DefaultLogConfig_def MinLogMaxBytes_def DefaultLogMaxBytes_def)

lemma tail_budget_pos: "1 \<le> tail_budget cfg"
  using normalized_MaxBytes [of cfg]
  by (simp add: tail_budget_def MinLogMaxBytes_def LogHeadBytes_def LogTruncationMarker_def)

lemma head_and_chunk_fit: "int (LogHeadBytes + LogChunkMaxBytes) < MaxBytes (normalizeLogConfig cfg)"
  using normalized_MaxBytes [of cfg]
  by (simp add: MinLogMaxBytes_def LogHeadBytes_def LogChunkMaxBytes_def)

text \<open>The bytes that a truncated log keeps at its end, at least: the maximum less 128 KiB.\<close>

definition tail_floor :: "log_config \<Rightarrow> int" where
  "tail_floor cfg = MaxBytes (normalizeLogConfig cfg) - MinLogMaxBytes"

lemma tail_floor_fits: "tail_floor cfg + int LogChunkMaxBytes + 3 \<le> tail_budget cfg"
  by (simp add: tail_floor_def tail_budget_def MinLogMaxBytes_def LogHeadBytes_def LogChunkMaxBytes_def LogTruncationMarker_def)

text \<open>What the chunks hold of the text \<open>src\<close>, with a bound on the part behind the marker.\<close>

definition log_content :: "log_config \<Rightarrow> bool \<Rightarrow> int \<Rightarrow> string \<Rightarrow> job_log \<Rightarrow> bool" where
  "log_content cfg utf8 budget src st \<longleftrightarrow>
     (if logs_truncated st
      then abridged utf8 (tail_floor cfg) budget src (log_chunks st) \<and> MaxBytes (normalizeLogConfig cfg) < int (length src)
      else list_all plain (log_chunks st) \<and> chunk_text (log_chunks st) = src)"

definition log_inv :: "log_config \<Rightarrow> bool \<Rightarrow> string \<Rightarrow> job_log \<Rightarrow> bool" where
  "log_inv cfg utf8 src st \<longleftrightarrow> \<not> logs_expired st \<and> ordered (log_chunks st) \<and> 0 < log_next_sequence st
     \<and> (\<forall>c\<in>set (log_chunks st). 0 < cSequence c \<and> cSequence c < log_next_sequence st)
     \<and> log_source_bytes st = int (length src)
     \<and> int (chunk_bytes (log_chunks st)) \<le> MaxBytes (normalizeLogConfig cfg)
     \<and> log_content cfg utf8 (tail_budget cfg) src st"

lemma abridged_bytes:
  "abridged utf8 lo b src cs \<Longrightarrow> int (chunk_bytes cs) \<le> int LogHeadBytes + int (length LogTruncationMarker) + b"
  by (auto simp: abridged_def is_marker_def)

lemma plain_no_marker: "list_all plain cs \<Longrightarrow> \<forall>c\<in>set cs. \<not> is_marker c"
  by (auto simp: list_all_iff plain_not_marker)

lemma abridged_trim:
  assumes "ordered cs" "abridged utf8 lo b src cs" "marker_index cs = Some i" "0 \<le> budget"
    and "utf8 \<longrightarrow> short_runs src" and "lo + 3 \<le> budget"
  shows "let cs' = trim_tail (int (chunk_bytes (drop (Suc i) cs)) - budget) (drop (Suc i) cs) cs in
    ordered cs' \<and> abridged utf8 lo budget src cs' \<and> cSequence ` set cs' \<subseteq> cSequence ` set cs"
proof -
  from assms(2) obtain hs m ts where cs: "cs = hs @ m # ts" "is_marker m" "list_all plain hs"
    "list_all plain ts" "prefix (chunk_text hs) src" "suffix (chunk_text ts) src"
    "chunk_bytes hs \<le> LogHeadBytes" "chunk_bytes hs + chunk_bytes ts \<le> length src"
    "utf8 \<longrightarrow> LogHeadBytes \<le> chunk_bytes hs + 3 \<and> lo \<le> int (chunk_bytes ts)"
    by (auto simp: abridged_def)
  have "marker_index cs = Some (length hs)"
    using cs marker_index_unique [OF plain_no_marker [OF cs(4)] cs(2)] by simp
  with assms(3) have tail: "drop (Suc i) cs = ts" using cs(1) by simp
  have cs': "cs = (hs @ [m]) @ ts" using cs(1) by simp
  let ?e = "int (chunk_bytes ts) - budget"
  obtain ts' where ts': "trim_tail ?e ts ((hs @ [m]) @ ts) = (hs @ [m]) @ ts'"
    "ordered ((hs @ [m]) @ ts')" "list_all plain ts'" "suffix (chunk_text ts') (chunk_text ts)"
    "int (chunk_bytes ts') \<le> max (int (chunk_bytes ts) - ?e) 0"
    "short_runs (chunk_text ts) \<longrightarrow> min (int (chunk_bytes ts)) budget \<le> int (chunk_bytes ts') + 3"
    "cSequence ` set ts' \<subseteq> cSequence ` set ts"
    using trim_tail_spec [of "hs @ [m]" ts ?e] assms(1,4) cs(4) cs' by auto
  have same: "ts' = ts" if "?e \<le> 0" using ts'(1) that by (cases ts) auto
  have sr: "short_runs (chunk_text ts)" if utf8 using assms(5) that cs(6) short_runs_drop by (auto simp: suffix_def dest: short_runs_middle [of _ _ "[]", simplified])
  have floor: "lo \<le> int (chunk_bytes ts')" if utf8
  proof (cases "?e \<le> 0")
    case True
    then show ?thesis using same that cs(9) by simp
  next
    case False
    then show ?thesis using ts'(6) sr [OF that] assms(6) by auto
  qed
  have trim: "trim_tail ?e ts cs = hs @ m # ts'" using ts'(1) cs' by simp
  have le: "chunk_bytes ts' \<le> chunk_bytes ts"
    using suffix_length_le [OF ts'(4)] by (simp add: length_chunk_text)
  have "abridged utf8 lo budget src (hs @ m # ts')"
    unfolding abridged_def using cs(2,3,5,7,8,9) ts'(3,4,5) cs(6) assms(4) le floor
    by (intro exI [of _ hs] exI [of _ m] exI [of _ ts']) (auto intro: suffix_order.trans)
  moreover have "ordered (hs @ m # ts')" using ts'(2) by simp
  moreover have "cSequence ` set (hs @ m # ts') \<subseteq> cSequence ` set cs" using ts'(7) cs(1) by auto
  ultimately show ?thesis unfolding tail Let_def trim by blast
qed

lemma enforceLogLimitTx_spec:
  assumes ord: "ordered (log_chunks st)" and content: "log_content cfg utf8 b src st" and utf8: "utf8 \<longrightarrow> short_runs src"
  shows "\<exists>st'. enforceLogLimitTx cfg now st = Inr st' \<and> ordered (log_chunks st')
    \<and> cSequence ` set (log_chunks st') \<subseteq> cSequence ` set (log_chunks st)
    \<and> int (chunk_bytes (log_chunks st')) \<le> MaxBytes (normalizeLogConfig cfg)
    \<and> log_content cfg utf8 (tail_budget cfg) src st'
    \<and> (\<not> logs_truncated st' \<longrightarrow> log_chunks st' = log_chunks st)
    \<and> st' = st\<lparr>log_chunks := log_chunks st', logs_truncated := logs_truncated st'\<rparr>"
proof -
  let ?cs = "log_chunks st" and ?max = "MaxBytes (normalizeLogConfig cfg)"
  have budget: "\<not> tail_budget cfg < 1" "0 \<le> tail_budget cfg" using tail_budget_pos [of cfg] by auto
  have bound: "\<And>cs lo. abridged utf8 lo (tail_budget cfg) src cs \<Longrightarrow> int (chunk_bytes cs) \<le> ?max"
    using abridged_bytes by (fastforce simp: tail_budget_def)
  show ?thesis
  proof (cases "logs_truncated st")
    case True
    with content have ab: "abridged utf8 (tail_floor cfg) b src ?cs" and over: "?max < int (length src)" by (simp_all add: log_content_def)
    then obtain hs m ts where "?cs = hs @ m # ts" "is_marker m" "list_all plain ts"
      by (auto simp: abridged_def)
    then obtain i where i: "marker_index ?cs = Some i"
      using marker_index_unique [OF plain_no_marker] by metis
    define cs' where "cs' = trim_tail (int (chunk_bytes (drop (Suc i) ?cs)) - tail_budget cfg)
      (drop (Suc i) ?cs) ?cs"
    have "enforceLogLimitTx cfg now st = Inr (st\<lparr>log_chunks := cs', logs_truncated := True\<rparr>)"
      using i budget(1) by (simp add: enforceLogLimitTx_def Let_def cs'_def flip: tail_budget_def)
    moreover have "ordered cs' \<and> abridged utf8 (tail_floor cfg) (tail_budget cfg) src cs' \<and> cSequence ` set cs' \<subseteq> cSequence ` set ?cs"
      using abridged_trim [OF ord ab i budget(2) utf8] tail_floor_fits [of cfg] by (simp add: Let_def cs'_def)
    ultimately show ?thesis using bound [of "tail_floor cfg" cs'] over by (simp add: log_content_def)
  next
    case False
    with content have pl: "list_all plain ?cs" and src: "chunk_text ?cs = src"
      by (simp_all add: log_content_def)
    have none: "marker_index ?cs = None" using plain_no_marker [OF pl] by (simp add: marker_index_None)
    show ?thesis
    proof (cases "int (chunk_bytes ?cs) \<le> ?max")
      case True
      then have "enforceLogLimitTx cfg now st = Inr st"
        using none by (simp add: enforceLogLimitTx_def Let_def)
      with ord True content False show ?thesis by (simp add: log_content_def)
    next
      case big: False
      then have head: "LogHeadBytes + LogChunkMaxBytes < chunk_bytes ?cs"
        using head_and_chunk_fit [of cfg] by linarith
      have "tail_floor cfg + int LogHeadBytes + 2 * int LogChunkMaxBytes \<le> int (chunk_bytes ?cs)"
        using big by (simp add: tail_floor_def MinLogMaxBytes_def LogHeadBytes_def LogChunkMaxBytes_def)
      then obtain cs where cs: "truncate_middle (tail_budget cfg) now ?cs = Inr cs" "ordered cs"
        "abridged utf8 (tail_floor cfg) (tail_budget cfg) (chunk_text ?cs) cs" "cSequence ` set cs \<subseteq> cSequence ` set ?cs"
        using truncate_middle_spec [OF ord pl budget(2) head _ tail_floor_fits] utf8 src by blast
      have "enforceLogLimitTx cfg now st = Inr (st\<lparr>log_chunks := cs, logs_truncated := True\<rparr>)"
        using none big budget(1) cs(1)
        by (simp add: enforceLogLimitTx_def Let_def flip: tail_budget_def)
      with cs bound src big show ?thesis by (simp add: log_content_def flip: length_chunk_text)
    qed
  qed
qed

subsection \<open>Appending\<close>

fun part_chunks :: "string \<Rightarrow> string \<Rightarrow> int \<Rightarrow> string list \<Rightarrow> log_chunk list" where
  "part_chunks stream createdAt n [] = []"
| "part_chunks stream createdAt n (p # ps) =
     \<lparr>cSequence = n, cStream = stream, cData = p, cCreatedAt = createdAt\<rparr>
     # part_chunks stream createdAt (n + 1) ps"

lemma chunk_text_part_chunks [simp]: "chunk_text (part_chunks stream ca n ps) = concat ps"
  by (induction ps arbitrary: n) simp_all

lemma part_chunks_sequences:
  "c \<in> set (part_chunks stream ca n ps) \<Longrightarrow> n \<le> cSequence c \<and> cSequence c < n + int (length ps)"
  by (induction ps arbitrary: n) fastforce+

lemma ordered_part_chunks: "ordered (part_chunks stream ca n ps)"
  by (induction ps arbitrary: n) (force simp: ordered_Cons dest: part_chunks_sequences)+

lemma plain_part_chunks:
  "stream \<noteq> LogStreamSystem \<Longrightarrow> \<forall>p\<in>set ps. length p \<le> LogChunkMaxBytes \<Longrightarrow>
     list_all plain (part_chunks stream ca n ps)"
  by (induction ps arbitrary: n) (simp_all add: plain_def)

lemma insert_parts_spec:
  "\<forall>c\<in>set t. cSequence c < n \<Longrightarrow>
     insert_parts stream ca ps n t acc =
       Inr (n + int (length ps), t @ part_chunks stream ca n ps, acc @ part_chunks stream ca n ps)"
proof (induction ps arbitrary: n t acc)
  case (Cons p ps)
  let ?c = "\<lparr>cSequence = n, cStream = stream, cData = p, cCreatedAt = ca\<rparr>"
  have "chunk_insert ?c t = Inr (t @ [?c])" using Cons.prems by (intro chunk_insert_last) simp
  moreover have "\<forall>c\<in>set (t @ [?c]). cSequence c < n + 1" using Cons.prems by auto
  ultimately show ?case using Cons.IH [of "t @ [?c]" "n + 1" "acc @ [?c]"] by (simp add: Let_def)
qed simp

definition fragments_text :: "log_fragment list \<Rightarrow> string" where
  "fragments_text fs = concat (map fData fs)"

definition user_fragment :: "log_fragment \<Rightarrow> bool" where
  "user_fragment f \<longleftrightarrow> normalizeLogStream (fStream f) \<noteq> LogStreamSystem"

lemma insert_fragments_spec:
  assumes "ordered t" "\<forall>c\<in>set t. cSequence c < n" "list_all user_fragment fs"
  shows "\<exists>n' new. insert_fragments ca fs n src t acc
      = Inr (n', src + int (length (fragments_text fs)), t @ new, acc @ new)
    \<and> ordered (t @ new) \<and> (\<forall>c\<in>set (t @ new). cSequence c < n') \<and> n \<le> n'
    \<and> (\<forall>c\<in>set new. n \<le> cSequence c)
    \<and> list_all plain new \<and> chunk_text new = fragments_text fs"
  using assms
proof (induction fs arbitrary: n src t acc)
  case Nil
  then show ?case by (auto simp: fragments_text_def)
next
  case (Cons f fs)
  show ?case
  proof (cases "fData f = []")
    case True
    with Cons.IH [OF Cons.prems(1,2)] Cons.prems(3) show ?thesis
      by (auto simp: fragments_text_def)
  next
    case False
    let ?s = "normalizeLogStream (fStream f)" and ?ps = "splitLogData (fData f) LogChunkMaxBytes"
    let ?new = "part_chunks ?s ca n ?ps"
    have plain: "list_all plain ?new"
      using Cons.prems(3) splitLogData_parts [of LogChunkMaxBytes]
      by (intro plain_part_chunks) (auto simp: user_fragment_def LogChunkMaxBytes_def)
    have ord: "ordered (t @ ?new)"
      using Cons.prems(1,2) ordered_part_chunks
      by (fastforce simp: ordered_append dest: part_chunks_sequences)
    have below: "\<forall>c\<in>set (t @ ?new). cSequence c < n + int (length ?ps)"
      using Cons.prems(2) by (fastforce dest: part_chunks_sequences)
    have user: "list_all user_fragment fs" using Cons.prems(3) by simp
    from Cons.IH [OF ord below user, of "src + int (length (fData f))" "acc @ ?new"]
    obtain n' new where rest: "insert_fragments ca fs (n + int (length ?ps))
        (src + int (length (fData f))) (t @ ?new) (acc @ ?new)
      = Inr (n', src + int (length (fData f)) + int (length (fragments_text fs)),
          (t @ ?new) @ new, (acc @ ?new) @ new)"
      "ordered ((t @ ?new) @ new)" "\<forall>c\<in>set ((t @ ?new) @ new). cSequence c < n'"
      "n + int (length ?ps) \<le> n'" "\<forall>c\<in>set new. n + int (length ?ps) \<le> cSequence c"
      "list_all plain new" "chunk_text new = fragments_text fs" by blast
    have "insert_fragments ca (f # fs) n src t acc =
      Inr (n', src + int (length (fragments_text (f # fs))), t @ ?new @ new, acc @ ?new @ new)"
      using False rest(1) insert_parts_spec [OF Cons.prems(2), of ?s ca ?ps acc]
      by (simp add: fragments_text_def ac_simps)
    moreover have "chunk_text (?new @ new) = fragments_text (f # fs)"
      using rest(7) by (simp add: fragments_text_def concat_splitLogData)
    moreover have "\<forall>c\<in>set (?new @ new). n \<le> cSequence c"
      using rest(5) by (fastforce dest: part_chunks_sequences)
    ultimately show ?thesis
      using rest(2-4,6) plain by (intro exI [of _ n'] exI [of _ "?new @ new"]) simp
  qed
qed

lemma abridged_append:
  assumes "abridged utf8 lo b src cs" "list_all plain new"
  shows "abridged utf8 lo (b + int (chunk_bytes new)) (src @ chunk_text new) (cs @ new)"
proof -
  from assms(1) obtain hs m ts where "cs = hs @ m # ts" "is_marker m" "list_all plain hs"
    "list_all plain ts" "prefix (chunk_text hs) src" "suffix (chunk_text ts) src"
    "chunk_bytes hs \<le> LogHeadBytes" "int (chunk_bytes ts) \<le> b"
    "chunk_bytes hs + chunk_bytes ts \<le> length src"
    "utf8 \<longrightarrow> LogHeadBytes \<le> chunk_bytes hs + 3 \<and> lo \<le> int (chunk_bytes ts)" by (auto simp: abridged_def)
  moreover from this have "suffix (chunk_text (ts @ new)) (src @ chunk_text new)"
    by (auto simp: suffix_def)
  ultimately show ?thesis
    unfolding abridged_def using assms(2)
    by - (rule exI [of _ hs], rule exI [of _ m], rule exI [of _ "ts @ new"], auto simp: length_chunk_text)
qed

lemma log_content_append:
  assumes "log_content cfg utf8 b src st" "list_all plain new"
  shows "log_content cfg utf8 (b + int (chunk_bytes new)) (src @ chunk_text new)
    (st\<lparr>log_chunks := log_chunks st @ new, log_next_sequence := n, log_source_bytes := k\<rparr>)"
  using assms abridged_append by (auto simp: log_content_def)

lemma log_content_preview: "log_content cfg utf8 b src (st\<lparr>logs_text := p\<rparr>) = log_content cfg utf8 b src st"
  by (simp add: log_content_def)

lemma appendFragmentsTx_spec:
  assumes inv: "log_inv cfg utf8 src st" and user: "list_all user_fragment fs" and utf8: "utf8 \<longrightarrow> short_runs (src @ fragments_text fs)"
  shows "\<exists>w st'. appendFragmentsTx cfg now fs ca st = Inr (w, st')
    \<and> log_inv cfg utf8 (src @ fragments_text fs) st'
    \<and> logs_text st' = BoundedLogPreview (chunk_text (log_chunks st'))
    \<and> wReset w = logs_truncated st'
    \<and> (\<not> logs_truncated st' \<longrightarrow> log_chunks st' = log_chunks st @ wChunks w)"
proof -
  note inv' = inv [unfolded log_inv_def]
  obtain n new where ins: "insert_fragments ca fs (log_next_sequence st) (log_source_bytes st)
      (log_chunks st) [] = Inr (n, log_source_bytes st + int (length (fragments_text fs)),
        log_chunks st @ new, new)"
    "ordered (log_chunks st @ new)" "\<forall>c\<in>set (log_chunks st @ new). cSequence c < n"
    "list_all plain new" "chunk_text new = fragments_text fs" "log_next_sequence st \<le> n"
    "\<forall>c\<in>set new. log_next_sequence st \<le> cSequence c"
    using insert_fragments_spec [of "log_chunks st" "log_next_sequence st" fs ca "log_source_bytes st" "[]"]
      inv' user by auto
  define st1 where "st1 = st\<lparr>log_chunks := log_chunks st @ new, log_next_sequence := n,
    log_source_bytes := log_source_bytes st + int (length (fragments_text fs))\<rparr>"
  have "ordered (log_chunks st1)" using ins(2) by (simp add: st1_def)
  moreover have "log_content cfg utf8 (tail_budget cfg + int (chunk_bytes new)) (src @ fragments_text fs) st1"
    using log_content_append [OF _ ins(4)] inv' ins(5) by (simp add: st1_def)
  ultimately obtain st2 where st2: "enforceLogLimitTx cfg now st1 = Inr st2" "ordered (log_chunks st2)"
    "cSequence ` set (log_chunks st2) \<subseteq> cSequence ` set (log_chunks st1)"
    "int (chunk_bytes (log_chunks st2)) \<le> MaxBytes (normalizeLogConfig cfg)"
    "log_content cfg utf8 (tail_budget cfg) (src @ fragments_text fs) st2"
    "\<not> logs_truncated st2 \<longrightarrow> log_chunks st2 = log_chunks st1"
    "st2 = st1\<lparr>log_chunks := log_chunks st2, logs_truncated := logs_truncated st2\<rparr>"
    using enforceLogLimitTx_spec [OF _ _ utf8, of st1 cfg _ now] by blast
  have same: "log_next_sequence st2 = n" "logs_expired st2 = logs_expired st"
    "log_source_bytes st2 = log_source_bytes st + int (length (fragments_text fs))"
    using arg_cong [OF st2(7), of log_next_sequence] arg_cong [OF st2(7), of logs_expired]
      arg_cong [OF st2(7), of log_source_bytes] by (simp_all add: st1_def)
  have below: "\<forall>c\<in>set (log_chunks st2). 0 < cSequence c \<and> cSequence c < n" "0 < n"
    using st2(3) ins(3,6,7) inv' by (fastforce simp: st1_def)+
  have inv2: "log_inv cfg utf8 (src @ fragments_text fs) (updateLogPreviewTx st2)"
    using st2(2,4,5) same below inv' log_content_preview
    by (simp add: log_inv_def updateLogPreviewTx_def)
  have "appendFragmentsTx cfg now fs ca st =
    Inr (if logs_truncated st2 then \<lparr>wChunks = [], wReset = True\<rparr> else \<lparr>wChunks = new, wReset = False\<rparr>,
      updateLogPreviewTx st2)"
    using ins(1) st2(1) inv' by (simp add: appendFragmentsTx_def Let_def st1_def updateLogPreviewTx_def)
  with inv2 st2(6) show ?thesis by (auto simp: updateLogPreviewTx_def st1_def)
qed

subsection \<open>Replacing\<close>

lemma split_at_marker_after:
  "\<forall>c\<in>set ts. \<not> is_marker c \<Longrightarrow> split_at_marker ts True = ([], chunk_text ts)"
  by (induction ts) simp_all

lemma split_at_marker_abridged:
  assumes "\<forall>c\<in>set hs. \<not> is_marker c" "is_marker m" "\<forall>c\<in>set ts. \<not> is_marker c"
  shows "split_at_marker (hs @ m # ts) False = (chunk_text hs, chunk_text ts)"
  using assms(1) by (induction hs) (simp_all add: assms split_at_marker_after)

lemma log_inv_reset:
  "0 < log_next_sequence st \<Longrightarrow> log_inv cfg utf8 [] (st\<lparr>log_chunks := [], logs_expired := False, logs_truncated := False,
     log_source_bytes := 0\<rparr>)"
  using normalized_MaxBytes [of cfg]
  by (simp add: log_inv_def log_content_def MinLogMaxBytes_def)

lemma log_inv_same_source:
  assumes "log_inv cfg utf8 src st" "logs_truncated st" "split_at_marker (log_chunks st) False = (head, tail)"
    and "prefix head data" "length src \<le> length data"
    and "tail = [] \<or> suffix tail (take (length src) data)"
  shows "log_inv cfg utf8 (take (length src) data) st"
proof -
  from assms(1,2) have "abridged utf8 (tail_floor cfg) (tail_budget cfg) src (log_chunks st)"
    by (simp add: log_inv_def log_content_def)
  then obtain hs m ts where cs: "log_chunks st = hs @ m # ts" "is_marker m" "list_all plain hs"
    "list_all plain ts" "chunk_bytes hs \<le> LogHeadBytes" "int (chunk_bytes ts) \<le> tail_budget cfg"
    "chunk_bytes hs + chunk_bytes ts \<le> length src"
    "utf8 \<longrightarrow> LogHeadBytes \<le> chunk_bytes hs + 3 \<and> tail_floor cfg \<le> int (chunk_bytes ts)" by (auto simp: abridged_def)
  have ht: "head = chunk_text hs" "tail = chunk_text ts"
    using split_at_marker_abridged [OF plain_no_marker [OF cs(3)] cs(2) plain_no_marker [OF cs(4)]]
      assms(3) cs(1) by auto
  have "prefix (chunk_text hs) (take (length src) data)"
    using assms(4) ht cs(7) by (auto simp: prefix_def length_chunk_text)
  moreover have "suffix (chunk_text ts) (take (length src) data)" using assms(6) ht by auto
  ultimately have "abridged utf8 (tail_floor cfg) (tail_budget cfg) (take (length src) data) (log_chunks st)"
    unfolding abridged_def using cs assms(5)
    by - (rule exI [of _ hs], rule exI [of _ m], rule exI [of _ ts], simp)
  with assms(1,2,5) show ?thesis by (simp add: log_inv_def log_content_def)
qed

lemma append_one_spec:
  assumes "log_inv cfg utf8 src st" "normalizeLogStream stream \<noteq> LogStreamSystem" "utf8 \<longrightarrow> short_runs (src @ d)"
  shows "\<exists>w st'. appendFragmentsTx cfg now [\<lparr>fStream = stream, fData = d\<rparr>] ca st = Inr (w, st')
    \<and> log_inv cfg utf8 (src @ d) st'"
  using appendFragmentsTx_spec [OF assms(1), of "[\<lparr>fStream = stream, fData = d\<rparr>]" now ca] assms(2,3)
  by (auto simp: user_fragment_def fragments_text_def)

lemma replaceLogSnapshotTx_spec:
  assumes inv: "log_inv cfg utf8 src st" and user: "normalizeLogStream stream \<noteq> LogStreamSystem" and utf8: "utf8 \<longrightarrow> short_runs data"
  shows "\<exists>w st'. replaceLogSnapshotTx cfg now data stream ca st = Inr (w, st') \<and> log_inv cfg utf8 data st'"
proof -
  obtain head tail where ht: "split_at_marker (log_chunks st) False = (head, tail)" by force
  let ?ret = "chunk_text (log_chunks st)"
  have sb: "nat (log_source_bytes st) = length src" "log_source_bytes st = int (length src)"
    using inv by (simp_all add: log_inv_def)
  note def = replaceLogSnapshotTx_def ht Let_def
  show ?thesis
  proof (cases "\<not> logs_truncated st \<and> 0 < length ?ret \<and> prefix ?ret data")
    case True
    then have src: "src = ?ret" using inv by (simp add: log_inv_def log_content_def)
    then have data: "data = src @ drop (length ?ret) data" using True by (auto simp: prefix_def)
    from append_one_spec [OF inv user, of "drop (length ?ret) data" now ca] obtain w st' where
      "appendFragmentsTx cfg now [\<lparr>fStream = stream, fData = drop (length ?ret) data\<rparr>] ca st = Inr (w, st')"
      "log_inv cfg utf8 data st'" using data utf8 by metis
    moreover have "drop (length ?ret) data = [] \<Longrightarrow> log_inv cfg utf8 data st" using inv data by simp
    ultimately show ?thesis using True by (simp add: def del: drop_eq_Nil)
  next
    case first: False
    show ?thesis
    proof (cases "logs_truncated st \<and> log_source_bytes st \<le> int (length data) \<and> prefix head data
        \<and> (tail = [] \<or> suffix tail (take (nat (log_source_bytes st)) data))")
      case True
      then have inv': "log_inv cfg utf8 (take (length src) data) st"
        using log_inv_same_source [OF inv _ ht] sb by auto
      from append_one_spec [OF inv' user, of "drop (length src) data" now ca] obtain w st' where
        "appendFragmentsTx cfg now [\<lparr>fStream = stream, fData = drop (length src) data\<rparr>] ca st = Inr (w, st')"
        "log_inv cfg utf8 data st'" using utf8 by auto
      moreover have "drop (length src) data = [] \<Longrightarrow> log_inv cfg utf8 data st" using inv' by simp
      ultimately show ?thesis using True first sb by (simp add: def del: drop_eq_Nil)
    next
      case False
      have "next": "0 < log_next_sequence st" using inv by (simp add: log_inv_def)
      let ?st0 = "st\<lparr>log_chunks := [], logs_expired := False, logs_truncated := False, log_source_bytes := 0\<rparr>"
      from append_one_spec [OF log_inv_reset [OF "next", of cfg utf8] user, of data now ca] obtain w st' where
        "appendFragmentsTx cfg now [\<lparr>fStream = stream, fData = data\<rparr>] ca ?st0 = Inr (w, st')"
        "log_inv cfg utf8 data st'" using utf8 by auto
      moreover have "replaceLogSnapshotTx cfg now data stream ca st =
        bind_result (appendFragmentsTx cfg now [\<lparr>fStream = stream, fData = data\<rparr>] ca ?st0)
          (\<lambda>(w, st'). Inr (w\<lparr>wReset := True, wChunks := []\<rparr>, st'))"
        using first False by (simp only: def if_False prod.case)
      ultimately show ?thesis by simp
    qed
  qed
qed

subsection \<open>Reading\<close>

lemma ordered_filter_after_take:
  assumes "ordered cs" "n < length cs" "0 < n"
  shows "filter (\<lambda>c. cSequence (last (take n cs)) < cSequence c) cs = drop n cs"
proof -
  have cs: "cs = take n cs @ drop n cs" by simp
  have ord: "ordered (take n cs)" "\<forall>x\<in>set (take n cs). \<forall>y\<in>set (drop n cs). cSequence x < cSequence y"
    using assms(1) ordered_append [of "take n cs" "drop n cs"] by auto
  have ne: "take n cs \<noteq> []" using assms(2,3) by auto
  have "filter (\<lambda>c. cSequence (last (take n cs)) < cSequence c) (take n cs) = []"
    using ordered_last [OF ord(1)] by (auto simp: filter_empty_conv not_less)
  moreover have "filter (\<lambda>c. cSequence (last (take n cs)) < cSequence c) (drop n cs) = drop n cs"
    using ord(2) last_in_set [OF ne] by (auto simp: filter_id_conv)
  ultimately show ?thesis by (metis cs append_Nil filter_append)
qed

lemma filter_after_filter:
  "a \<le> b \<Longrightarrow> filter (\<lambda>c. b < cSequence c) cs = filter (\<lambda>c. b < cSequence c) (filter (\<lambda>c. a < cSequence c) cs)"
  by (induction cs) auto

lemma ordered_filter: "ordered cs \<Longrightarrow> ordered (filter P cs)"
  by (induction cs) (auto simp: ordered_Cons)

lemma read_pages_all:
  "ordered (log_chunks st) \<Longrightarrow>
     read_pages cfg st a = chunk_text (filter (\<lambda>c. a < cSequence c) (log_chunks st))"
proof (induction cfg st a rule: read_pages.induct)
  case (1 cfg st a)
  let ?rest = "filter (\<lambda>c. a < cSequence c) (log_chunks st)"
  let ?page = "ReadLogPage cfg st a 500"
  have frag: "pFragments ?page = take 500 ?rest" by (simp add: ReadLogPage_def Let_def)
  have more: "pHasMore ?page \<longleftrightarrow> 500 < length ?rest" by (auto simp: ReadLogPage_def Let_def)
  show ?case
  proof (cases "500 < length ?rest")
    case True
    have ord: "ordered ?rest" using "1.prems" by (rule ordered_filter)
    have last_in: "last (take 500 ?rest) \<in> set ?rest"
      using True by (intro in_set_takeD [OF last_in_set]) auto
    let ?b = "cSequence (last (take 500 ?rest))"
    have le: "a \<le> ?b" using last_in by auto
    have fb: "filter (\<lambda>c. ?b < cSequence c) (log_chunks st) = drop 500 ?rest"
      by (rule trans [OF filter_after_filter [OF le] ordered_filter_after_take [OF ord True]]) simp
    have "read_pages cfg st (cSequence (last (pFragments ?page)))
      = chunk_text (filter (\<lambda>c. cSequence (last (pFragments ?page)) < cSequence c) (log_chunks st))"
      using "1.IH" [OF refl _ "1.prems"] True more by blast
    then have rest: "read_pages cfg st ?b = chunk_text (drop 500 ?rest)"
      unfolding frag fb .
    have "read_pages cfg st a = chunk_text (pFragments ?page)
      @ read_pages cfg st (cSequence (last (pFragments ?page)))"
      using True more by (subst read_pages.simps) (simp only: Let_def if_True)
    then have "read_pages cfg st a = chunk_text (take 500 ?rest @ drop 500 ?rest)"
      unfolding frag rest chunk_text_simps .
    then show ?thesis unfolding append_take_drop_id .
  next
    case False
    with more frag show ?thesis by (subst read_pages.simps) (simp add: Let_def)
  qed
qed

lemma ReadFullLog_text:
  assumes "log_inv cfg utf8 src st" "src \<noteq> []"
  shows "ReadFullLog cfg st = (chunk_text (log_chunks st), False, logs_truncated st)"
proof -
  have "filter (\<lambda>c. 0 < cSequence c) (log_chunks st) = log_chunks st"
    using assms(1) by (auto simp: log_inv_def filter_id_conv)
  then have pages: "read_pages cfg st 0 = chunk_text (log_chunks st)"
    using assms(1) by (simp add: read_pages_all log_inv_def)
  have "chunk_text (log_chunks st) \<noteq> []"
    using assms by (auto simp: log_inv_def log_content_def abridged_def is_marker_def
        LogTruncationMarker_def split: if_splits)
  with pages assms(1) show ?thesis by (simp add: ReadFullLog_def log_inv_def)
qed

subsection \<open>The log as an interface\<close>

text \<open>
  What the job repository relies on: a write never fails, an append of a batch of fragments extends
  the text the log stands for and a snapshot replaces it. Every write has its own time.
\<close>

datatype output_stream = Stdout | Stderr | Combined

fun stream_name :: "output_stream \<Rightarrow> string" where
  "stream_name Stdout = LogStreamStdout"
| "stream_name Stderr = LogStreamStderr"
| "stream_name Combined = LogStreamCombined"

type_synonym batch = "(output_stream \<times> string) list"

definition batch_text :: "batch \<Rightarrow> string" where
  "batch_text b = concat (map snd b)"

datatype log_write = Append string batch | Snapshot string string

fun run_writes ::
  "(string \<Rightarrow> batch \<Rightarrow> 'l \<Rightarrow> (string, 'l) result) \<Rightarrow> (string \<Rightarrow> string \<Rightarrow> 'l \<Rightarrow> (string, 'l) result)
    \<Rightarrow> log_write list \<Rightarrow> 'l \<Rightarrow> (string, 'l) result" where
  "run_writes app rep [] l = Inr l"
| "run_writes app rep (Append now b # ws) l = bind_result (app now b l) (run_writes app rep ws)"
| "run_writes app rep (Snapshot now d # ws) l = bind_result (rep now d l) (run_writes app rep ws)"

fun written_text :: "string \<Rightarrow> log_write list \<Rightarrow> string" where
  "written_text src [] = src"
| "written_text src (Append now b # ws) = written_text (src @ batch_text b) ws"
| "written_text src (Snapshot now d # ws) = written_text d ws"

text \<open>All texts that a sequence of writes goes through satisfy a predicate.\<close>

fun all_texts :: "(string \<Rightarrow> bool) \<Rightarrow> string \<Rightarrow> log_write list \<Rightarrow> bool" where
  "all_texts good src [] = True"
| "all_texts good src (Append now b # ws) = (good (src @ batch_text b) \<and> all_texts good (src @ batch_text b) ws)"
| "all_texts good src (Snapshot now d # ws) = (good d \<and> all_texts good d ws)"

lemma all_texts_True: "(\<And>s. good s) \<Longrightarrow> all_texts good src ws"
  by (induction good src ws rule: all_texts.induct) auto

locale text_log =
  fixes good :: "string \<Rightarrow> bool"
    and holds :: "string \<Rightarrow> 'l \<Rightarrow> bool"
    and app :: "string \<Rightarrow> batch \<Rightarrow> 'l \<Rightarrow> (string, 'l) result"
    and rep :: "string \<Rightarrow> string \<Rightarrow> 'l \<Rightarrow> (string, 'l) result"
  assumes app_holds: "holds src l \<Longrightarrow> good (src @ batch_text b) \<Longrightarrow> \<exists>l'. app now b l = Inr l' \<and> holds (src @ batch_text b) l'"
    and rep_holds: "holds src l \<Longrightarrow> good d \<Longrightarrow> \<exists>l'. rep now d l = Inr l' \<and> holds d l'"
begin

lemma run_writes_holds:
  "holds src l \<Longrightarrow> all_texts good src ws \<Longrightarrow> \<exists>l'. run_writes app rep ws l = Inr l' \<and> holds (written_text src ws) l'"
proof (induction ws arbitrary: src l)
  case (Cons w ws)
  show ?case
  proof (cases w)
    case (Append now b)
    with app_holds [OF Cons.prems(1), of b now] Cons.prems(2) obtain l1 where "app now b l = Inr l1" "holds (src @ batch_text b) l1" by auto
    with Cons.IH [of "src @ batch_text b" l1] Cons.prems(2) Append show ?thesis by simp
  next
    case (Snapshot now d)
    with rep_holds [OF Cons.prems(1), of d now] Cons.prems(2) obtain l1 where "rep now d l = Inr l1" "holds d l1" by auto
    with Cons.IH [of d l1] Cons.prems(2) Snapshot show ?thesis by simp
  qed
qed simp

end

text \<open>
  The two writes of the repository: the live output of a command comes in batches of its two streams,
  the log of a transition and the imported texts are of the combined stream.
\<close>

definition append_log :: "log_config \<Rightarrow> string \<Rightarrow> batch \<Rightarrow> job_log \<Rightarrow> (string, job_log) result" where
  "append_log cfg now b st = map_sum id snd
     (appendFragmentsTx cfg now (map (\<lambda>(stream, d). \<lparr>fStream = stream_name stream, fData = d\<rparr>) b) now st)"

definition replace_log :: "log_config \<Rightarrow> string \<Rightarrow> string \<Rightarrow> job_log \<Rightarrow> (string, job_log) result" where
  "replace_log cfg now d st = map_sum id snd
     (replaceLogSnapshotTx cfg now d LogStreamCombined now st)"

lemma combined_not_system: "normalizeLogStream LogStreamCombined \<noteq> LogStreamSystem"
  by code_simp

lemma stream_not_system: "normalizeLogStream (stream_name stream) \<noteq> LogStreamSystem"
  by (cases stream; simp only: stream_name.simps; code_simp)

interpretation job_text: text_log "\<lambda>s. utf8 \<longrightarrow> short_runs s" "log_inv cfg utf8" "append_log cfg" "replace_log cfg"
  for cfg :: log_config and utf8 :: bool
proof unfold_locales
  fix src now d :: string and b :: batch and st :: job_log
  assume inv: "log_inv cfg utf8 src st"
  let ?fs = "map (\<lambda>(stream, d). \<lparr>fStream = stream_name stream, fData = d\<rparr>) b"
  have fs: "list_all user_fragment ?fs" "fragments_text ?fs = batch_text b"
    by (auto simp: list_all_iff user_fragment_def stream_not_system fragments_text_def batch_text_def comp_def case_prod_unfold)
  show "\<exists>st'. append_log cfg now b st = Inr st' \<and> log_inv cfg utf8 (src @ batch_text b) st'" if "utf8 \<longrightarrow> short_runs (src @ batch_text b)"
    using appendFragmentsTx_spec [OF inv fs(1), of now now] that by (auto simp: append_log_def fs(2))
  show "\<exists>st'. replace_log cfg now d st = Inr st' \<and> log_inv cfg utf8 d st'" if "utf8 \<longrightarrow> short_runs d"
    using replaceLogSnapshotTx_spec [OF inv combined_not_system that, of now now]
    by (auto simp: replace_log_def)
qed

text \<open>The columns of a row that was just inserted.\<close>

definition empty_log :: job_log where
  "empty_log = \<lparr>logs_text = [], logs_expired = False, logs_truncated = False,
     log_next_sequence = 1, log_source_bytes = 0, log_chunks = []\<rparr>"

lemma log_inv_empty: "log_inv cfg utf8 [] empty_log"
  using normalized_MaxBytes [of cfg]
  by (simp add: log_inv_def log_content_def empty_log_def MinLogMaxBytes_def)

lemma run_writes_inv:
  "all_texts (\<lambda>s. utf8 \<longrightarrow> short_runs s) [] ws \<Longrightarrow>
     \<exists>l. run_writes (append_log cfg) (replace_log cfg) ws empty_log = Inr l \<and> log_inv cfg utf8 (written_text [] ws) l"
  by (rule job_text.run_writes_holds [OF log_inv_empty])

subsection \<open>Properties\<close>

text \<open>C7: Whatever sequence of appended batches of stdout, stderr and combined fragments and of snapshot replacements, at
  any times, a new job's log receives, every write succeeds and the stored chunks stay within the configured maximum. A log is
  truncated only if the text written is longer than that maximum. While it is not truncated the chunks are exactly the text
  written; once it is, they are a first part of that text of at most 64 KiB, the truncation marker, and a last part within
  the remaining budget, which do not overlap. If the texts are UTF-8 (never four continuation bytes in a row), the first part has
  at least 64 KiB less three bytes and the last part at least the maximum less 128 KiB.\<close>

theorem log_writes_keep_text:
  "\<exists>l. run_writes (append_log cfg) (replace_log cfg) ws empty_log = Inr l
     \<and> int (chunk_bytes (log_chunks l)) \<le> MaxBytes (normalizeLogConfig cfg)
     \<and> (if logs_truncated l
        then MaxBytes (normalizeLogConfig cfg) < int (length (written_text [] ws))
          \<and> abridged (all_texts short_runs [] ws) (MaxBytes (normalizeLogConfig cfg) - 128 * 1024) (tail_budget cfg) (written_text [] ws) (log_chunks l)
        else chunk_text (log_chunks l) = written_text [] ws)"
proof -
  have "all_texts (\<lambda>s. all_texts short_runs [] ws \<longrightarrow> short_runs s) [] ws"
    by (cases "all_texts short_runs [] ws") (simp_all add: all_texts_True)
  from run_writes_inv [OF this, of cfg] show ?thesis
    by (auto simp: log_inv_def log_content_def tail_floor_def MinLogMaxBytes_def)
qed

text \<open>C38: Reading a log back page by page returns all of what is stored, so an untruncated log is
  returned exactly as it was written.\<close>

theorem full_log_reads_back:
  assumes "written_text [] ws \<noteq> []"
  shows "\<exists>l. run_writes (append_log cfg) (replace_log cfg) ws empty_log = Inr l
     \<and> ReadFullLog cfg l =
         (if logs_truncated l then chunk_text (log_chunks l) else written_text [] ws, False, logs_truncated l)"
  using run_writes_inv [of False ws cfg] ReadFullLog_text [OF _ assms, of cfg False] all_texts_True [of "\<lambda>s. False \<longrightarrow> short_runs s" "[]" ws]
  by (fastforce simp: log_inv_def log_content_def)

theorem full_log_reads_back_witness:
  "\<exists>l. run_writes (append_log DefaultLogConfig) (replace_log DefaultLogConfig)
        [Append ''t0'' [(Stdout, ''a''), (Stderr, ''b'')], Snapshot ''t1'' ''abc''] empty_log = Inr l
     \<and> ReadFullLog DefaultLogConfig l =
         (if logs_truncated l then chunk_text (log_chunks l)
          else written_text [] [Append ''t0'' [(Stdout, ''a''), (Stderr, ''b'')], Snapshot ''t1'' ''abc''], False, logs_truncated l)"
  by (rule full_log_reads_back) simp

text \<open>Splitting log data into chunks loses nothing, every chunk is non-empty and within the
  limit, and no chunk starts inside a UTF-8 encoded character when the data is UTF-8 (starts with
  a character and has at most three continuation bytes in a row).\<close>

lemma split_is_lossless_and_rune_safe:
  assumes "4 \<le> m" and "s \<noteq> []" and "rune_start (hd s)" and "short_runs s"
  shows "concat (splitLogData s m) = s
     \<and> list_all (\<lambda>p. p \<noteq> [] \<and> length p \<le> m \<and> rune_start (hd p)) (splitLogData s m)"
  using assms concat_splitLogData splitLogData_parts [of m _ s] splitLogData_rune_starts [of m s]
  by (simp add: list_all_iff)

text \<open>The preview column never exceeds its bound; short data is kept whole, and of longer data
  a first and a last part are kept around the preview marker.\<close>

lemma preview_is_bounded:
  "length (BoundedLogPreview d) \<le> LogPreviewMaxBytes
     \<and> (if length d \<le> LogPreviewMaxBytes then BoundedLogPreview d = d
        else \<exists>h t. BoundedLogPreview d = h @ logPreviewMarker @ t \<and> prefix h d \<and> suffix t d)"
proof (cases "length d \<le> LogPreviewMaxBytes")
  case True
  then show ?thesis by (simp add: BoundedLogPreview_def)
next
  case False
  then obtain n m where "BoundedLogPreview d = safePrefixBytes d n @ logPreviewMarker @ safeSuffixBytes d m"
    by (simp add: BoundedLogPreview_def Let_def)
  with False length_BoundedLogPreview [of d] safePrefixBytes_prefix [of d n] safeSuffixBytes_suffix [of d m]
  show ?thesis by auto
qed

end
