(* ===== verification/Jobs.thy ===== *)
theory Jobs
  imports JobLogs
begin

section \<open>Jobs: the persisted job state machine\<close>

text \<open>
  The model of \<open>internal/jobs/jobs.go\<close> and \<open>internal/jobs/approval.go\<close>. The table \<open>jobs\<close>
  is a list of rows in insertion order; a row is the record of its columns together with
  its log (theory \<open>JobLogs\<close>). The repository's SQL statements are functions on the table
  with the conditions of their \<open>WHERE\<close> clauses; a manager operation returns its result,
  the new table and the callbacks it makes in order. The callbacks of \<open>ManagerOptions\<close>
  are taken to be set. The clock is the argument \<open>now\<close>, already formatted, and fresh
  identifiers are arguments.
\<close>

subsection \<open>Constants\<close>

abbreviation KindUpdate :: string where "KindUpdate \<equiv> ''update''"
abbreviation KindAutoremove :: string where "KindAutoremove \<equiv> ''autoremove''"
abbreviation KindAptRepair :: string where "KindAptRepair \<equiv> ''apt_repair''"
abbreviation KindReboot :: string where "KindReboot \<equiv> ''reboot''"
abbreviation KindSudoersEnable :: string where "KindSudoersEnable \<equiv> ''sudoers_enable''"
abbreviation KindSudoersDisable :: string where "KindSudoersDisable \<equiv> ''sudoers_disable''"

abbreviation StatusQueued :: string where "StatusQueued \<equiv> ''queued''"
abbreviation StatusRunning :: string where "StatusRunning \<equiv> ''running''"
abbreviation StatusWaitingApproval :: string where "StatusWaitingApproval \<equiv> ''waiting_approval''"
abbreviation StatusSucceeded :: string where "StatusSucceeded \<equiv> ''succeeded''"
abbreviation StatusFailed :: string where "StatusFailed \<equiv> ''failed''"
abbreviation StatusCancelled :: string where "StatusCancelled \<equiv> ''cancelled''"
abbreviation StatusInterrupted :: string where "StatusInterrupted \<equiv> ''interrupted''"

abbreviation PhaseDial :: string where "PhaseDial \<equiv> ''dial''"
abbreviation PhasePrechecks :: string where "PhasePrechecks \<equiv> ''prechecks''"
abbreviation PhaseAptUpdate :: string where "PhaseAptUpdate \<equiv> ''apt_update''"
abbreviation PhaseApprovalWait :: string where "PhaseApprovalWait \<equiv> ''approval_wait''"
abbreviation PhaseAptUpgrade :: string where "PhaseAptUpgrade \<equiv> ''apt_upgrade''"
abbreviation PhasePostchecks :: string where "PhasePostchecks \<equiv> ''postchecks''"
abbreviation PhaseAutoremove :: string where "PhaseAutoremove \<equiv> ''autoremove''"
abbreviation PhaseReconcile :: string where "PhaseReconcile \<equiv> ''reconcile''"
abbreviation PhaseReboot :: string where "PhaseReboot \<equiv> ''reboot''"
abbreviation PhaseVerify :: string where "PhaseVerify \<equiv> ''verify''"
abbreviation PhaseApply :: string where "PhaseApply \<equiv> ''apply''"
abbreviation PhaseComplete :: string where "PhaseComplete \<equiv> ''complete''"

abbreviation ReconciliationRequired :: string where
  "ReconciliationRequired \<equiv> ''reconciliation_required''"

subsection \<open>Data\<close>

text \<open>
  \<open>IntentKind\<close> is a string type with these constants; \<open>IntentOther\<close> stands for the other
  strings, the empty zero value among them.
\<close>

datatype intent_kind =
    IntentStart | IntentAdvance | IntentWaitForApproval | IntentResumeAfterApproval
  | IntentSucceed | IntentFail | IntentCancel | IntentInterrupt | IntentAmendProgress
  | IntentReplaceMetadata | IntentOther string

record job_record =
  jID :: string
  jKind :: string
  jParentJobID :: string
  jServerName :: string
  jActor :: string
  jClientIP :: string
  jStatus :: string
  jPhase :: string
  jSummary :: string
  jLogsText :: string
  jErrorClass :: string
  jRetryPolicyJSON :: string
  jMetaJSON :: string
  jCreatedAt :: string
  jUpdatedAt :: string
  jStartedAt :: string
  jFinishedAt :: string
  jLogsExpired :: bool
  jLogsTruncated :: bool
  jRevision :: int
  jLogReplacement :: "string option"
  jLogAppend :: string

record intent =
  iKind :: intent_kind
  iStatus :: "string option"
  iPhase :: "string option"
  iSummary :: "string option"
  iLogsText :: "string option"
  iAppendLog :: string
  iErrorClass :: "string option"
  iMetaJSON :: "string option"

record create_params =
  pKind :: string
  pParentJobID :: string
  pServerName :: string
  pActor :: string
  pClientIP :: string
  pStatus :: string
  pPhase :: string
  pSummary :: string
  pLogsText :: string
  pErrorClass :: string
  pRetryPolicyJSON :: string
  pMetaJSON :: string

datatype job_error = ErrTransitionConflict string | ErrNoRows | ErrStore string

type_synonym job_row = "job_record \<times> job_log"
type_synonym job_table = "job_row list"

datatype job_event =
    Notify string
  | NotifyLog string string log_chunk  \<comment> \<open>server, job, chunk\<close>
  | NotifyLogReset string string
  | SyncRuntime job_record
  | SyncInterruptedServer "string list"

subsection \<open>Statuses and transitions\<close>

definition isTerminalStatus :: "string \<Rightarrow> bool" where
  "isTerminalStatus status \<longleftrightarrow> status = StatusSucceeded \<or> status = StatusFailed
     \<or> status = StatusCancelled \<or> status = StatusInterrupted"

definition ActiveStatuses :: "string list" where
  "ActiveStatuses = [StatusQueued, StatusRunning, StatusWaitingApproval]"

definition validTransition :: "string \<Rightarrow> string \<Rightarrow> bool" where
  "validTransition from to \<longleftrightarrow>
     (if from = to then True
      else if from = StatusQueued then to = StatusRunning \<or> isTerminalStatus to
      else if from = StatusRunning then to = StatusWaitingApproval \<or> isTerminalStatus to
      else if from = StatusWaitingApproval then to = StatusRunning \<or> isTerminalStatus to
      else False)"

definition transitionStatus :: "string \<Rightarrow> intent \<Rightarrow> string" where
  "transitionStatus current i =
     (case iKind i of
        IntentStart \<Rightarrow> StatusRunning
      | IntentResumeAfterApproval \<Rightarrow> StatusRunning
      | IntentWaitForApproval \<Rightarrow> StatusWaitingApproval
      | IntentSucceed \<Rightarrow> StatusSucceeded
      | IntentFail \<Rightarrow> StatusFailed
      | IntentCancel \<Rightarrow> StatusCancelled
      | IntentInterrupt \<Rightarrow> StatusInterrupted
      | _ \<Rightarrow> (case iStatus i of Some s \<Rightarrow> trim_space s | None \<Rightarrow> current))"

definition set_phase :: "intent \<Rightarrow> job_record \<Rightarrow> job_record" where
  "set_phase i next = (case iPhase i of Some p \<Rightarrow> next\<lparr>jPhase := trim_space p\<rparr> | None \<Rightarrow> next)"

definition set_texts :: "intent \<Rightarrow> job_record \<Rightarrow> job_record" where
  "set_texts i next =
     next\<lparr>jSummary := (case iSummary i of Some s \<Rightarrow> trim_space s | None \<Rightarrow> jSummary next),
       jErrorClass := (case iErrorClass i of Some e \<Rightarrow> trim_space e | None \<Rightarrow> jErrorClass next),
       jMetaJSON := (case iMetaJSON i of Some m \<Rightarrow> trim_space m | None \<Rightarrow> jMetaJSON next)\<rparr>"

definition set_logs :: "intent \<Rightarrow> job_record \<Rightarrow> job_record" where
  "set_logs i next =
     (let next = (case iLogsText i of
                    Some l \<Rightarrow> next\<lparr>jLogsText := l, jLogReplacement := Some l\<rparr> | None \<Rightarrow> next)
      in if iAppendLog i \<noteq> []
         then next\<lparr>jLogsText := jLogsText next @ iAppendLog i, jLogAppend := iAppendLog i\<rparr>
         else next)"

definition set_started :: "string \<Rightarrow> string \<Rightarrow> job_record \<Rightarrow> job_record" where
  "set_started now target next =
     (if target = StatusRunning \<and> jStartedAt next = [] then next\<lparr>jStartedAt := now\<rparr> else next)"

definition set_waiting :: "string \<Rightarrow> job_record \<Rightarrow> job_record" where
  "set_waiting target next =
     (if target = StatusWaitingApproval then next\<lparr>jPhase := PhaseApprovalWait\<rparr> else next)"

definition set_finished :: "string \<Rightarrow> string \<Rightarrow> job_record \<Rightarrow> job_record" where
  "set_finished now target next =
     (if isTerminalStatus target then next\<lparr>jPhase := PhaseComplete, jFinishedAt := now\<rparr> else next)"

definition apply_fields :: "string \<Rightarrow> string \<Rightarrow> job_record \<Rightarrow> intent \<Rightarrow> job_record" where
  "apply_fields now target current i =
     set_finished now target (set_waiting target (set_started now target
       (set_texts i (set_logs i (set_phase i
         (current\<lparr>jStatus := target, jUpdatedAt := now, jRevision := jRevision current + 1\<rparr>))))))"

definition applyIntent ::
  "string \<Rightarrow> job_record \<Rightarrow> intent \<Rightarrow> (job_error, job_record \<times> bool) result" where
  "applyIntent now current i =
     (let target = transitionStatus (jStatus current) i in
      if isTerminalStatus (jStatus current) then
        (if target = jStatus current then Inr (current, True)
         else Inl (ErrTransitionConflict
           (''terminal job '' @ jStatus current @ '' cannot become '' @ target)))
      else if \<not> validTransition (jStatus current) target then
        Inl (ErrTransitionConflict (jStatus current @ '' cannot become '' @ target))
      else Inr (apply_fields now target current i, False))"

subsection \<open>The repository\<close>

definition truncateString :: "string \<Rightarrow> nat \<Rightarrow> string" where
  "truncateString s maxLen =
     (if maxLen = 0 then []
      else let runes = go_runes (trim_space s) in
        if length runes \<le> maxLen then concat runes else concat (take maxLen runes))"

fun find_row :: "job_table \<Rightarrow> string \<Rightarrow> job_row option" where
  "find_row [] i = None"
| "find_row (r # rs) i = (if jID (fst r) = i then Some r else find_row rs i)"

definition update_row :: "string \<Rightarrow> (job_row \<Rightarrow> job_row) \<Rightarrow> job_table \<Rightarrow> job_table" where
  "update_row i f t = map (\<lambda>r. if jID (fst r) = i then f r else r) t"

text \<open>The record that \<open>SELECT\<close> scans from a row.\<close>

definition row_record :: "job_row \<Rightarrow> job_record" where
  "row_record r = (fst r)\<lparr>jLogsText := logs_text (snd r), jLogsExpired := logs_expired (snd r),
     jLogsTruncated := logs_truncated (snd r), jLogReplacement := None, jLogAppend := []\<rparr>"

definition repo_Get :: "job_table \<Rightarrow> string \<Rightarrow> (job_error, job_record) result" where
  "repo_Get t i = (case find_row t i of None \<Rightarrow> Inl ErrNoRows | Some r \<Rightarrow> Inr (row_record r))"

definition repo_Create ::
  "log_config \<Rightarrow> string \<Rightarrow> job_record \<Rightarrow> job_table \<Rightarrow> (job_error, job_table) result" where
  "repo_Create cfg now rec t =
     (if find_row t (jID rec) \<noteq> None then Inl (ErrStore ''UNIQUE constraint failed: jobs.id'')
      else case replaceLogSnapshotTx cfg now (jLogsText rec) LogStreamCombined (jUpdatedAt rec) empty_log of
        Inl e \<Rightarrow> Inl (ErrStore e)
      | Inr (w, l) \<Rightarrow> Inr (t @ [(rec, l)]))"

definition repo_Upsert ::
  "log_config \<Rightarrow> string \<Rightarrow> job_record \<Rightarrow> job_table \<Rightarrow> (job_error, job_table) result" where
  "repo_Upsert cfg now rec t =
     (let old = find_row t (jID rec);
          l0 = (case old of None \<Rightarrow> empty_log | Some r \<Rightarrow> snd r);
          rec' = (case old of None \<Rightarrow> rec | Some r \<Rightarrow> rec\<lparr>jCreatedAt := jCreatedAt (fst r)\<rparr>)
      in case replaceLogSnapshotTx cfg now (jLogsText rec) LogStreamCombined (jUpdatedAt rec) l0 of
           Inl e \<Rightarrow> Inl (ErrStore e)
         | Inr (w, l) \<Rightarrow> Inr (if old = None then t @ [(rec', l)]
                             else update_row (jID rec) (\<lambda>_. (rec', l)) t))"

definition transition_columns :: "job_record \<Rightarrow> job_record \<Rightarrow> job_record" where
  "transition_columns rec old = old\<lparr>jStatus := jStatus rec, jPhase := jPhase rec,
     jSummary := jSummary rec, jErrorClass := jErrorClass rec, jMetaJSON := jMetaJSON rec,
     jUpdatedAt := jUpdatedAt rec, jStartedAt := jStartedAt rec, jFinishedAt := jFinishedAt rec,
     jRevision := jRevision rec\<rparr>"

definition write_log ::
  "log_config \<Rightarrow> string \<Rightarrow> job_record \<Rightarrow> job_log \<Rightarrow> (string, log_write_result \<times> job_log) result" where
  "write_log cfg now rec l =
     (case jLogReplacement rec of
        Some d \<Rightarrow> replaceLogSnapshotTx cfg now d LogStreamCombined (jUpdatedAt rec) l
      | None \<Rightarrow>
          if jLogAppend rec \<noteq> []
          then appendFragmentsTx cfg now [\<lparr>fStream = LogStreamCombined, fData = jLogAppend rec\<rparr>]
                 (jUpdatedAt rec) l
          else Inr (\<lparr>wChunks = [], wReset = False\<rparr>, l))"

text \<open>
  The compare-and-swap of a transition: \<^const>\<open>None\<close> when no row was affected, otherwise
  the write result for the log events and the new table.
\<close>

definition applyTransitionWithLogResult ::
  "log_config \<Rightarrow> string \<Rightarrow> job_record \<Rightarrow> int \<Rightarrow> bool \<Rightarrow> job_table
    \<Rightarrow> (job_error, (log_write_result \<times> job_table) option) result" where
  "applyTransitionWithLogResult cfg now rec expectedRevision activeOnly t =
     (if trim_space (jID rec) = [] then Inr None
      else case find_row t (jID rec) of
        None \<Rightarrow> Inr None
      | Some (old, l) \<Rightarrow>
          if jRevision old = expectedRevision
            \<and> (activeOnly \<longrightarrow> jStatus old \<in> set ActiveStatuses) then
            (case write_log cfg now rec l of
               Inl e \<Rightarrow> Inl (ErrStore e)
             | Inr (w, l') \<Rightarrow>
                 Inr (Some (w, update_row (jID rec) (\<lambda>r. (transition_columns rec (fst r), l')) t)))
          else Inr None)"

definition repo_appendActiveLogFragments ::
  "log_config \<Rightarrow> string \<Rightarrow> string \<Rightarrow> log_fragment list \<Rightarrow> job_table
    \<Rightarrow> (job_error, (string \<times> log_write_result \<times> job_table) option) result" where
  "repo_appendActiveLogFragments cfg now i fragments t =
     (if trim_space i = [] \<or> fragments = [] then Inr None
      else case find_row t i of
        None \<Rightarrow> Inl ErrNoRows
      | Some (old, l) \<Rightarrow>
          if isTerminalStatus (jStatus old) then Inr None
          else (case appendFragmentsTx cfg now fragments now l of
             Inl e \<Rightarrow> Inl (ErrStore e)
           | Inr (w, l') \<Rightarrow>
               if jStatus old \<in> set ActiveStatuses
               then Inr (Some (jServerName old, w,
                 update_row i (\<lambda>r. ((fst r)\<lparr>jUpdatedAt := now, jRevision := jRevision (fst r) + 1\<rparr>, l')) t))
               else Inr None))"

text \<open>SQLite compares \<open>TEXT\<close> bytewise, which is the order of strings here.\<close>

definition later_created :: "job_row \<Rightarrow> job_row \<Rightarrow> job_row" where
  "later_created a b = (if jCreatedAt (fst a) < jCreatedAt (fst b) then b else a)"

definition repo_FindLatestActiveByServerAndKind ::
  "string \<Rightarrow> string \<Rightarrow> job_table \<Rightarrow> (job_error, job_record) result" where
  "repo_FindLatestActiveByServerAndKind serverName kind t =
     (case filter (\<lambda>r. jServerName (fst r) = serverName \<and> jKind (fst r) = kind
                      \<and> jStatus (fst r) \<in> set ActiveStatuses) t of
        [] \<Rightarrow> Inl ErrNoRows
      | r # rs \<Rightarrow> Inr (row_record (foldl later_created r rs)))"

definition repo_ListUnfinishedServerNames :: "job_table \<Rightarrow> string list" where
  "repo_ListUnfinishedServerNames t =
     map (\<lambda>r. jServerName (fst r)) (filter (\<lambda>r. jStatus (fst r) \<in> set ActiveStatuses) t)"

definition apt_kind :: "string \<Rightarrow> bool" where
  "apt_kind k \<longleftrightarrow> k = KindUpdate \<or> k = KindAutoremove \<or> k = KindAptRepair"

definition needs_reconciliation :: "job_record \<Rightarrow> bool" where
  "needs_reconciliation j \<longleftrightarrow>
     jStatus j = StatusFailed \<and> jErrorClass j = ReconciliationRequired \<and> apt_kind (jKind j)"

definition reconciliation_candidate :: "job_table \<Rightarrow> job_record \<Rightarrow> bool" where
  "reconciliation_candidate t j \<longleftrightarrow>
     needs_reconciliation j
     \<and> \<not> list_ex (\<lambda>r. jServerName (fst r) = jServerName j \<and> apt_kind (jKind (fst r))
           \<and> jStatus (fst r) = StatusSucceeded \<and> jCreatedAt j < jCreatedAt (fst r)) t
     \<and> \<not> list_ex (\<lambda>r. jServerName (fst r) = jServerName j \<and> needs_reconciliation (fst r)
           \<and> jCreatedAt j < jCreatedAt (fst r)) t"

definition repo_ListReconciliationRequired :: "job_table \<Rightarrow> job_record list" where
  "repo_ListReconciliationRequired t =
     map row_record (rev (sort_key (\<lambda>r. jCreatedAt (fst r))
       (rev (filter (\<lambda>r. reconciliation_candidate t (fst r)) t))))"

definition mutating_phase :: "job_record \<Rightarrow> bool" where
  "mutating_phase j \<longleftrightarrow>
     (jKind j = KindUpdate \<and> jPhase j = PhaseAptUpgrade)
     \<or> (jKind j = KindAutoremove \<and> jPhase j = PhaseAutoremove)
     \<or> (jKind j = KindAptRepair \<and> jPhase j = PhaseReconcile)"

definition close_row :: "string \<Rightarrow> string \<Rightarrow> string \<Rightarrow> string \<Rightarrow> job_row \<Rightarrow> job_row" where
  "close_row status summary errorClass now r =
     ((fst r)\<lparr>jStatus := status, jPhase := PhaseComplete, jSummary := summary,
        jErrorClass := errorClass, jFinishedAt := now, jUpdatedAt := now,
        jRevision := jRevision (fst r) + 1\<rparr>, snd r)"

definition repo_MarkUnfinishedInterrupted :: "string \<Rightarrow> job_table \<Rightarrow> job_table" where
  "repo_MarkUnfinishedInterrupted now t =
     map (\<lambda>r. if jStatus (fst r) \<in> set ActiveStatuses
              then close_row StatusInterrupted ''Interrupted during restart recovery'' ''restart'' now r
              else r)
       (map (\<lambda>r. if jStatus (fst r) = StatusRunning \<and> mutating_phase (fst r)
                 then close_row StatusFailed ''APT reconciliation required after restart interruption''
                        ReconciliationRequired now r
                 else r) t)"

text \<open>
  \<open>COALESCE(NULLIF(finished_at, ''), updated_at, created_at)\<close>; the columns are never null.
\<close>

definition log_reference :: "job_record \<Rightarrow> string" where
  "log_reference j = (if jFinishedAt j = [] then jUpdatedAt j else jFinishedAt j)"

definition purgeable :: "string \<Rightarrow> job_row \<Rightarrow> bool" where
  "purgeable cutoff r \<longleftrightarrow> isTerminalStatus (jStatus (fst r))
     \<and> log_reference (fst r) \<le> cutoff \<and> \<not> logs_expired (snd r)"

definition repo_PurgeExpiredLogs :: "string \<Rightarrow> job_table \<Rightarrow> nat \<times> job_table" where
  "repo_PurgeExpiredLogs cutoff t =
     (length (filter (purgeable cutoff) t),
      map (\<lambda>r. if purgeable cutoff r
               then (fst r, (snd r)\<lparr>logs_text := [], logs_expired := True, log_chunks := []\<rparr>)
               else r) t)"

definition migrate_row :: "log_config \<Rightarrow> string \<Rightarrow> string \<Rightarrow> job_row \<Rightarrow> (job_error, job_row) result" where
  "migrate_row cfg now cutoff r =
     (if log_chunks (snd r) \<noteq> [] then Inr r
      else if isTerminalStatus (jStatus (fst r)) \<and> log_reference (fst r) \<le> cutoff then
        Inr (fst r, (snd r)\<lparr>logs_text := [], logs_expired := True\<rparr>)
      else if logs_text (snd r) = [] then Inr r
      else case replaceLogSnapshotTx cfg now (logs_text (snd r)) LogStreamCombined now (snd r) of
             Inl e \<Rightarrow> Inl (ErrStore e)
           | Inr (w, l) \<Rightarrow> Inr (fst r, l))"

text \<open>Each row is its own transaction: an error keeps the rows already migrated.\<close>

fun repo_migrateLegacyLogs ::
  "log_config \<Rightarrow> string \<Rightarrow> string \<Rightarrow> job_table \<Rightarrow> job_error option \<times> job_table" where
  "repo_migrateLegacyLogs cfg now cutoff [] = (None, [])"
| "repo_migrateLegacyLogs cfg now cutoff (r # rs) =
     (case migrate_row cfg now cutoff r of
        Inl e \<Rightarrow> (Some e, r # rs)
      | Inr r' \<Rightarrow> (case repo_migrateLegacyLogs cfg now cutoff rs of (e, rs') \<Rightarrow> (e, r' # rs')))"

definition RenameServerTx :: "string \<Rightarrow> string \<Rightarrow> job_table \<Rightarrow> (job_error, job_table) result" where
  "RenameServerTx oldServerName newServerName t =
     (let old = trim_space oldServerName; new = trim_space newServerName in
      if old = [] \<or> new = [] then Inl (ErrStore ''job rename requires both server names'')
      else Inr (map (\<lambda>r. if jServerName (fst r) = old then ((fst r)\<lparr>jServerName := new\<rparr>, snd r) else r) t))"

subsection \<open>The manager\<close>

type_synonym 'a manager = "(job_error, 'a) result \<times> job_table \<times> job_event list"

definition or_default :: "string \<Rightarrow> string \<Rightarrow> string" where
  "or_default d s = (if trim_space s = [] then d else s)"

definition new_record :: "string \<Rightarrow> string \<Rightarrow> create_params \<Rightarrow> job_record" where
  "new_record now newID p =
     (let status = trim_space (or_default StatusQueued (pStatus p));
          rec = \<lparr>jID = newID, jKind = trim_space (pKind p), jParentJobID = trim_space (pParentJobID p),
            jServerName = trim_space (pServerName p),
            jActor = trim_space (or_default ''unknown'' (pActor p)),
            jClientIP = truncateString (trim_space (pClientIP p)) 128,
            jStatus = status, jPhase = trim_space (pPhase p), jSummary = trim_space (pSummary p),
            jLogsText = pLogsText p, jErrorClass = trim_space (pErrorClass p),
            jRetryPolicyJSON = or_default ''{}'' (pRetryPolicyJSON p),
            jMetaJSON = or_default ''{}'' (pMetaJSON p), jCreatedAt = now, jUpdatedAt = now,
            jStartedAt = [], jFinishedAt = [], jLogsExpired = False, jLogsTruncated = False,
            jRevision = 0, jLogReplacement = None, jLogAppend = []\<rparr>;
          rec = (if status = StatusRunning then rec\<lparr>jStartedAt := now\<rparr> else rec)
      in if isTerminalStatus status then rec\<lparr>jPhase := PhaseComplete, jFinishedAt := now\<rparr> else rec)"

definition CreateJob ::
  "log_config \<Rightarrow> string \<Rightarrow> string \<Rightarrow> create_params \<Rightarrow> job_table \<Rightarrow> job_record manager" where
  "CreateJob cfg now newID p t =
     (let rec = new_record now newID p in
      case repo_Create cfg now rec t of
        Inl e \<Rightarrow> (Inl e, t, [])
      | Inr t' \<Rightarrow> (Inr rec, t', [Notify ''job.create'']))"

definition sync_event :: "job_table \<Rightarrow> string \<Rightarrow> job_event list" where
  "sync_event t i = (case repo_Get t i of Inl e \<Rightarrow> [] | Inr rec \<Rightarrow> [SyncRuntime rec])"

definition ImportJobRecord ::
  "log_config \<Rightarrow> string \<Rightarrow> string \<Rightarrow> job_record \<Rightarrow> job_table \<Rightarrow> unit manager" where
  "ImportJobRecord cfg now newID r t =
     (let rec = r\<lparr>jID := or_default newID (jID r), jCreatedAt := or_default now (jCreatedAt r),
            jUpdatedAt := now, jActor := or_default ''unknown'' (jActor r),
            jRetryPolicyJSON := or_default ''{}'' (jRetryPolicyJSON r),
            jMetaJSON := or_default ''{}'' (jMetaJSON r)\<rparr>
      in case repo_Upsert cfg now rec t of
           Inl e \<Rightarrow> (Inl e, t, [])
         | Inr t' \<Rightarrow> (Inr (), t', sync_event t' (jID rec) @ [Notify ''job.upsert'']))"

definition log_events :: "string \<Rightarrow> string \<Rightarrow> log_write_result \<Rightarrow> job_event list" where
  "log_events i serverName w =
     (if trim_space serverName = [] then []
      else if wReset w then [NotifyLogReset serverName i]
      else map (NotifyLog serverName i) (wChunks w))"

definition AppendActiveLogFragments ::
  "log_config \<Rightarrow> string \<Rightarrow> string \<Rightarrow> log_fragment list \<Rightarrow> job_table \<Rightarrow> bool manager" where
  "AppendActiveLogFragments cfg now i fragments t =
     (if trim_space i = [] \<or> fragments = [] then (Inr False, t, [])
      else case repo_appendActiveLogFragments cfg now i fragments t of
        Inl e \<Rightarrow> (Inl e, t, [])
      | Inr None \<Rightarrow> (Inr False, t, [])
      | Inr (Some (serverName, w, t')) \<Rightarrow>
          (let evs = log_events i serverName w
           in (Inr True, t', if evs \<noteq> [] then evs else [Notify ''job.log''])))"

text \<open>
  A transition reads the job in one database operation and writes it in another. The
  request carries what the read produced: the new record, the revision it was computed
  from and whether the job must still be active.
\<close>

record cas_request =
  rNext :: job_record
  rExpected :: int
  rActiveOnly :: bool

definition transition_read ::
  "string \<Rightarrow> string \<Rightarrow> intent \<Rightarrow> bool \<Rightarrow> job_table \<Rightarrow> (job_error, cas_request option) result" where
  "transition_read now i intnt activeOnly t =
     (if trim_space i = [] then Inr None
      else bind_result (repo_Get t i) (\<lambda>current.
        if activeOnly \<and> isTerminalStatus (jStatus current) then Inr None
        else bind_result (applyIntent now current intnt) (\<lambda>(next, alreadyApplied).
          if alreadyApplied then Inr None
          else Inr (Some \<lparr>rNext = next, rExpected = jRevision current, rActiveOnly = activeOnly\<rparr>))))"

definition cas_write ::
  "log_config \<Rightarrow> string \<Rightarrow> cas_request \<Rightarrow> job_table
    \<Rightarrow> (job_error, (log_write_result \<times> job_table) option) result" where
  "cas_write cfg now q = applyTransitionWithLogResult cfg now (rNext q) (rExpected q) (rActiveOnly q)"

definition transition ::
  "log_config \<Rightarrow> string \<Rightarrow> string \<Rightarrow> intent \<Rightarrow> bool \<Rightarrow> job_table \<Rightarrow> bool manager" where
  "transition cfg now i intnt activeOnly t =
     (case transition_read now i intnt activeOnly t of
        Inl e \<Rightarrow> (Inl e, t, [])
      | Inr None \<Rightarrow> (Inr False, t, [])
      | Inr (Some q) \<Rightarrow>
          (case cas_write cfg now q t of
             Inl e \<Rightarrow> (Inl e, t, [])
           | Inr None \<Rightarrow>
               (if activeOnly then Inr False
                else Inl (ErrTransitionConflict ''job state transition conflict''), t, [])
           | Inr (Some (w, t')) \<Rightarrow>
               (Inr True, t',
                (if activeOnly \<or> (iKind intnt \<noteq> IntentResumeAfterApproval \<and> iKind intnt \<noteq> IntentCancel)
                 then sync_event t' i else [])
                @ log_events i (jServerName (rNext q)) w @ [Notify ''job.update''])))"

abbreviation no_intent :: intent where
  "no_intent \<equiv> \<lparr>iKind = IntentOther [], iStatus = None, iPhase = None, iSummary = None,
     iLogsText = None, iAppendLog = [], iErrorClass = None, iMetaJSON = None\<rparr>"

abbreviation transition_conflict :: job_error where
  "transition_conflict \<equiv> ErrTransitionConflict ''job state transition conflict''"

definition resolve_intent :: "bool \<Rightarrow> string \<Rightarrow> intent" where
  "resolve_intent cancelled summary =
     no_intent\<lparr>iKind := (if cancelled then IntentCancel else IntentResumeAfterApproval),
       iPhase := Some (if cancelled then PhaseComplete else PhaseAptUpgrade),
       iSummary := Some summary\<rparr>"

definition resolve_read ::
  "string \<Rightarrow> string \<Rightarrow> int \<Rightarrow> bool \<Rightarrow> string \<Rightarrow> job_table \<Rightarrow> (job_error, cas_request) result" where
  "resolve_read now i expectedRevision cancelled summary t =
     bind_result (repo_Get t i) (\<lambda>current.
       if jStatus current \<noteq> StatusWaitingApproval \<or> jRevision current \<noteq> expectedRevision
       then Inl transition_conflict
       else bind_result (applyIntent now current (resolve_intent cancelled summary))
            (\<lambda>(next, _). Inr \<lparr>rNext = next, rExpected = expectedRevision, rActiveOnly = True\<rparr>))"

definition ResolvePendingApproval ::
  "log_config \<Rightarrow> string \<Rightarrow> string \<Rightarrow> int \<Rightarrow> bool \<Rightarrow> string \<Rightarrow> job_table \<Rightarrow> job_record manager" where
  "ResolvePendingApproval cfg now i expectedRevision cancelled summary t =
     (case resolve_read now i expectedRevision cancelled summary t of
        Inl e \<Rightarrow> (Inl e, t, [])
      | Inr q \<Rightarrow>
          (case cas_write cfg now q t of
             Inl e \<Rightarrow> (Inl e, t, [])
           | Inr None \<Rightarrow> (Inl transition_conflict, t, [])
           | Inr (Some (w, t')) \<Rightarrow> (Inr (rNext q), t', [Notify ''job.update''])))"

text \<open>
  \<open>meta\<close> is the rewriting of the metadata JSON by the approval generation and the plan
  facts, \<^const>\<open>None\<close> when no generation is given; the JSON text itself is not modelled.
\<close>

definition wait_intent :: "string \<Rightarrow> string option \<Rightarrow> string option \<Rightarrow> intent" where
  "wait_intent appendLog replacementLogs raw =
     no_intent\<lparr>iKind := IntentWaitForApproval, iSummary := Some ''Waiting for approval'',
       iAppendLog := appendLog, iLogsText := replacementLogs, iMetaJSON := raw\<rparr>"

definition commit_read ::
  "string \<Rightarrow> string \<Rightarrow> string \<Rightarrow> string option \<Rightarrow> (string \<Rightarrow> string) option \<Rightarrow> job_table
    \<Rightarrow> (job_error, cas_request) result" where
  "commit_read now i appendLog replacementLogs meta t =
     bind_result (repo_Get t i) (\<lambda>current.
       if jKind current \<noteq> KindUpdate
          \<or> (jStatus current \<noteq> StatusRunning \<and> jStatus current \<noteq> StatusWaitingApproval)
       then Inl transition_conflict
       else bind_result (applyIntent now current
              (wait_intent appendLog replacementLogs (map_option (\<lambda>f. f (jMetaJSON current)) meta)))
            (\<lambda>(next, _). Inr \<lparr>rNext = next, rExpected = jRevision current, rActiveOnly = True\<rparr>))"

definition commitPendingApproval ::
  "log_config \<Rightarrow> string \<Rightarrow> string \<Rightarrow> string \<Rightarrow> string option \<Rightarrow> (string \<Rightarrow> string) option
    \<Rightarrow> job_table \<Rightarrow> job_record manager" where
  "commitPendingApproval cfg now i appendLog replacementLogs meta t =
     (case commit_read now i appendLog replacementLogs meta t of
        Inl e \<Rightarrow> (Inl e, t, [])
      | Inr q \<Rightarrow>
          (case cas_write cfg now q t of
             Inl e \<Rightarrow> (Inl e, t, [])
           | Inr None \<Rightarrow> (Inl transition_conflict, t, [])
           | Inr (Some (w, t')) \<Rightarrow>
               (Inr (rNext q), t',
                log_events i (jServerName (rNext q)) w @ [Notify ''job.update''])))"

definition FindLatestActiveJobByServerAndKind ::
  "string \<Rightarrow> string \<Rightarrow> job_table \<Rightarrow> (job_error, job_record) result" where
  "FindLatestActiveJobByServerAndKind serverName kind t =
     (let s = trim_space serverName; k = trim_space kind in
      if s = [] \<or> k = [] then Inl ErrNoRows else repo_FindLatestActiveByServerAndKind s k t)"

text \<open>The names in order of first occurrence, trimmed, without blanks and repetitions.\<close>

fun first_occurrences :: "string list \<Rightarrow> string list \<Rightarrow> string list" where
  "first_occurrences seen [] = []"
| "first_occurrences seen (n # ns) =
     (let s = trim_space n in
      if s = [] \<or> s \<in> set seen then first_occurrences seen ns
      else s # first_occurrences (s # seen) ns)"

definition MarkUnfinishedJobsInterrupted :: "string \<Rightarrow> job_table \<Rightarrow> unit manager" where
  "MarkUnfinishedJobsInterrupted now t =
     (let unfinished = repo_ListUnfinishedServerNames t in
      if unfinished = [] then (Inr (), t, [])
      else let affected = first_occurrences [] unfinished in
        (Inr (), repo_MarkUnfinishedInterrupted now t,
         (if affected \<noteq> [] then [SyncInterruptedServer affected] else []) @ [Notify ''job.update'']))"

definition RestoreReconciliationRequiredJobs :: "job_table \<Rightarrow> job_event list" where
  "RestoreReconciliationRequiredJobs t = map SyncRuntime (repo_ListReconciliationRequired t)"

subsection \<open>Concurrent runs\<close>

text \<open>
  The records that the restore of a backup imports for its own job, from
  \<open>backup_operation_lifecycle.go\<close>: the job as it was read when the restore began, with the outcome.
\<close>

datatype restore_import = RestoreCompleted string | RestoreApplyFailed | RestoreReleaseFailed

fun restore_record :: "restore_import \<Rightarrow> string \<Rightarrow> job_record \<Rightarrow> job_record" where
  "restore_record (RestoreCompleted meta) finishedAt job =
     job\<lparr>jStatus := StatusSucceeded, jPhase := PhaseComplete, jSummary := ''Backup restore completed'',
       jMetaJSON := meta, jFinishedAt := finishedAt\<rparr>"
| "restore_record RestoreApplyFailed finishedAt job =
     job\<lparr>jStatus := StatusFailed, jPhase := PhaseComplete, jSummary := ''Failed to apply backup files'',
       jErrorClass := ''apply'', jFinishedAt := finishedAt\<rparr>"
| "restore_record RestoreReleaseFailed finishedAt job =
     job\<lparr>jStatus := StatusFailed, jPhase := PhaseComplete, jSummary := ''Maintenance mode could not be cleared'',
       jErrorClass := ''maintenance_coordination'', jFinishedAt := finishedAt\<rparr>"

text \<open>
  A state of a run is the table and the requests that some caller has read and may write
  at any later time, once, several times or never. Reads and writes of different callers,
  log appends, purges, migrations of old logs, renames, restarts and the imports of restores interleave freely.
  \<open>I\<close> are the identifiers that restores import records for: an import overwrites its row whatever the revision
  and the status of the row are. A run is one of one database; a restore that replaces the database starts another run,
  from the restored table. Revisions are unbounded here, 64-bit columns in the code.
\<close>

inductive job_step ::
  "log_config \<Rightarrow> string set \<Rightarrow> job_table \<times> cas_request list \<Rightarrow> job_table \<times> cas_request list \<Rightarrow> bool"
  for cfg :: log_config and I :: "string set" where
  step_create: "now \<noteq> [] \<Longrightarrow> repo_Create cfg now (new_record now newID p) t = Inr t'
      \<Longrightarrow> job_step cfg I (t, Q) (t', Q)"
| step_read: "now \<noteq> [] \<Longrightarrow> transition_read now i intnt activeOnly t = Inr (Some q)
      \<Longrightarrow> job_step cfg I (t, Q) (t, q # Q)"
| step_resolve: "now \<noteq> [] \<Longrightarrow> resolve_read now i expectedRevision cancelled summary t = Inr q
      \<Longrightarrow> job_step cfg I (t, Q) (t, q # Q)"
| step_commit: "now \<noteq> [] \<Longrightarrow> commit_read now i appendLog replacementLogs meta t = Inr q
      \<Longrightarrow> job_step cfg I (t, Q) (t, q # Q)"
| step_write: "q \<in> set Q \<Longrightarrow> cas_write cfg now q t = Inr (Some (w, t')) \<Longrightarrow> job_step cfg I (t, Q) (t', Q)"
| step_append: "repo_appendActiveLogFragments cfg now i fragments t = Inr (Some (srv, w, t'))
      \<Longrightarrow> job_step cfg I (t, Q) (t', Q)"
| step_restart: "now \<noteq> [] \<Longrightarrow> job_step cfg I (t, Q) (repo_MarkUnfinishedInterrupted now t, Q)"
| step_purge: "job_step cfg I (t, Q) (snd (repo_PurgeExpiredLogs cutoff t), Q)"
| step_migrate: "job_step cfg I (t, Q) (snd (repo_migrateLegacyLogs cfg now cutoff t), Q)"
| step_rename: "RenameServerTx old new t = Inr t' \<Longrightarrow> job_step cfg I (t, Q) (t', Q)"
| step_import: "finishedAt \<noteq> [] \<Longrightarrow> or_default newID (jID job) \<in> I
      \<Longrightarrow> ImportJobRecord cfg now newID (restore_record outcome finishedAt job) t = (Inr (), t', evs)
      \<Longrightarrow> job_step cfg I (t, Q) (t', Q)"

inductive_cases job_stepE [elim!]: "job_step cfg I (t, Q) (t', Q')"

definition record_ok :: "job_record \<Rightarrow> bool" where
  "record_ok j \<longleftrightarrow>
     (isTerminalStatus (jStatus j) \<longrightarrow> jPhase j = PhaseComplete \<and> jFinishedAt j \<noteq> [])
     \<and> (\<not> isTerminalStatus (jStatus j) \<longrightarrow> jFinishedAt j = [])
     \<and> (jStatus j = StatusRunning \<longrightarrow> jStartedAt j \<noteq> [])"

text \<open>How one job may change: what a reader of a row relies on about its later versions.\<close>

definition evolves :: "job_record \<Rightarrow> job_record \<Rightarrow> bool" where
  "evolves j j' \<longleftrightarrow>
     jID j' = jID j \<and> jKind j' = jKind j \<and> jCreatedAt j' = jCreatedAt j
     \<and> jRevision j \<le> jRevision j'
     \<and> (jRevision j = jRevision j' \<or> isTerminalStatus (jStatus j) \<longrightarrow>
          j' = j\<lparr>jServerName := jServerName j'\<rparr>)"

definition table_evolves :: "string set \<Rightarrow> job_table \<Rightarrow> job_table \<Rightarrow> bool" where
  "table_evolves I t t' \<longleftrightarrow>
     (\<forall>i j l. find_row t i = Some (j, l) \<longrightarrow>
        (\<exists>j' l'. find_row t' i = Some (j', l') \<and> (i \<in> I \<or> evolves j j')))"

definition request_ok :: "string set \<Rightarrow> job_table \<Rightarrow> cas_request \<Rightarrow> bool" where
  "request_ok I t q \<longleftrightarrow>
     record_ok (rNext q) \<and> jRevision (rNext q) = rExpected q + 1
     \<and> (jID (rNext q) \<in> I \<or> (\<exists>j l. find_row t (jID (rNext q)) = Some (j, l) \<and> rExpected q \<le> jRevision j
          \<and> (jRevision j = rExpected q \<longrightarrow> \<not> isTerminalStatus (jStatus j)
               \<and> validTransition (jStatus j) (jStatus (rNext q)))))"

definition table_ok :: "job_table \<Rightarrow> bool" where
  "table_ok t \<longleftrightarrow> distinct (map (\<lambda>r. jID (fst r)) t) \<and> list_all (\<lambda>r. record_ok (fst r)) t"

definition run_ok :: "string set \<Rightarrow> job_table \<times> cas_request list \<Rightarrow> bool" where
  "run_ok I s \<longleftrightarrow> table_ok (fst s) \<and> list_all (request_ok I (fst s)) (snd s)"

subsection \<open>Lemmas on rows\<close>

lemma find_row_id: "find_row t i = Some r \<Longrightarrow> jID (fst r) = i"
  by (induction t) (auto split: if_splits)

lemma find_row_mem: "find_row t i = Some r \<Longrightarrow> r \<in> set t"
  by (induction t) (auto split: if_splits)

lemma find_row_None: "find_row t i = None \<longleftrightarrow> i \<notin> (\<lambda>r. jID (fst r)) ` set t"
  by (induction t) auto

lemma find_row_append: "find_row (t @ u) i = (case find_row t i of None \<Rightarrow> find_row u i | Some r \<Rightarrow> Some r)"
  by (induction t) auto

lemma find_row_map:
  assumes "\<And>r. jID (fst (f r)) = jID (fst r)"
  shows "find_row (map f t) i = map_option f (find_row t i)"
  using assms by (induction t) auto

lemma find_row_distinct:
  "distinct (map (\<lambda>r. jID (fst r)) t) \<Longrightarrow> r \<in> set t \<Longrightarrow> find_row t (jID (fst r)) = Some r"
  by (induction t) auto

lemma find_row_update_row:
  assumes "\<And>r. jID (fst r) = i \<Longrightarrow> jID (fst (f r)) = i"
  shows "find_row (update_row i f t) k = (if k = i then map_option f (find_row t i) else find_row t k)"
  using assms by (induction t) (auto simp: update_row_def)

lemma evolves_refl [simp]: "evolves j j"
  by (simp add: evolves_def)

lemma terminal_not_active: "isTerminalStatus s \<Longrightarrow> s \<notin> set ActiveStatuses"
  by (auto simp: isTerminalStatus_def ActiveStatuses_def)

lemma terminal_status_simps [simp]:
  "isTerminalStatus StatusSucceeded" "isTerminalStatus StatusFailed"
  "isTerminalStatus StatusCancelled" "isTerminalStatus StatusInterrupted"
  "\<not> isTerminalStatus StatusRunning" "\<not> isTerminalStatus StatusQueued"
  "\<not> isTerminalStatus StatusWaitingApproval"
  by (simp_all add: isTerminalStatus_def)

lemma validTransition_terminal: "isTerminalStatus s \<Longrightarrow> validTransition s s' \<longleftrightarrow> s' = s"
  by (auto simp: isTerminalStatus_def validTransition_def)

lemma evolves_trans:
  assumes "evolves a b" "evolves b c"
  shows "evolves a c"
proof -
  have same: "c = a\<lparr>jServerName := jServerName c\<rparr>"
    if "b = a\<lparr>jServerName := jServerName b\<rparr>" "c = b\<lparr>jServerName := jServerName c\<rparr>"
    using that by (metis job_record.surjective job_record.update_convs(4))
  show ?thesis
  proof (cases "isTerminalStatus (jStatus a)")
    case True
    with assms(1) have b: "b = a\<lparr>jServerName := jServerName b\<rparr>" by (simp add: evolves_def)
    then have "isTerminalStatus (jStatus b)" using True by (metis job_record.select_convs(7) job_record.surjective job_record.update_convs(4))
    with assms(2) have "c = b\<lparr>jServerName := jServerName c\<rparr>" by (simp add: evolves_def)
    with b same assms show ?thesis by (auto simp: evolves_def)
  next
    case False
    show ?thesis
    proof (cases "jRevision a = jRevision c")
      case True
      with assms have "jRevision a = jRevision b" "jRevision b = jRevision c" by (auto simp: evolves_def)
      with assms same show ?thesis by (auto simp: evolves_def)
    next
      case False
      with assms \<open>\<not> isTerminalStatus (jStatus a)\<close> show ?thesis by (auto simp: evolves_def)
    qed
  qed
qed

subsection \<open>Every step preserves the invariant\<close>

definition row_moves :: "job_record \<Rightarrow> job_record \<Rightarrow> bool" where
  "row_moves j j' \<longleftrightarrow> evolves j j' \<and> validTransition (jStatus j) (jStatus j')"

definition table_moves :: "string set \<Rightarrow> job_table \<Rightarrow> job_table \<Rightarrow> bool" where
  "table_moves I t t' \<longleftrightarrow>
     (\<forall>i j l. find_row t i = Some (j, l) \<longrightarrow> (\<exists>j' l'. find_row t' i = Some (j', l') \<and> (i \<in> I \<or> row_moves j j')))"

lemma validTransition_refl [simp]: "validTransition s s"
  by (simp add: validTransition_def)

lemma row_moves_refl [simp]: "row_moves j j"
  by (simp add: row_moves_def)

lemma table_moves_refl [simp]: "table_moves I t t"
  by (auto simp: table_moves_def)

lemma table_moves_evolves: "table_moves I t t' \<Longrightarrow> table_evolves I t t'"
  unfolding table_moves_def table_evolves_def row_moves_def by blast

lemma table_evolves_refl: "table_evolves I t t"
  by (auto simp: table_evolves_def)

lemma table_evolves_trans: "table_evolves I a b \<Longrightarrow> table_evolves I b c \<Longrightarrow> table_evolves I a c"
  unfolding table_evolves_def by (meson evolves_trans)

lemma table_okD:
  assumes "table_ok t" "find_row t i = Some (j, l)"
  shows "record_ok j"
  using assms find_row_mem [OF assms(2)] by (auto simp: table_ok_def list_all_iff)

lemma map_step:
  assumes ok: "table_ok t"
    and f: "\<And>r. r \<in> set t \<Longrightarrow> (row_moves (fst r) (fst (f r)) \<or> jID (fst r) \<in> I \<and> jID (fst (f r)) = jID (fst r)) \<and> record_ok (fst (f r))"
  shows "table_ok (map f t) \<and> table_moves I t (map f t)"
proof -
  have ids: "r \<in> set t \<Longrightarrow> jID (fst (f r)) = jID (fst r)" for r
    using f [of r] by (auto simp: row_moves_def evolves_def)
  then have eq: "map (\<lambda>r. jID (fst r)) (map f t) = map (\<lambda>r. jID (fst r)) t" by simp
  have "table_ok (map f t)"
    unfolding table_ok_def eq using ok f by (auto simp: table_ok_def list_all_iff)
  moreover have find: "find_row (map f t) i = map_option f (find_row t i)" for i
    using ids by (induction t) auto
  have "table_moves I t (map f t)"
    unfolding table_moves_def
  proof (intro allI impI)
    fix i j l assume row: "find_row t i = Some (j, l)"
    with f [OF find_row_mem [OF row]] find [of i] find_row_id [OF row]
    show "\<exists>j' l'. find_row (map f t) i = Some (j', l') \<and> (i \<in> I \<or> row_moves j j')"
      by (cases "f (j, l)") auto
  qed
  ultimately show ?thesis by simp
qed

lemma update_step:
  assumes ok: "table_ok t" and row: "find_row t i = Some (j, l)"
    and f: "(row_moves j (fst (f (j, l))) \<or> i \<in> I \<and> jID (fst (f (j, l))) = i) \<and> record_ok (fst (f (j, l)))"
  shows "table_ok (update_row i f t) \<and> table_moves I t (update_row i f t)"
  unfolding update_row_def
proof (rule map_step [OF ok])
  fix r assume r: "r \<in> set t"
  show "(row_moves (fst r) (fst (if jID (fst r) = i then f r else r))
          \<or> jID (fst r) \<in> I \<and> jID (fst (if jID (fst r) = i then f r else r)) = jID (fst r))
        \<and> record_ok (fst (if jID (fst r) = i then f r else r))"
  proof (cases "jID (fst r) = i")
    case True
    with r ok row have "r = (j, l)" using find_row_distinct [of t r] by (auto simp: table_ok_def)
    with True f show ?thesis by simp
  next
    case False
    with r ok show ?thesis by (auto simp: table_ok_def list_all_iff)
  qed
qed

lemma request_ok_evolves:
  assumes q: "request_ok I t q" and ev: "table_evolves I t t'"
  shows "request_ok I t' q"
proof (cases "jID (rNext q) \<in> I")
  case False
  from q False obtain j l where row: "find_row t (jID (rNext q)) = Some (j, l)" "rExpected q \<le> jRevision j"
      and st: "jRevision j = rExpected q \<longrightarrow> \<not> isTerminalStatus (jStatus j)
         \<and> validTransition (jStatus j) (jStatus (rNext q))"
    by (auto simp: request_ok_def)
  with ev False obtain j' l' where row': "find_row t' (jID (rNext q)) = Some (j', l')" and e: "evolves j j'"
    unfolding table_evolves_def by blast
  have "jStatus j' = jStatus j \<and> jRevision j = rExpected q" if "jRevision j' = rExpected q"
  proof -
    from that e row(2) have "jRevision j = jRevision j'" by (auto simp: evolves_def)
    with e have "j' = j\<lparr>jServerName := jServerName j'\<rparr>" by (simp add: evolves_def)
    from arg_cong [OF this, of jStatus] that \<open>jRevision j = jRevision j'\<close> show ?thesis by simp
  qed
  moreover have "rExpected q \<le> jRevision j'" using e row(2) by (auto simp: evolves_def)
  ultimately show ?thesis using q st row' by (auto simp: request_ok_def)
qed (use q in \<open>simp add: request_ok_def\<close>)

lemma row_record_fields [simp]:
  "jID (row_record r) = jID (fst r)" "jStatus (row_record r) = jStatus (fst r)"
  "jRevision (row_record r) = jRevision (fst r)" "jFinishedAt (row_record r) = jFinishedAt (fst r)"
  "jStartedAt (row_record r) = jStartedAt (fst r)" "jPhase (row_record r) = jPhase (fst r)"
  "jKind (row_record r) = jKind (fst r)" "jServerName (row_record r) = jServerName (fst r)"
  "jMetaJSON (row_record r) = jMetaJSON (fst r)" "jErrorClass (row_record r) = jErrorClass (fst r)"
  "jCreatedAt (row_record r) = jCreatedAt (fst r)" "jLogsText (row_record r) = logs_text (snd r)"
  by (simp_all add: row_record_def)

lemma record_ok_row_record [simp]: "record_ok (row_record r) = record_ok (fst r)"
  by (simp add: record_ok_def)

lemma set_phase_keeps [simp]:
  "jID (set_phase i j) = jID j"
  "jKind (set_phase i j) = jKind j"
  "jParentJobID (set_phase i j) = jParentJobID j"
  "jServerName (set_phase i j) = jServerName j"
  "jActor (set_phase i j) = jActor j"
  "jClientIP (set_phase i j) = jClientIP j"
  "jStatus (set_phase i j) = jStatus j"
  "jSummary (set_phase i j) = jSummary j"
  "jLogsText (set_phase i j) = jLogsText j"
  "jErrorClass (set_phase i j) = jErrorClass j"
  "jRetryPolicyJSON (set_phase i j) = jRetryPolicyJSON j"
  "jMetaJSON (set_phase i j) = jMetaJSON j"
  "jCreatedAt (set_phase i j) = jCreatedAt j"
  "jUpdatedAt (set_phase i j) = jUpdatedAt j"
  "jStartedAt (set_phase i j) = jStartedAt j"
  "jFinishedAt (set_phase i j) = jFinishedAt j"
  "jLogsExpired (set_phase i j) = jLogsExpired j"
  "jLogsTruncated (set_phase i j) = jLogsTruncated j"
  "jRevision (set_phase i j) = jRevision j"
  "jLogReplacement (set_phase i j) = jLogReplacement j"
  "jLogAppend (set_phase i j) = jLogAppend j"
  by (simp_all add: set_phase_def split: option.split)

lemma set_texts_keeps [simp]:
  "jID (set_texts i j) = jID j"
  "jKind (set_texts i j) = jKind j"
  "jParentJobID (set_texts i j) = jParentJobID j"
  "jServerName (set_texts i j) = jServerName j"
  "jActor (set_texts i j) = jActor j"
  "jClientIP (set_texts i j) = jClientIP j"
  "jStatus (set_texts i j) = jStatus j"
  "jPhase (set_texts i j) = jPhase j"
  "jLogsText (set_texts i j) = jLogsText j"
  "jRetryPolicyJSON (set_texts i j) = jRetryPolicyJSON j"
  "jCreatedAt (set_texts i j) = jCreatedAt j"
  "jUpdatedAt (set_texts i j) = jUpdatedAt j"
  "jStartedAt (set_texts i j) = jStartedAt j"
  "jFinishedAt (set_texts i j) = jFinishedAt j"
  "jLogsExpired (set_texts i j) = jLogsExpired j"
  "jLogsTruncated (set_texts i j) = jLogsTruncated j"
  "jRevision (set_texts i j) = jRevision j"
  "jLogReplacement (set_texts i j) = jLogReplacement j"
  "jLogAppend (set_texts i j) = jLogAppend j"
  by (simp_all add: set_texts_def)

lemma set_logs_keeps [simp]:
  "jID (set_logs i j) = jID j"
  "jKind (set_logs i j) = jKind j"
  "jParentJobID (set_logs i j) = jParentJobID j"
  "jServerName (set_logs i j) = jServerName j"
  "jActor (set_logs i j) = jActor j"
  "jClientIP (set_logs i j) = jClientIP j"
  "jStatus (set_logs i j) = jStatus j"
  "jPhase (set_logs i j) = jPhase j"
  "jSummary (set_logs i j) = jSummary j"
  "jErrorClass (set_logs i j) = jErrorClass j"
  "jRetryPolicyJSON (set_logs i j) = jRetryPolicyJSON j"
  "jMetaJSON (set_logs i j) = jMetaJSON j"
  "jCreatedAt (set_logs i j) = jCreatedAt j"
  "jUpdatedAt (set_logs i j) = jUpdatedAt j"
  "jStartedAt (set_logs i j) = jStartedAt j"
  "jFinishedAt (set_logs i j) = jFinishedAt j"
  "jLogsExpired (set_logs i j) = jLogsExpired j"
  "jLogsTruncated (set_logs i j) = jLogsTruncated j"
  "jRevision (set_logs i j) = jRevision j"
  by (simp_all add: set_logs_def Let_def split: option.split)

lemma set_started_keeps [simp]:
  "jID (set_started now target j) = jID j"
  "jKind (set_started now target j) = jKind j"
  "jParentJobID (set_started now target j) = jParentJobID j"
  "jServerName (set_started now target j) = jServerName j"
  "jActor (set_started now target j) = jActor j"
  "jClientIP (set_started now target j) = jClientIP j"
  "jStatus (set_started now target j) = jStatus j"
  "jPhase (set_started now target j) = jPhase j"
  "jSummary (set_started now target j) = jSummary j"
  "jLogsText (set_started now target j) = jLogsText j"
  "jErrorClass (set_started now target j) = jErrorClass j"
  "jRetryPolicyJSON (set_started now target j) = jRetryPolicyJSON j"
  "jMetaJSON (set_started now target j) = jMetaJSON j"
  "jCreatedAt (set_started now target j) = jCreatedAt j"
  "jUpdatedAt (set_started now target j) = jUpdatedAt j"
  "jFinishedAt (set_started now target j) = jFinishedAt j"
  "jLogsExpired (set_started now target j) = jLogsExpired j"
  "jLogsTruncated (set_started now target j) = jLogsTruncated j"
  "jRevision (set_started now target j) = jRevision j"
  "jLogReplacement (set_started now target j) = jLogReplacement j"
  "jLogAppend (set_started now target j) = jLogAppend j"
  by (simp_all add: set_started_def)

lemma set_waiting_keeps [simp]:
  "jID (set_waiting target j) = jID j"
  "jKind (set_waiting target j) = jKind j"
  "jParentJobID (set_waiting target j) = jParentJobID j"
  "jServerName (set_waiting target j) = jServerName j"
  "jActor (set_waiting target j) = jActor j"
  "jClientIP (set_waiting target j) = jClientIP j"
  "jStatus (set_waiting target j) = jStatus j"
  "jSummary (set_waiting target j) = jSummary j"
  "jLogsText (set_waiting target j) = jLogsText j"
  "jErrorClass (set_waiting target j) = jErrorClass j"
  "jRetryPolicyJSON (set_waiting target j) = jRetryPolicyJSON j"
  "jMetaJSON (set_waiting target j) = jMetaJSON j"
  "jCreatedAt (set_waiting target j) = jCreatedAt j"
  "jUpdatedAt (set_waiting target j) = jUpdatedAt j"
  "jStartedAt (set_waiting target j) = jStartedAt j"
  "jFinishedAt (set_waiting target j) = jFinishedAt j"
  "jLogsExpired (set_waiting target j) = jLogsExpired j"
  "jLogsTruncated (set_waiting target j) = jLogsTruncated j"
  "jRevision (set_waiting target j) = jRevision j"
  "jLogReplacement (set_waiting target j) = jLogReplacement j"
  "jLogAppend (set_waiting target j) = jLogAppend j"
  by (simp_all add: set_waiting_def)

lemma set_finished_keeps [simp]:
  "jID (set_finished now target j) = jID j"
  "jKind (set_finished now target j) = jKind j"
  "jParentJobID (set_finished now target j) = jParentJobID j"
  "jServerName (set_finished now target j) = jServerName j"
  "jActor (set_finished now target j) = jActor j"
  "jClientIP (set_finished now target j) = jClientIP j"
  "jStatus (set_finished now target j) = jStatus j"
  "jSummary (set_finished now target j) = jSummary j"
  "jLogsText (set_finished now target j) = jLogsText j"
  "jErrorClass (set_finished now target j) = jErrorClass j"
  "jRetryPolicyJSON (set_finished now target j) = jRetryPolicyJSON j"
  "jMetaJSON (set_finished now target j) = jMetaJSON j"
  "jCreatedAt (set_finished now target j) = jCreatedAt j"
  "jUpdatedAt (set_finished now target j) = jUpdatedAt j"
  "jStartedAt (set_finished now target j) = jStartedAt j"
  "jLogsExpired (set_finished now target j) = jLogsExpired j"
  "jLogsTruncated (set_finished now target j) = jLogsTruncated j"
  "jRevision (set_finished now target j) = jRevision j"
  "jLogReplacement (set_finished now target j) = jLogReplacement j"
  "jLogAppend (set_finished now target j) = jLogAppend j"
  by (simp_all add: set_finished_def)

lemma apply_fields_simps [simp]:
  "jID (apply_fields now target j i) = jID j"
  "jStatus (apply_fields now target j i) = target"
  "jRevision (apply_fields now target j i) = jRevision j + 1"
  "jServerName (apply_fields now target j i) = jServerName j"
  "jKind (apply_fields now target j i) = jKind j"
  "jUpdatedAt (apply_fields now target j i) = now"
  by (simp_all add: apply_fields_def)

lemma apply_fields_times [simp]:
  "jFinishedAt (apply_fields now target j i) = (if isTerminalStatus target then now else jFinishedAt j)"
  "jStartedAt (apply_fields now target j i) =
     (if target = StatusRunning \<and> jStartedAt j = [] then now else jStartedAt j)"
  by (simp_all add: apply_fields_def set_finished_def set_started_def)

lemma apply_fields_phase [simp]:
  "jPhase (apply_fields now target j i) =
     (if isTerminalStatus target then PhaseComplete
      else if target = StatusWaitingApproval then PhaseApprovalWait
      else case iPhase i of Some p \<Rightarrow> trim_space p | None \<Rightarrow> jPhase j)"
  by (simp add: apply_fields_def set_finished_def set_waiting_def set_phase_def split: option.split)

lemma apply_fields_logs [simp]:
  "jLogReplacement (apply_fields now target j i) =
     (case iLogsText i of Some l \<Rightarrow> Some l | None \<Rightarrow> jLogReplacement j)"
  "jLogAppend (apply_fields now target j i) = (if iAppendLog i \<noteq> [] then iAppendLog i else jLogAppend j)"
  by (simp_all add: apply_fields_def set_logs_def Let_def split: option.split)

lemma applyIntent_Inr:
  assumes "applyIntent now j i = Inr (j', False)"
  shows "\<not> isTerminalStatus (jStatus j)" "validTransition (jStatus j) (transitionStatus (jStatus j) i)"
    "j' = apply_fields now (transitionStatus (jStatus j) i) j i"
  using assms by (auto simp: applyIntent_def Let_def split: if_splits)

lemma record_ok_apply_fields:
  assumes "record_ok j" "\<not> isTerminalStatus (jStatus j)" "now \<noteq> []"
  shows "record_ok (apply_fields now target j i)"
  using assms by (simp add: record_ok_def)

lemma request_ok_read:
  assumes ok: "table_ok t" and row: "find_row t k = Some r" and now: "now \<noteq> []"
    and a: "applyIntent now (row_record r) i = Inr (j', False)"
  shows "request_ok I t \<lparr>rNext = j', rExpected = jRevision (fst r), rActiveOnly = b\<rparr>"
proof -
  note a' = applyIntent_Inr [OF a]
  obtain j l where r: "r = (j, l)" by (cases r)
  have "record_ok (row_record r)" using table_okD [OF ok] row r by simp
  with a' now have "record_ok j'" by (auto intro!: record_ok_apply_fields)
  with a' row find_row_id [OF row] r show ?thesis
    by (auto simp: request_ok_def)
qed

lemma repo_Get_Inr: "repo_Get t i = Inr j \<longleftrightarrow> (\<exists>r. find_row t i = Some r \<and> j = row_record r)"
  by (auto simp: repo_Get_def split: option.splits)

lemma not_applied_unless_terminal:
  "applyIntent now j i = Inr (j', b) \<Longrightarrow> \<not> isTerminalStatus (jStatus j) \<Longrightarrow> \<not> b"
  by (auto simp: applyIntent_def Let_def split: if_splits)

lemma request_ok_intent:
  assumes "table_ok t" "now \<noteq> []" "find_row t k = Some r" "applyIntent now (row_record r) i = Inr (j', b)"
    "\<not> b \<or> \<not> isTerminalStatus (jStatus (fst r))"
  shows "request_ok I t \<lparr>rNext = j', rExpected = jRevision (fst r), rActiveOnly = ao\<rparr>"
proof -
  have "\<not> b" using assms(5) not_applied_unless_terminal [OF assms(4)] by auto
  with assms(4) have "applyIntent now (row_record r) i = Inr (j', False)" by simp
  from request_ok_read [OF assms(1,3,2) this] show ?thesis .
qed

lemma bind_prod_Inr:
  "bind_result m (\<lambda>(x, y). f x y) = Inr v \<longleftrightarrow> (\<exists>x y. m = Inr (x, y) \<and> f x y = Inr v)"
  by (cases m) auto

lemma repo_Get_bind:
  "bind_result (repo_Get t i) f = Inr v \<longleftrightarrow> (\<exists>r. find_row t i = Some r \<and> f (row_record r) = Inr v)"
  by (auto simp: repo_Get_def split: option.splits)

lemma transition_read_ok:
  assumes ok: "table_ok t" "now \<noteq> []" and read: "transition_read now i intnt ao t = Inr (Some q)"
  shows "request_ok I t q"
proof -
  from read have "bind_result (repo_Get t i) (\<lambda>current.
        if ao \<and> isTerminalStatus (jStatus current) then Inr None
        else bind_result (applyIntent now current intnt) (\<lambda>(next, alreadyApplied).
          if alreadyApplied then Inr None
          else Inr (Some \<lparr>rNext = next, rExpected = jRevision current, rActiveOnly = ao\<rparr>))) = Inr (Some q)"
    unfolding transition_read_def by (simp split: if_splits)
  then obtain r where r: "find_row t i = Some r"
      and b: "bind_result (applyIntent now (row_record r) intnt) (\<lambda>(next, alreadyApplied).
          if alreadyApplied then Inr None
          else Inr (Some \<lparr>rNext = next, rExpected = jRevision (row_record r), rActiveOnly = ao\<rparr>)) = Inr (Some q)"
    unfolding repo_Get_bind by (auto split: if_splits)
  from b obtain j' where a: "applyIntent now (row_record r) intnt = Inr (j', False)"
      and q: "q = \<lparr>rNext = j', rExpected = jRevision (row_record r), rActiveOnly = ao\<rparr>"
    unfolding bind_prod_Inr by (auto split: if_splits)
  from request_ok_intent [OF ok r a] q show ?thesis by simp
qed

lemma resolve_read_ok:
  assumes ok: "table_ok t" "now \<noteq> []" and read: "resolve_read now i e c s t = Inr q"
  shows "request_ok I t q"
proof -
  from read obtain r where r: "find_row t i = Some r"
      and st: "jStatus (fst r) = StatusWaitingApproval" "jRevision (fst r) = e"
      and b: "bind_result (applyIntent now (row_record r) (resolve_intent c s))
         (\<lambda>(next, _). Inr \<lparr>rNext = next, rExpected = e, rActiveOnly = True\<rparr>) = Inr q"
    unfolding resolve_read_def repo_Get_bind by (auto split: if_splits)
  from b obtain j' b' where a: "applyIntent now (row_record r) (resolve_intent c s) = Inr (j', b')"
      and q: "q = \<lparr>rNext = j', rExpected = e, rActiveOnly = True\<rparr>"
    unfolding bind_prod_Inr by auto
  from request_ok_intent [OF ok r a] q st show ?thesis by simp
qed

lemma commit_read_ok:
  assumes ok: "table_ok t" "now \<noteq> []" and read: "commit_read now i al rl m t = Inr q"
  shows "request_ok I t q"
proof -
  let ?w = "\<lambda>r. wait_intent al rl (map_option (\<lambda>f. f (jMetaJSON (row_record r))) m)"
  from read obtain r where r: "find_row t i = Some r"
      and st: "jStatus (fst r) = StatusRunning \<or> jStatus (fst r) = StatusWaitingApproval"
      and b: "bind_result (applyIntent now (row_record r) (?w r))
         (\<lambda>(next, _). Inr \<lparr>rNext = next, rExpected = jRevision (row_record r), rActiveOnly = True\<rparr>) = Inr q"
    unfolding commit_read_def repo_Get_bind by (auto split: if_splits)
  from b obtain j' b' where a: "applyIntent now (row_record r) (?w r) = Inr (j', b')"
      and q: "q = \<lparr>rNext = j', rExpected = jRevision (row_record r), rActiveOnly = True\<rparr>"
    unfolding bind_prod_Inr by auto
  have "\<not> isTerminalStatus (jStatus (fst r))" using st by auto
  with request_ok_intent [OF ok r a] q show ?thesis by simp
qed

lemma transition_columns_simps [simp]:
  "jID (transition_columns r j) = jID j" "jKind (transition_columns r j) = jKind j"
  "jCreatedAt (transition_columns r j) = jCreatedAt j" "jStatus (transition_columns r j) = jStatus r"
  "jRevision (transition_columns r j) = jRevision r" "jPhase (transition_columns r j) = jPhase r"
  "jStartedAt (transition_columns r j) = jStartedAt r" "jFinishedAt (transition_columns r j) = jFinishedAt r"
  "record_ok (transition_columns r j) = record_ok r"
  by (simp_all add: transition_columns_def record_ok_def)

lemma cas_write_Some:
  assumes "cas_write cfg now q t = Inr (Some (w, t'))"
  obtains j l l' where "find_row t (jID (rNext q)) = Some (j, l)" "jRevision j = rExpected q"
    "rActiveOnly q \<longrightarrow> jStatus j \<in> set ActiveStatuses" "write_log cfg now (rNext q) l = Inr (w, l')"
    "t' = update_row (jID (rNext q)) (\<lambda>r. (transition_columns (rNext q) (fst r), l')) t"
  using assms
  by (auto simp: cas_write_def applyTransitionWithLogResult_def split: if_splits option.splits sum.splits)

lemma cas_write_step:
  assumes ok: "table_ok t" and q: "request_ok I t q" and w: "cas_write cfg now q t = Inr (Some (w, t'))"
  shows "table_ok t' \<and> table_moves I t t'"
  using w
proof (rule cas_write_Some)
  fix j l l'
  assume row: "find_row t (jID (rNext q)) = Some (j, l)" and rev: "jRevision j = rExpected q"
    and t': "t' = update_row (jID (rNext q)) (\<lambda>r. (transition_columns (rNext q) (fst r), l')) t"
  show ?thesis
    unfolding t'
    using q row rev find_row_id [OF row] by (intro update_step [OF ok row]) (auto simp: request_ok_def row_moves_def evolves_def)
qed

lemma append_Some:
  assumes "repo_appendActiveLogFragments cfg now i fs t = Inr (Some (srv, w, t'))"
  obtains j l l' where "find_row t i = Some (j, l)" "\<not> isTerminalStatus (jStatus j)"
    "appendFragmentsTx cfg now fs now l = Inr (w, l')" "srv = jServerName j"
    "t' = update_row i (\<lambda>r. ((fst r)\<lparr>jUpdatedAt := now, jRevision := jRevision (fst r) + 1\<rparr>, l')) t"
  using assms
  by (auto simp: repo_appendActiveLogFragments_def split: if_splits option.splits sum.splits)

lemma append_step:
  assumes ok: "table_ok t" and w: "repo_appendActiveLogFragments cfg now i fs t = Inr (Some (srv, w, t'))"
  shows "table_ok t' \<and> table_moves I t t'"
  using w
proof (rule append_Some)
  fix j l l'
  assume row: "find_row t i = Some (j, l)" "\<not> isTerminalStatus (jStatus j)"
    and t': "t' = update_row i (\<lambda>r. ((fst r)\<lparr>jUpdatedAt := now, jRevision := jRevision (fst r) + 1\<rparr>, l')) t"
  show ?thesis
    unfolding t' using row(2) table_okD [OF ok row(1)]
    by (intro update_step [OF ok row(1)]) (auto simp: row_moves_def evolves_def record_ok_def)
qed

lemma active_cases: "s \<in> set ActiveStatuses \<longleftrightarrow> s = StatusQueued \<or> s = StatusRunning \<or> s = StatusWaitingApproval"
  by (auto simp: ActiveStatuses_def)

lemma close_row_moves:
  assumes "jStatus (fst r) \<in> set ActiveStatuses" "isTerminalStatus s" "now \<noteq> []"
  shows "row_moves (fst r) (fst (close_row s m e now r)) \<and> record_ok (fst (close_row s m e now r))"
proof -
  have "\<not> isTerminalStatus (jStatus (fst r))" using assms(1) terminal_not_active by blast
  moreover have "validTransition (jStatus (fst r)) s"
    using assms by (auto simp: active_cases validTransition_def)
  moreover have "s \<noteq> StatusRunning" using assms(2) by auto
  ultimately show ?thesis using assms(2,3)
    by (simp add: close_row_def row_moves_def evolves_def record_ok_def)
qed

definition recovered :: "string \<Rightarrow> job_row \<Rightarrow> job_row" where
  "recovered now r =
     (if jStatus (fst r) = StatusRunning \<and> mutating_phase (fst r)
      then close_row StatusFailed ''APT reconciliation required after restart interruption''
             ReconciliationRequired now r
      else if jStatus (fst r) \<in> set ActiveStatuses
      then close_row StatusInterrupted ''Interrupted during restart recovery'' ''restart'' now r
      else r)"

lemma repo_MarkUnfinishedInterrupted_recovered:
  "repo_MarkUnfinishedInterrupted now t = map (recovered now) t"
  by (simp add: repo_MarkUnfinishedInterrupted_def recovered_def close_row_def active_cases)

lemma restart_step:
  assumes "table_ok t" "now \<noteq> []"
  shows "table_ok (repo_MarkUnfinishedInterrupted now t) \<and> table_moves I t (repo_MarkUnfinishedInterrupted now t)"
  unfolding repo_MarkUnfinishedInterrupted_recovered
proof (rule map_step [OF assms(1)])
  fix r assume "r \<in> set t"
  then have "record_ok (fst r)" using assms(1) by (auto simp: table_ok_def list_all_iff)
  moreover have "jStatus (fst r) = StatusRunning \<Longrightarrow> jStatus (fst r) \<in> set ActiveStatuses"
    by (simp add: active_cases)
  ultimately have "row_moves (fst r) (fst (recovered now r)) \<and> record_ok (fst (recovered now r))"
    using close_row_moves [OF _ _ assms(2)] by (simp add: recovered_def)
  then show "(row_moves (fst r) (fst (recovered now r)) \<or> jID (fst r) \<in> I \<and> jID (fst (recovered now r)) = jID (fst r)) \<and> record_ok (fst (recovered now r))"
    by blast
qed

lemma purge_step:
  assumes "table_ok t"
  shows "table_ok (snd (repo_PurgeExpiredLogs c t)) \<and> table_moves I t (snd (repo_PurgeExpiredLogs c t))"
  unfolding repo_PurgeExpiredLogs_def snd_conv
  using assms by (intro map_step) (auto simp: table_ok_def list_all_iff)

lemma rename_step:
  assumes "table_ok t" "RenameServerTx old new t = Inr t'"
  shows "table_ok t' \<and> table_moves I t t'"
proof -
  let ?f = "\<lambda>r. if jServerName (fst r) = trim_space old
    then ((fst r)\<lparr>jServerName := trim_space new\<rparr>, snd r) else r :: job_row"
  have t': "t' = map ?f t" using assms(2) by (auto simp: RenameServerTx_def Let_def split: if_splits)
  show ?thesis
    unfolding t' using assms(1)
    by (intro map_step) (auto simp: table_ok_def list_all_iff row_moves_def evolves_def record_ok_def)
qed

lemma migrate_row_record: "migrate_row cfg now cutoff r = Inr r' \<Longrightarrow> fst r' = fst r"
  unfolding migrate_row_def by (auto split: if_split_asm sum.split_asm)

lemma migrate_rows: "list_all2 (\<lambda>r r'. fst r' = fst r) t (snd (repo_migrateLegacyLogs cfg now cutoff t))"
proof (induction t)
  case (Cons r t)
  show ?case
  proof (cases "migrate_row cfg now cutoff r")
    case (Inl e)
    then show ?thesis by (simp add: list_all2_same)
  next
    case (Inr r')
    then show ?thesis using Cons migrate_row_record [OF Inr] by (cases "repo_migrateLegacyLogs cfg now cutoff t") simp
  qed
qed simp

lemma same_records_step:
  assumes "table_ok t" "list_all2 (\<lambda>r r'. fst r' = fst r) t t'"
  shows "table_ok t' \<and> table_moves I t t'"
proof -
  have ids: "map (\<lambda>r. jID (fst r)) t' = map (\<lambda>r. jID (fst r)) t" and recs: "list_all (\<lambda>r. record_ok (fst r)) t' = list_all (\<lambda>r. record_ok (fst r)) t"
    using assms(2) by (induction rule: list_all2_induct) simp_all
  have found: "find_row t i = Some (j, l) \<Longrightarrow> \<exists>l'. find_row t' i = Some (j, l')" for i j l
    using assms(2)
  proof (induction rule: list_all2_induct)
    case (Cons r rs r' rs')
    then show ?case by (cases r') (auto split: if_split_asm)
  qed simp
  have "table_moves I t t'" unfolding table_moves_def
  proof (intro allI impI)
    fix i j l assume "find_row t i = Some (j, l)"
    from found [OF this] show "\<exists>j' l'. find_row t' i = Some (j', l') \<and> (i \<in> I \<or> row_moves j j')" using row_moves_refl by blast
  qed
  then show ?thesis using assms(1) by (simp add: table_ok_def ids recs)
qed

lemma restore_record_ok: "finishedAt \<noteq> [] \<Longrightarrow> record_ok (restore_record outcome finishedAt job)"
  by (cases outcome) (simp_all add: record_ok_def)

lemma import_step:
  assumes ok: "table_ok t" and rec: "record_ok r" and id: "or_default newID (jID r) \<in> I"
    and im: "ImportJobRecord cfg now newID r t = (Inr (), t', evs)"
  shows "table_ok t' \<and> table_moves I t t'"
proof -
  define rec' where "rec' = r\<lparr>jID := or_default newID (jID r), jCreatedAt := or_default now (jCreatedAt r),
            jUpdatedAt := now, jActor := or_default ''unknown'' (jActor r),
            jRetryPolicyJSON := or_default ''{}'' (jRetryPolicyJSON r), jMetaJSON := or_default ''{}'' (jMetaJSON r)\<rparr>"
  have r': "record_ok rec'" "jID rec' \<in> I" using rec id by (simp_all add: rec'_def record_ok_def)
  have up: "repo_Upsert cfg now rec' t = Inr t'" using im by (auto simp: ImportJobRecord_def Let_def rec'_def split: sum.splits)
  show ?thesis
  proof (cases "find_row t (jID rec')")
    case None
    then obtain l where t': "t' = t @ [(rec', l)]" using up by (auto simp: repo_Upsert_def Let_def split: sum.splits)
    have "jID rec' \<notin> (\<lambda>r. jID (fst r)) ` set t" using None by (simp only: find_row_None) simp
    then have "table_ok t'" using ok r'(1) by (auto simp: table_ok_def t')
    moreover have "table_moves I t t'" unfolding t' by (auto simp: table_moves_def find_row_append)
    ultimately show ?thesis by simp
  next
    case (Some old)
    obtain j l0 where old: "find_row t (jID rec') = Some (j, l0)" using Some by (cases old) simp
    then obtain l where t': "t' = update_row (jID rec') (\<lambda>_. (rec'\<lparr>jCreatedAt := jCreatedAt j\<rparr>, l)) t"
      using up by (auto simp: repo_Upsert_def Let_def split: sum.splits)
    show ?thesis unfolding t' using r' by (intro update_step [OF ok old]) (simp add: record_ok_def)
  qed
qed

lemma repo_Create_Inr:
  "repo_Create cfg now rec t = Inr t' \<Longrightarrow> find_row t (jID rec) = None \<and> (\<exists>l. t' = t @ [(rec, l)])"
  by (cases "find_row t (jID rec)") (auto simp: repo_Create_def split: sum.splits)

lemma record_ok_new_record: "now \<noteq> [] \<Longrightarrow> record_ok (new_record now newID p)"
  by (auto simp: new_record_def Let_def record_ok_def isTerminalStatus_def)

lemma create_step:
  assumes ok: "table_ok t" and now: "now \<noteq> []" and c: "repo_Create cfg now (new_record now newID p) t = Inr t'"
  shows "table_ok t' \<and> table_moves I t t'"
proof -
  from repo_Create_Inr [OF c] obtain l where new: "find_row t (jID (new_record now newID p)) = None"
      and t': "t' = t @ [(new_record now newID p, l)]" by blast
  from new have "jID (new_record now newID p) \<notin> (\<lambda>r. jID (fst r)) ` set t" by (simp only: find_row_None) simp
  with ok have "table_ok t'"
    unfolding t' using record_ok_new_record [OF now, of newID p] by (auto simp: table_ok_def)
  moreover have "table_moves I t t'" unfolding t' by (auto simp: table_moves_def find_row_append)
  ultimately show ?thesis by simp
qed

lemma job_step_ok:
  assumes "job_step cfg I s s'" "run_ok I s"
  shows "table_ok (fst s') \<and> table_moves I (fst s) (fst s')
    \<and> (\<forall>q\<in>set (snd s'). q \<in> set (snd s) \<or> request_ok I (fst s) q)"
  using assms
proof (induction rule: job_step.induct)
  case (step_create now newID p t t' Q)
  then show ?case using create_step [of t now cfg newID p t'] by (simp add: run_ok_def)
next
  case (step_read now i intnt activeOnly t q Q)
  then show ?case using transition_read_ok by (auto simp: run_ok_def)
next
  case (step_resolve now i e c s t q Q)
  then show ?case using resolve_read_ok by (auto simp: run_ok_def)
next
  case (step_commit now i a rl m t q Q)
  then show ?case using commit_read_ok by (auto simp: run_ok_def)
next
  case (step_write q Q now t w t')
  then show ?case using cas_write_step [of t I q cfg now w t'] by (auto simp: run_ok_def list_all_iff)
next
  case (step_append now i fragments t srv w t' Q)
  then show ?case using append_step [of t cfg now i fragments srv w t'] by (simp add: run_ok_def)
next
  case (step_restart now t Q)
  then show ?case using restart_step by (simp add: run_ok_def)
next
  case (step_purge t Q cutoff)
  then show ?case using purge_step by (simp add: run_ok_def)
next
  case (step_migrate t Q now cutoff)
  then show ?case using same_records_step [OF _ migrate_rows] by (simp add: run_ok_def)
next
  case (step_import finishedAt newID job now outcome t t' evs Q)
  have "or_default newID (jID (restore_record outcome finishedAt job)) \<in> I" using step_import(2) by (cases outcome) simp_all
  from import_step [OF _ restore_record_ok [OF step_import(1)] this step_import(3)] step_import(4) show ?case by (auto simp: run_ok_def)
next
  case (step_rename old new t t' Q)
  then show ?case using rename_step [of t old new t'] by (simp add: run_ok_def)
qed

lemma job_step_run_ok:
  assumes "job_step cfg I s s'" "run_ok I s"
  shows "run_ok I s' \<and> table_evolves I (fst s) (fst s')"
proof -
  note st = job_step_ok [OF assms]
  then have ev: "table_evolves I (fst s) (fst s')" by (blast intro: table_moves_evolves)
  have "request_ok I (fst s') q" if "q \<in> set (snd s')" for q
    using that st assms(2) request_ok_evolves [OF _ ev] by (auto simp: run_ok_def list_all_iff)
  with st ev show ?thesis by (simp add: run_ok_def list_all_iff)
qed

lemma job_run_ok:
  assumes "(job_step cfg I)\<^sup>*\<^sup>* s s'" "run_ok I s"
  shows "run_ok I s' \<and> table_evolves I (fst s) (fst s')"
  using assms
proof (induction rule: rtranclp_induct)
  case base
  then show ?case by (simp add: table_evolves_refl)
next
  case (step y z)
  then show ?case using job_step_run_ok table_evolves_trans by blast
qed

lemma run_ok_initial: "table_ok t \<Longrightarrow> run_ok I (t, [])"
  by (simp add: run_ok_def)

lemmas reachable_run_ok = job_run_ok [OF _ run_ok_initial]

lemma cas_write_refused:
  assumes "find_row t (jID (rNext q)) = Some (j, l)" "jRevision j \<noteq> rExpected q"
  shows "cas_write cfg now q t = Inr None"
  using assms by (simp add: cas_write_def applyTransitionWithLogResult_def)

subsection \<open>Restart recovery: lemmas\<close>

lemma recovered_not_active: "jStatus (fst (recovered now r)) \<notin> set ActiveStatuses"
  by (auto simp: recovered_def close_row_def ActiveStatuses_def)

lemma recovered_fields [simp]:
  "jID (fst (recovered now r)) = jID (fst r)" "jServerName (fst (recovered now r)) = jServerName (fst r)"
  "jKind (fst (recovered now r)) = jKind (fst r)" "jCreatedAt (fst (recovered now r)) = jCreatedAt (fst r)"
  "snd (recovered now r) = snd r"
  by (simp_all add: recovered_def close_row_def)

lemma mutating_apt_kind: "mutating_phase j \<Longrightarrow> apt_kind (jKind j)"
  by (auto simp: mutating_phase_def apt_kind_def)

lemma recovered_list:
  "list_all2 (\<lambda>r r'. snd r' = snd r \<and> jID (fst r') = jID (fst r)
     \<and> jStatus (fst r') = (if jStatus (fst r) = StatusRunning \<and> mutating_phase (fst r) then StatusFailed
          else if jStatus (fst r) \<in> set ActiveStatuses then StatusInterrupted else jStatus (fst r))
     \<and> jErrorClass (fst r') = (if jStatus (fst r) = StatusRunning \<and> mutating_phase (fst r)
          then ReconciliationRequired
          else if jStatus (fst r) \<in> set ActiveStatuses then ''restart'' else jErrorClass (fst r)))
     t (map (recovered now) t)"
  by (induction t) (simp_all add: recovered_def close_row_def)

lemma recovered_unchanged: "jStatus (fst r) \<notin> set ActiveStatuses \<Longrightarrow> recovered now r = r"
  by (auto simp: recovered_def ActiveStatuses_def)

lemma MarkUnfinishedJobsInterrupted_table:
  "fst (snd (MarkUnfinishedJobsInterrupted now t)) = map (recovered now) t"
proof (cases "repo_ListUnfinishedServerNames t = []")
  case True
  then have "\<forall>r\<in>set t. jStatus (fst r) \<notin> set ActiveStatuses"
    by (simp add: repo_ListUnfinishedServerNames_def filter_empty_conv)
  then have "map (recovered now) t = t" by (simp add: recovered_unchanged map_idI)
  with True show ?thesis by (simp add: MarkUnfinishedJobsInterrupted_def)
next
  case False
  then show ?thesis
    by (simp add: MarkUnfinishedJobsInterrupted_def Let_def repo_MarkUnfinishedInterrupted_recovered)
qed

lemma first_occurrences_set: "set (first_occurrences seen ns) = trim_space ` set ns - {[]} - set seen"
  by (induction seen ns rule: first_occurrences.induct) (auto simp: Let_def)

lemma distinct_first_occurrences: "distinct (first_occurrences seen ns)"
  by (induction seen ns rule: first_occurrences.induct) (auto simp: Let_def first_occurrences_set)

lemma recovered_candidate:
  assumes run: "jStatus (fst r) = StatusRunning" "mutating_phase (fst r)"
    and latest: "\<forall>r'\<in>set t. jServerName (fst r') = jServerName (fst r) \<and> apt_kind (jKind (fst r'))
       \<longrightarrow> jCreatedAt (fst r') \<le> jCreatedAt (fst r)"
  shows "reconciliation_candidate (map (recovered now) t) (fst (recovered now r))"
proof -
  have "needs_reconciliation (fst (recovered now r))"
    using run mutating_apt_kind [OF run(2)] by (simp add: recovered_def close_row_def needs_reconciliation_def)
  then show ?thesis using latest
    by (fastforce simp: reconciliation_candidate_def list_ex_iff needs_reconciliation_def)
qed

lemma find_recovered: "find_row (map (recovered now) t) i = map_option (recovered now) (find_row t i)"
  by (rule find_row_map) simp

lemma set_ListReconciliationRequired:
  "set (repo_ListReconciliationRequired t) = row_record ` {r \<in> set t. reconciliation_candidate t (fst r)}"
  by (simp add: repo_ListReconciliationRequired_def)

subsection \<open>The log follows the transitions: lemmas\<close>

definition logged_text :: "job_record \<Rightarrow> string \<Rightarrow> string" where
  "logged_text rec src = (case jLogReplacement rec of Some d \<Rightarrow> d | None \<Rightarrow> src @ jLogAppend rec)"

lemma write_log_holds:
  assumes "log_inv cfg False src l"
  shows "\<exists>w l'. write_log cfg now rec l = Inr (w, l') \<and> log_inv cfg False (logged_text rec src) l'"
proof (cases "jLogReplacement rec")
  case None
  then show ?thesis
    using append_one_spec [OF assms combined_not_system, of "jLogAppend rec" now "jUpdatedAt rec"] assms
    by (auto simp: write_log_def logged_text_def)
next
  case (Some d)
  then show ?thesis
    using replaceLogSnapshotTx_spec [OF assms combined_not_system, of d now "jUpdatedAt rec"]
    by (auto simp: write_log_def logged_text_def)
qed

lemma cas_write_succeeds:
  assumes "find_row t (jID (rNext q)) = Some (j, l)" "trim_space (jID (rNext q)) \<noteq> []"
    "jRevision j = rExpected q" "rActiveOnly q \<longrightarrow> jStatus j \<in> set ActiveStatuses" "log_inv cfg False src l"
  shows "\<exists>w l' t'. cas_write cfg now q t = Inr (Some (w, t'))
     \<and> find_row t' (jID (rNext q)) = Some (transition_columns (rNext q) j, l')
     \<and> log_inv cfg False (logged_text (rNext q) src) l'"
proof -
  from write_log_holds [OF assms(5)] obtain w l' where
    w: "write_log cfg now (rNext q) l = Inr (w, l')" "log_inv cfg False (logged_text (rNext q) src) l'" by blast
  have id: "jID j = jID (rNext q)" using find_row_id [OF assms(1)] by simp
  let ?t = "update_row (jID (rNext q)) (\<lambda>r. (transition_columns (rNext q) (fst r), l')) t"
  have "cas_write cfg now q t = Inr (Some (w, ?t))"
    using assms w(1) by (simp add: cas_write_def applyTransitionWithLogResult_def)
  moreover have "find_row ?t (jID (rNext q)) = Some (transition_columns (rNext q) j, l')"
    using assms(1) id by (simp add: find_row_update_row)
  ultimately show ?thesis using w(2) by blast
qed

lemma applyIntent_valid:
  "\<not> isTerminalStatus (jStatus j) \<Longrightarrow> validTransition (jStatus j) (transitionStatus (jStatus j) i) \<Longrightarrow>
     applyIntent now j i = Inr (apply_fields now (transitionStatus (jStatus j) i) j i, False)"
  by (simp add: applyIntent_def Let_def)

lemma row_record_no_log [simp]: "jLogReplacement (row_record r) = None" "jLogAppend (row_record r) = []"
  by (simp_all add: row_record_def)

lemma logged_text_apply_fields:
  "logged_text (apply_fields now target (row_record r) i) src
     = (case iLogsText i of Some d \<Rightarrow> d | None \<Rightarrow> src @ iAppendLog i)"
  by (simp add: logged_text_def split: option.split)

lemma table_unchanged_on_error:
  "fst (transition cfg now i intnt b t) \<noteq> Inr True \<Longrightarrow> fst (snd (transition cfg now i intnt b t)) = t"
  by (auto simp: transition_def split: sum.splits option.splits prod.splits)

subsection \<open>Properties\<close>

text \<open>A job waiting for approval, as it is created, and the two answers to it.\<close>

definition sample_params :: "string \<Rightarrow> create_params" where
  "sample_params status = \<lparr>pKind = KindUpdate, pParentJobID = [], pServerName = ''web'', pActor = ''ops'',
     pClientIP = [], pStatus = status, pPhase = PhaseAptUpgrade, pSummary = [], pLogsText = [],
     pErrorClass = [], pRetryPolicyJSON = [], pMetaJSON = []\<rparr>"

definition sample_table :: "string \<Rightarrow> job_table" where
  "sample_table status = [(new_record ''t0'' ''j'' (sample_params status), empty_log)]"

definition sample_answer :: "bool \<Rightarrow> cas_request" where
  "sample_answer cancelled =
     (case resolve_read ''t1'' ''j'' 0 cancelled ''answer'' (sample_table StatusWaitingApproval) of
        Inl e \<Rightarrow> undefined | Inr q \<Rightarrow> q)"

definition sample_approved :: job_table where
  "sample_approved =
     (case cas_write DefaultLogConfig ''t1'' (sample_answer False) (sample_table StatusWaitingApproval) of
        Inr (Some (w, t)) \<Rightarrow> t | _ \<Rightarrow> [])"

lemma replace_empty_log:
  "replaceLogSnapshotTx cfg now [] stream ca empty_log = Inr (\<lparr>wChunks = [], wReset = True\<rparr>, empty_log)"
  using normalized_MaxBytes [of cfg]
  by (simp add: replaceLogSnapshotTx_def appendFragmentsTx_def enforceLogLimitTx_def updateLogPreviewTx_def
      empty_log_def Let_def MinLogMaxBytes_def BoundedLogPreview_def LogPreviewMaxBytes_def)

lemma sample_created:
  "repo_Create cfg ''t0'' (new_record ''t0'' ''j'' (sample_params status)) [] = Inr (sample_table status)"
proof -
  have "jLogsText (new_record ''t0'' ''j'' (sample_params status)) = []"
    by (simp add: new_record_def Let_def sample_params_def)
  then show ?thesis by (simp add: repo_Create_def replace_empty_log sample_table_def)
qed

lemma sample_read:
  "resolve_read ''t1'' ''j'' 0 cancelled ''answer'' (sample_table StatusWaitingApproval) = Inr (sample_answer cancelled)"
  by (cases cancelled; simp; code_simp)

lemma sample_write:
  "cas_write DefaultLogConfig ''t1'' (sample_answer False) (sample_table StatusWaitingApproval)
     = Inr (Some (\<lparr>wChunks = [], wReset = False\<rparr>, sample_approved))"
  by code_simp

lemma sample_run:
  "(job_step DefaultLogConfig I)\<^sup>*\<^sup>* ([], []) (sample_table status, [])"
  "(job_step DefaultLogConfig I)\<^sup>*\<^sup>* ([], [])
     (sample_table StatusWaitingApproval, [sample_answer True, sample_answer False])"
proof -
  have create: "job_step DefaultLogConfig I ([], []) (sample_table st, [])" for st
    by (rule job_step.step_create [OF _ sample_created]) simp
  then show "(job_step DefaultLogConfig I)\<^sup>*\<^sup>* ([], []) (sample_table status, [])" by blast
  have read: "job_step DefaultLogConfig I (sample_table StatusWaitingApproval, Q)
      (sample_table StatusWaitingApproval, sample_answer c # Q)" for c Q
    by (rule job_step.step_resolve [OF _ sample_read]) simp
  from create [of StatusWaitingApproval] read
  show "(job_step DefaultLogConfig I)\<^sup>*\<^sup>* ([], [])
     (sample_table StatusWaitingApproval, [sample_answer True, sample_answer False])"
    by (meson r_into_rtranclp rtranclp.rtrancl_into_rtrancl)
qed

text \<open>A restore that fails imports its outcome for the job \<open>j\<close>.\<close>

definition sample_imported :: job_table where
  "sample_imported = fst (snd (ImportJobRecord DefaultLogConfig ''t1'' ''n''
     (restore_record RestoreApplyFailed ''t1'' (fst (hd (sample_table StatusRunning)))) (sample_table StatusRunning)))"

lemma sample_import_run: "(job_step DefaultLogConfig {''j''})\<^sup>*\<^sup>* ([], []) (sample_imported, [])"
proof -
  let ?job = "fst (hd (sample_table StatusRunning))"
  have fst: "fst (ImportJobRecord DefaultLogConfig ''t1'' ''n'' (restore_record RestoreApplyFailed ''t1'' ?job) (sample_table StatusRunning)) = Inr ()"
    by code_simp
  have id: "or_default ''n'' (jID ?job) \<in> {''j''}" by code_simp
  have "job_step DefaultLogConfig {''j''} (sample_table StatusRunning, []) (sample_imported, [])"
    by (rule job_step.step_import [where newID = "''n''" and now = "''t1''" and outcome = RestoreApplyFailed and finishedAt = "''t1''" and job = ?job])
      (use fst id in \<open>simp_all add: sample_imported_def prod_eq_iff\<close>)
  with sample_run(1) show ?thesis by (rule rtranclp.rtrancl_into_rtrancl)
qed

lemma empty_table_ok: "table_ok []"
  by (simp add: table_ok_def)

text \<open>C1: From any consistent table, in every state that any interleaving of the job operations of one database reaches
  (creating, reading and writing transitions and approvals, appending and purging logs, migrating old ones, renaming servers,
  restart recovery and the imports of restores), job identifiers are
  unique, a job has a finish time exactly when its status is terminal, a terminal job is in
  phase \<open>complete\<close>, and a running job has a start time.\<close>

theorem reachable_jobs_consistent:
  assumes "table_ok t0" and "(job_step cfg I)\<^sup>*\<^sup>* (t0, []) (t, Q)"
  shows "distinct (map (\<lambda>r. jID (fst r)) t) \<and> (\<forall>r \<in> set t. record_ok (fst r))"
  using job_run_ok [OF assms(2) run_ok_initial [OF assms(1)]] by (simp add: run_ok_def table_ok_def list_all_iff)

theorem reachable_jobs_consistent_witness:
  "distinct (map (\<lambda>r. jID (fst r)) sample_imported) \<and> list_all (\<lambda>r. record_ok (fst r)) sample_imported"
  using reachable_jobs_consistent [OF empty_table_ok sample_import_run] unfolding list_all_iff .







text \<open>C34: Restart recovery leaves no unfinished job. A job that was running in a phase that
  changes packages becomes failed with class \<open>reconciliation_required\<close>, every other unfinished
  job becomes interrupted, finished jobs and all logs keep their state, and the callback receives
  each affected server once.\<close>

theorem restart_recovery:
  "case MarkUnfinishedJobsInterrupted now t of (res, t', evs) \<Rightarrow>
     res = Inr () \<and> repo_ListUnfinishedServerNames t' = []
     \<and> list_all2 (\<lambda>r r'. snd r' = snd r \<and> jID (fst r') = jID (fst r)
         \<and> jStatus (fst r') = (if jStatus (fst r) = StatusRunning \<and> mutating_phase (fst r) then StatusFailed
              else if jStatus (fst r) \<in> set ActiveStatuses then StatusInterrupted else jStatus (fst r))
         \<and> jErrorClass (fst r') = (if jStatus (fst r) = StatusRunning \<and> mutating_phase (fst r)
              then ReconciliationRequired
              else if jStatus (fst r) \<in> set ActiveStatuses then ''restart'' else jErrorClass (fst r))) t t'
     \<and> (\<exists>names. distinct names
          \<and> set names = trim_space ` set (repo_ListUnfinishedServerNames t) - {[]}
          \<and> evs = (if names = [] then [] else [SyncInterruptedServer names])
                   @ (if repo_ListUnfinishedServerNames t = [] then [] else [Notify ''job.update'']))"
proof -
  let ?m = "MarkUnfinishedJobsInterrupted now t" and ?n = "first_occurrences [] (repo_ListUnfinishedServerNames t)"
  have t': "fst (snd ?m) = map (recovered now) t" by (rule MarkUnfinishedJobsInterrupted_table)
  have "repo_ListUnfinishedServerNames (map (recovered now) t) = []"
    by (simp add: repo_ListUnfinishedServerNames_def filter_empty_conv recovered_not_active)
  moreover have "fst ?m = Inr ()" by (simp add: MarkUnfinishedJobsInterrupted_def Let_def)
  moreover have "snd (snd ?m) = (if ?n = [] then [] else [SyncInterruptedServer ?n])
      @ (if repo_ListUnfinishedServerNames t = [] then [] else [Notify ''job.update''])"
    by (simp add: MarkUnfinishedJobsInterrupted_def Let_def)
  moreover have "distinct ?n" "set ?n = trim_space ` set (repo_ListUnfinishedServerNames t) - {[]}"
    by (simp_all add: distinct_first_occurrences first_occurrences_set)
  ultimately show ?thesis using recovered_list [of t now] t'
    by (cases ?m) (auto intro!: exI [of _ ?n])
qed

lemma interrupted_row_listed:
  assumes "find_row t i = Some (j, l)" and "jStatus j = StatusRunning" and "mutating_phase j"
    and "\<forall>r\<in>set t. jServerName (fst r) = jServerName j \<and> apt_kind (jKind (fst r))
       \<longrightarrow> jCreatedAt (fst r) \<le> jCreatedAt j"
  shows "SyncRuntime (row_record (recovered now (j, l)))
    \<in> set (RestoreReconciliationRequiredJobs (fst (snd (MarkUnfinishedJobsInterrupted now t))))"
proof -
  let ?r = "recovered now (j, l)"
  have mem: "?r \<in> set (map (recovered now) t)" using find_row_mem [OF assms(1)] by simp
  have "reconciliation_candidate (map (recovered now) t) (fst ?r)"
    using assms(2-4) by (intro recovered_candidate) simp_all
  with mem have "row_record ?r \<in> set (repo_ListReconciliationRequired (map (recovered now) t))"
    by (auto simp: set_ListReconciliationRequired)
  then show ?thesis unfolding RestoreReconciliationRequiredJobs_def MarkUnfinishedJobsInterrupted_table by simp
qed

text \<open>A transition of an existing unfinished job to a status that its current status allows
  always succeeds. It stores the target status and the next revision, and the stored log then
  represents the replacement text if one is given and otherwise the previous text followed by
  the appended text.\<close>

lemma transition_stores_status_and_log:
  assumes "find_row t i = Some (j, l)" and "trim_space i \<noteq> []" and "log_inv cfg False src l"
    and "jStatus j \<in> set ActiveStatuses"
    and "validTransition (jStatus j) (transitionStatus (jStatus j) intnt)"
  shows "\<exists>t' evs j' l'. transition cfg now i intnt activeOnly t = (Inr True, t', evs)
     \<and> find_row t' i = Some (j', l') \<and> jStatus j' = transitionStatus (jStatus j) intnt
     \<and> jRevision j' = jRevision j + 1
     \<and> log_inv cfg False (case iLogsText intnt of Some d \<Rightarrow> d | None \<Rightarrow> src @ iAppendLog intnt) l'"
proof -
  let ?n = "apply_fields now (transitionStatus (jStatus j) intnt) (row_record (j, l)) intnt"
  let ?q = "\<lparr>rNext = ?n, rExpected = jRevision j, rActiveOnly = activeOnly\<rparr>"
  have id: "jID j = i" using find_row_id [OF assms(1)] by simp
  have nt: "\<not> isTerminalStatus (jStatus j)" using assms(4) terminal_not_active by blast
  have a: "applyIntent now (row_record (j, l)) intnt = Inr (?n, False)"
    using applyIntent_valid [of "row_record (j, l)" intnt now] nt assms(5) by simp
  have read: "transition_read now i intnt activeOnly t = Inr (Some ?q)"
    using assms(1,2) nt a by (simp add: transition_read_def repo_Get_def)
  have "\<exists>w l' t'. cas_write cfg now ?q t = Inr (Some (w, t'))
     \<and> find_row t' (jID (rNext ?q)) = Some (transition_columns (rNext ?q) j, l')
     \<and> log_inv cfg False (logged_text (rNext ?q) src) l'"
    using assms id by (intro cas_write_succeeds) simp_all
  then obtain w l' t' where w: "cas_write cfg now ?q t = Inr (Some (w, t'))"
      "find_row t' i = Some (transition_columns ?n j, l')" "log_inv cfg False (logged_text ?n src) l'"
    using id by auto
  then show ?thesis unfolding transition_def read logged_text_apply_fields by simp
qed

lemma resolve_refused:
  assumes "find_row t i = Some (j, l)" and "\<not> (jStatus j = StatusWaitingApproval \<and> jRevision j = expectedRevision)"
  shows "ResolvePendingApproval cfg now i expectedRevision cancelled summary t = (Inl transition_conflict, t, [])"
proof -
  have "resolve_read now i expectedRevision cancelled summary t = Inl transition_conflict"
    using assms by (auto simp: resolve_read_def repo_Get_def)
  then show ?thesis by (simp add: ResolvePendingApproval_def)
qed

lemma resolve_accepted:
  assumes "find_row t i = Some (j, l)" and "trim_space i \<noteq> []"
    and "jStatus j = StatusWaitingApproval" and "jRevision j = expectedRevision"
  shows "\<exists>n. ResolvePendingApproval cfg now i expectedRevision cancelled summary t
        = (Inr n, update_row i (\<lambda>r. (transition_columns n (fst r), l)) t, [Notify ''job.update''])
     \<and> jID n = i \<and> jRevision n = expectedRevision + 1 \<and> jStatus n = (if cancelled then StatusCancelled else StatusRunning)
     \<and> jPhase n = (if cancelled then PhaseComplete else PhaseAptUpgrade)"
proof (intro exI conjI)
  let ?i = "resolve_intent cancelled summary"
  let ?target = "if cancelled then StatusCancelled else StatusRunning"
  let ?n = "apply_fields now ?target (row_record (j, l)) ?i"
  let ?q = "\<lparr>rNext = ?n, rExpected = expectedRevision, rActiveOnly = True\<rparr>"
  have id: "jID j = i" using find_row_id [OF assms(1)] by simp
  have target: "transitionStatus (jStatus j) ?i = ?target"
    by (simp add: transitionStatus_def resolve_intent_def)
  have "applyIntent now (row_record (j, l)) ?i = Inr (?n, False)"
    using applyIntent_valid [of "row_record (j, l)" ?i now] assms(3) target
    by (simp add: validTransition_def)
  then have read: "resolve_read now i expectedRevision cancelled summary t = Inr ?q"
    using assms by (simp add: resolve_read_def repo_Get_def)
  have "write_log cfg now ?n l = Inr (\<lparr>wChunks = [], wReset = False\<rparr>, l)"
    by (simp add: write_log_def resolve_intent_def)
  then have cas: "cas_write cfg now ?q t = Inr (Some (\<lparr>wChunks = [], wReset = False\<rparr>,
      update_row i (\<lambda>r. (transition_columns ?n (fst r), l)) t))"
    using assms id by (simp add: cas_write_def applyTransitionWithLogResult_def active_cases)
  show "ResolvePendingApproval cfg now i expectedRevision cancelled summary t
      = (Inr ?n, update_row i (\<lambda>r. (transition_columns ?n (fst r), l)) t, [Notify ''job.update''])"
    unfolding ResolvePendingApproval_def read sum.case cas option.case prod.case by simp
  have "trim_space PhaseAptUpgrade = PhaseAptUpgrade" by code_simp
  then show "jPhase ?n = (if cancelled then PhaseComplete else PhaseAptUpgrade)"
    by (simp add: resolve_intent_def)
qed (use assms find_row_id [OF assms(1)] in simp_all)

text \<open>An answer to a pending approval is accepted exactly when the job is waiting for approval
  at the revision the caller saw; then the job resumes in the upgrade phase or is cancelled, its
  log untouched. Otherwise the answer is a conflict and nothing is stored.\<close>

lemma approval_answer_decides:
  assumes "find_row t i = Some (j, l)" and "trim_space i \<noteq> []"
  shows "case ResolvePendingApproval cfg now i expectedRevision cancelled summary t of (res, t', evs) \<Rightarrow>
     if jStatus j = StatusWaitingApproval \<and> jRevision j = expectedRevision
     then (\<exists>j'. find_row t' i = Some (j', l) \<and> jRevision j' = expectedRevision + 1
           \<and> jStatus j' = (if cancelled then StatusCancelled else StatusRunning)
           \<and> jPhase j' = (if cancelled then PhaseComplete else PhaseAptUpgrade)
           \<and> (\<exists>rec. res = Inr rec \<and> jStatus rec = jStatus j' \<and> jRevision rec = jRevision j'))
     else res = Inl transition_conflict \<and> t' = t \<and> evs = []"
proof (cases "jStatus j = StatusWaitingApproval \<and> jRevision j = expectedRevision")
  case False
  with resolve_refused [OF assms(1) False] show ?thesis by simp
next
  case True
  then obtain n where "ResolvePendingApproval cfg now i expectedRevision cancelled summary t
        = (Inr n, update_row i (\<lambda>r. (transition_columns n (fst r), l)) t, [Notify ''job.update''])"
      "jID n = i" "jRevision n = expectedRevision + 1" "jStatus n = (if cancelled then StatusCancelled else StatusRunning)"
      "jPhase n = (if cancelled then PhaseComplete else PhaseAptUpgrade)"
    using resolve_accepted [OF assms] by blast
  with True assms(1) find_row_id [OF assms(1)] show ?thesis by (simp add: find_row_update_row)
qed

end
