(* ===== verification/Runtime.thy ===== *)
theory Runtime
  imports Jobs
begin

section \<open>Runtime: projections between jobs, server status and timeline\<close>

text \<open>
  The model of \<open>internal/runtime/status_projection.go\<close>: how a persisted job determines the
  status a server shows, how a server status becomes a job transition, and which job the
  dashboard timeline may display. The constant \<open>StatusCancelled\<close> of that file is the same
  string as the one of package \<open>jobs\<close> and is not repeated.
\<close>

abbreviation StatusIdle :: string where "StatusIdle \<equiv> ''idle''"
abbreviation StatusUpdating :: string where "StatusUpdating \<equiv> ''updating''"
abbreviation StatusPendingApproval :: string where "StatusPendingApproval \<equiv> ''pending_approval''"
abbreviation StatusApproved :: string where "StatusApproved \<equiv> ''approved''"
abbreviation StatusUpgrading :: string where "StatusUpgrading \<equiv> ''upgrading''"
abbreviation StatusAutoremove :: string where "StatusAutoremove \<equiv> ''autoremove''"
abbreviation StatusRepairing :: string where "StatusRepairing \<equiv> ''repairing''"
abbreviation StatusRebooting :: string where "StatusRebooting \<equiv> ''rebooting''"
abbreviation StatusNeedsReconciliation :: string where
  "StatusNeedsReconciliation \<equiv> ''needs_reconciliation''"
abbreviation StatusSudoers :: string where "StatusSudoers \<equiv> ''sudoers''"
abbreviation StatusFactsRefresh :: string where "StatusFactsRefresh \<equiv> ''facts_refresh''"
abbreviation StatusVulnerabilityScan :: string where "StatusVulnerabilityScan \<equiv> ''vulnerability_scan''"
abbreviation StatusApplicationCheck :: string where "StatusApplicationCheck \<equiv> ''postchecks_test''"
abbreviation StatusDone :: string where "StatusDone \<equiv> ''done''"
abbreviation StatusError :: string where "StatusError \<equiv> ''error''"

abbreviation TimelinePhasePendingApproval :: string where
  "TimelinePhasePendingApproval \<equiv> ''pending_approval''"
abbreviation TimelinePhasePrechecks :: string where "TimelinePhasePrechecks \<equiv> ''prechecks''"
abbreviation TimelinePhaseAptUpdate :: string where "TimelinePhaseAptUpdate \<equiv> ''apt_update''"
abbreviation TimelinePhaseUpgrade :: string where "TimelinePhaseUpgrade \<equiv> ''upgrade''"
abbreviation TimelinePhasePostchecks :: string where "TimelinePhasePostchecks \<equiv> ''postchecks''"
abbreviation TimelinePhaseDoneError :: string where "TimelinePhaseDoneError \<equiv> ''done_error''"

abbreviation TimelineStateIdle :: string where "TimelineStateIdle \<equiv> ''idle''"
abbreviation TimelineStateQueued :: string where "TimelineStateQueued \<equiv> ''queued''"
abbreviation TimelineStateActive :: string where "TimelineStateActive \<equiv> ''active''"
abbreviation TimelineStateWaiting :: string where "TimelineStateWaiting \<equiv> ''waiting''"
abbreviation TimelineStateDone :: string where "TimelineStateDone \<equiv> ''done''"
abbreviation TimelineStateError :: string where "TimelineStateError \<equiv> ''error''"

record status_job_options =
  oLogs :: string
  oLastErrorClass :: string
  oCurrentPhase :: string

record timeline_projection =
  tlCurrentPhase :: string
  tlState :: string

text \<open>
  \<open>strings.EqualFold(s, t)\<close> for a lower-case ASCII text \<open>t\<close>: besides the ASCII letters only
  U+017F (long s) and U+212A (Kelvin sign) fold to ASCII.
\<close>

fun fold_ascii :: "string \<Rightarrow> string" where
  "fold_ascii [] = []"
| "fold_ascii (c # s) =
     (if take 2 (c # s) = [CHR 0xC5, CHR 0xBF] then CHR ''s'' # fold_ascii (drop 1 s)
      else if take 3 (c # s) = [CHR 0xE2, CHR 0x84, CHR 0xAA] then CHR ''k'' # fold_ascii (drop 2 s)
      else ascii_lower c # fold_ascii s)"

definition equal_fold_ascii :: "string \<Rightarrow> string \<Rightarrow> bool" where
  "equal_fold_ascii s t \<longleftrightarrow> fold_ascii s = t"

definition StatusInProgress :: "string \<Rightarrow> bool" where
  "StatusInProgress status \<longleftrightarrow> status \<in> set [StatusUpdating, StatusPendingApproval, StatusApproved,
     StatusUpgrading, StatusAutoremove, StatusRepairing, StatusRebooting, StatusSudoers,
     StatusFactsRefresh, StatusVulnerabilityScan, StatusApplicationCheck]"

definition BlocksTransientAction :: "string \<Rightarrow> bool" where
  "BlocksTransientAction status \<longleftrightarrow> to_lower (trim_space status) \<in> set [StatusUpdating,
     StatusPendingApproval, StatusApproved, StatusUpgrading, StatusAutoremove, StatusRepairing,
     StatusRebooting, StatusSudoers, StatusFactsRefresh, StatusVulnerabilityScan, StatusApplicationCheck]"

definition BlocksPackageMutation :: "string \<Rightarrow> bool" where
  "BlocksPackageMutation status \<longleftrightarrow> BlocksTransientAction status
     \<or> equal_fold_ascii (trim_space status) StatusNeedsReconciliation"

definition RuntimeStatusFromJob :: "job_record \<Rightarrow> string" where
  "RuntimeStatusFromJob rec =
     (let kind = jKind rec; status = jStatus rec; phase = jPhase rec in
      if kind \<notin> set [KindUpdate, KindAutoremove, KindAptRepair, KindReboot, KindSudoersEnable,
                     KindSudoersDisable] then []
      else if status = StatusWaitingApproval then StatusPendingApproval
      else if status = StatusSucceeded then StatusDone
      else if status = StatusFailed then
        (if equal_fold_ascii (trim_space (jErrorClass rec)) ReconciliationRequired
         then StatusNeedsReconciliation else StatusError)
      else if status = StatusCancelled then StatusCancelled
      else if status = StatusInterrupted then StatusIdle
      else if kind = KindUpdate then
        (if phase = PhaseApprovalWait then StatusPendingApproval
         else if phase = PhaseAptUpgrade \<or> phase = PhasePostchecks \<or> phase = PhaseComplete
         then StatusUpgrading
         else StatusUpdating)
      else if kind = KindAutoremove then StatusAutoremove
      else if kind = KindAptRepair then StatusRepairing
      else if kind = KindReboot then StatusRebooting
      else if kind = KindSudoersEnable \<or> kind = KindSudoersDisable then StatusSudoers
      else [])"

definition ServerStatusFinishesJob :: "string \<Rightarrow> bool" where
  "ServerStatusFinishesJob status \<longleftrightarrow>
     status \<in> set [StatusDone, StatusError, StatusNeedsReconciliation, StatusCancelled]"

definition status_intent :: "intent \<Rightarrow> intent_kind \<Rightarrow> string \<Rightarrow> string \<Rightarrow> string \<Rightarrow> intent" where
  "status_intent update kind status phase summary =
     update\<lparr>iKind := kind, iStatus := Some status, iPhase := Some phase, iSummary := Some summary\<rparr>"

definition JobTransitionIntentFromServerStatus :: "string \<Rightarrow> status_job_options \<Rightarrow> intent" where
  "JobTransitionIntentFromServerStatus status options =
     (let update = no_intent\<lparr>iLogsText := Some (oLogs options)\<rparr> in
      if status = StatusPendingApproval then
        status_intent update IntentWaitForApproval StatusWaitingApproval PhaseApprovalWait ''Waiting for approval''
      else if status = StatusDone then
        status_intent update IntentSucceed StatusSucceeded PhaseComplete ''Completed successfully''
      else if status = StatusError then
        (let errorClass = trim_space (oLastErrorClass options);
             i = status_intent update IntentFail StatusFailed PhaseComplete ''Completed with errors''
         in if errorClass \<noteq> [] then i\<lparr>iErrorClass := Some errorClass\<rparr> else i)
      else if status = StatusNeedsReconciliation then
        (status_intent update IntentFail StatusFailed PhaseComplete ''APT reconciliation required'')
          \<lparr>iErrorClass := Some ReconciliationRequired\<rparr>
      else if status = StatusCancelled then
        status_intent update IntentCancel StatusCancelled PhaseComplete ''Cancelled''
      else if status = StatusApproved then
        status_intent update IntentResumeAfterApproval StatusRunning PhaseAptUpgrade ''Approval received''
      else let i = update\<lparr>iKind := IntentAdvance, iStatus := Some StatusRunning\<rparr>;
               currentPhase = trim_space (oCurrentPhase options)
           in if currentPhase \<noteq> [] then i\<lparr>iPhase := Some currentPhase\<rparr> else i)"

definition TimelinePhaseFromJobPhase :: "string \<Rightarrow> string" where
  "TimelinePhaseFromJobPhase phase =
     (let p = to_lower (trim_space phase) in
      if p = PhaseDial \<or> p = PhasePrechecks then TimelinePhasePrechecks
      else if p = PhaseAptUpdate then TimelinePhaseAptUpdate
      else if p = PhaseApprovalWait then TimelinePhasePendingApproval
      else if p \<in> set [PhaseAptUpgrade, PhaseAutoremove, PhaseReconcile, PhaseReboot, PhaseVerify, PhaseApply]
      then TimelinePhaseUpgrade
      else if p = PhasePostchecks then TimelinePhasePostchecks
      else if p = PhaseComplete then TimelinePhaseDoneError
      else [])"

definition TimelineProjectionFromServerStatus :: "string \<Rightarrow> timeline_projection" where
  "TimelineProjectionFromServerStatus status =
     (let s = to_lower (trim_space status) in
      if s = StatusPendingApproval then
        \<lparr>tlCurrentPhase = TimelinePhasePendingApproval, tlState = TimelineStateWaiting\<rparr>
      else if s = StatusUpdating then
        \<lparr>tlCurrentPhase = TimelinePhasePrechecks, tlState = TimelineStateActive\<rparr>
      else if s \<in> set [StatusSudoers, StatusFactsRefresh, StatusVulnerabilityScan, StatusApplicationCheck] then
        \<lparr>tlCurrentPhase = TimelinePhasePrechecks, tlState = TimelineStateActive\<rparr>
      else if s \<in> set [StatusUpgrading, StatusAutoremove, StatusRepairing, StatusRebooting] then
        \<lparr>tlCurrentPhase = TimelinePhaseUpgrade, tlState = TimelineStateActive\<rparr>
      else if s \<in> set [StatusDone, ''success'', StatusApproved] then
        \<lparr>tlCurrentPhase = TimelinePhaseDoneError, tlState = TimelineStateDone\<rparr>
      else if s \<in> set [StatusError, StatusNeedsReconciliation, ''failure'', ''failed'', StatusCancelled] then
        \<lparr>tlCurrentPhase = TimelinePhaseDoneError, tlState = TimelineStateError\<rparr>
      else \<lparr>tlCurrentPhase = [], tlState = TimelineStateIdle\<rparr>)"

definition TimelineProjectionFromJob :: "job_record \<Rightarrow> timeline_projection" where
  "TimelineProjectionFromJob job =
     (let status = to_lower (trim_space (jStatus job)); phase = TimelinePhaseFromJobPhase (jPhase job);
          shown = (if phase = [] then TimelinePhasePrechecks else phase) in
      if status = StatusSucceeded then
        \<lparr>tlCurrentPhase = TimelinePhaseDoneError, tlState = TimelineStateDone\<rparr>
      else if status = StatusFailed \<or> status = StatusCancelled \<or> status = StatusInterrupted then
        \<lparr>tlCurrentPhase = TimelinePhaseDoneError, tlState = TimelineStateError\<rparr>
      else if status = StatusWaitingApproval then
        \<lparr>tlCurrentPhase = TimelinePhasePendingApproval, tlState = TimelineStateWaiting\<rparr>
      else if status = StatusQueued then \<lparr>tlCurrentPhase = shown, tlState = TimelineStateQueued\<rparr>
      else if status = StatusRunning then \<lparr>tlCurrentPhase = shown, tlState = TimelineStateActive\<rparr>
      else if phase \<noteq> [] then \<lparr>tlCurrentPhase = phase, tlState = TimelineStateActive\<rparr>
      else \<lparr>tlCurrentPhase = [], tlState = TimelineStateIdle\<rparr>)"

definition ActiveTimelineState :: "string \<Rightarrow> bool" where
  "ActiveTimelineState state \<longleftrightarrow> to_lower (trim_space state)
     \<in> set [TimelineStateActive, TimelineStateQueued, TimelineStateWaiting]"

definition RunningTimelineState :: "string \<Rightarrow> bool" where
  "RunningTimelineState state \<longleftrightarrow> to_lower (trim_space state) \<in> set [TimelineStateActive, TimelineStateQueued]"

definition TerminalTimelineState :: "string \<Rightarrow> bool" where
  "TerminalTimelineState state \<longleftrightarrow> to_lower (trim_space state) \<in> set [TimelineStateDone, TimelineStateError]"

definition DashboardTimelineJobForStatus :: "string \<Rightarrow> job_record option \<Rightarrow> job_record option" where
  "DashboardTimelineJobForStatus status job =
     (case job of
        None \<Rightarrow> None
      | Some j \<Rightarrow>
          if trim_space (jID j) = [] then None
          else let serverState = tlState (TimelineProjectionFromServerStatus status);
                   jobState = tlState (TimelineProjectionFromJob j) in
            if jobState = TimelineStateIdle then None
            else if serverState = TimelineStateWaiting \<and> jobState \<noteq> TimelineStateWaiting then None
            else if ActiveTimelineState serverState \<and> \<not> ActiveTimelineState jobState then None
            else if TerminalTimelineState serverState \<and> TerminalTimelineState jobState
                 \<and> serverState \<noteq> jobState then None
            else Some j)"

subsection \<open>Lemmas\<close>

definition tracked_kind :: "string \<Rightarrow> bool" where
  "tracked_kind k \<longleftrightarrow> k \<in> set [KindUpdate, KindAutoremove, KindAptRepair, KindReboot, KindSudoersEnable,
     KindSudoersDisable]"

definition reconciliation_class :: "job_record \<Rightarrow> bool" where
  "reconciliation_class j \<longleftrightarrow> equal_fold_ascii (trim_space (jErrorClass j)) ReconciliationRequired"

lemma blocks_mutation_eval [simp]:
  "BlocksPackageMutation StatusPendingApproval" "BlocksPackageMutation StatusUpgrading"
  "BlocksPackageMutation StatusUpdating" "BlocksPackageMutation StatusAutoremove"
  "BlocksPackageMutation StatusRepairing" "BlocksPackageMutation StatusRebooting"
  "BlocksPackageMutation StatusSudoers" "BlocksPackageMutation StatusNeedsReconciliation"
  "\<not> BlocksPackageMutation StatusDone" "\<not> BlocksPackageMutation StatusError"
  "\<not> BlocksPackageMutation StatusCancelled" "\<not> BlocksPackageMutation StatusIdle"
  by code_simp+

definition working_status :: "job_record \<Rightarrow> string" where
  "working_status j =
     (if jKind j = KindUpdate then
        (if jPhase j = PhaseApprovalWait then StatusPendingApproval
         else if jPhase j = PhaseAptUpgrade \<or> jPhase j = PhasePostchecks \<or> jPhase j = PhaseComplete
         then StatusUpgrading else StatusUpdating)
      else if jKind j = KindAutoremove then StatusAutoremove
      else if jKind j = KindAptRepair then StatusRepairing
      else if jKind j = KindReboot then StatusRebooting else StatusSudoers)"

lemma tracked_kind_cases:
  "tracked_kind k \<Longrightarrow> k = KindUpdate \<or> k = KindAutoremove \<or> k = KindAptRepair \<or> k = KindReboot
     \<or> k = KindSudoersEnable \<or> k = KindSudoersDisable"
  by (simp add: tracked_kind_def)

lemma RuntimeStatusFromJob_tracked:
  assumes "tracked_kind (jKind j)"
  shows "RuntimeStatusFromJob j =
     (if jStatus j = StatusWaitingApproval then StatusPendingApproval
      else if jStatus j = StatusSucceeded then StatusDone
      else if jStatus j = StatusFailed then
        (if reconciliation_class j then StatusNeedsReconciliation else StatusError)
      else if jStatus j = StatusCancelled then StatusCancelled
      else if jStatus j = StatusInterrupted then StatusIdle
      else working_status j)"
  unfolding RuntimeStatusFromJob_def Let_def tracked_kind_def [symmetric] reconciliation_class_def [symmetric]
    working_status_def
  using assms tracked_kind_cases [OF assms] by presburger

lemma runtime_status_terminal:
  assumes "tracked_kind (jKind j)"
  shows "jStatus j = StatusSucceeded \<Longrightarrow> RuntimeStatusFromJob j = StatusDone"
    "jStatus j = StatusFailed \<Longrightarrow> RuntimeStatusFromJob j =
       (if reconciliation_class j then StatusNeedsReconciliation else StatusError)"
    "jStatus j = StatusCancelled \<Longrightarrow> RuntimeStatusFromJob j = StatusCancelled"
    "jStatus j = StatusInterrupted \<Longrightarrow> RuntimeStatusFromJob j = StatusIdle"
    "jStatus j = StatusWaitingApproval \<Longrightarrow> RuntimeStatusFromJob j = StatusPendingApproval"
  by (simp_all add: RuntimeStatusFromJob_tracked [OF assms])

lemma runtime_status_working:
  assumes "tracked_kind (jKind j)" "\<not> isTerminalStatus (jStatus j)" "jStatus j \<noteq> StatusWaitingApproval"
  shows "RuntimeStatusFromJob j = working_status j"
  using assms(2,3) by (auto simp: RuntimeStatusFromJob_tracked [OF assms(1)])

lemma working_status_blocks: "BlocksPackageMutation (working_status j)"
  by (simp add: working_status_def)

lemma transitionStatus_from_server:
  "transitionStatus s (JobTransitionIntentFromServerStatus status o') =
     (if status = StatusPendingApproval then StatusWaitingApproval
      else if status = StatusDone then StatusSucceeded
      else if status = StatusError \<or> status = StatusNeedsReconciliation then StatusFailed
      else if status = StatusCancelled then StatusCancelled
      else StatusRunning)"
proof -
  have "trim_space StatusRunning = StatusRunning" by code_simp
  then show ?thesis
    by (simp add: transitionStatus_def JobTransitionIntentFromServerStatus_def status_intent_def Let_def)
qed

lemma apply_fields_error_class:
  "jErrorClass (apply_fields now target j i) =
     (case iErrorClass i of Some e \<Rightarrow> trim_space e | None \<Rightarrow> jErrorClass j)"
  by (simp add: apply_fields_def set_texts_def split: option.split)

lemma reconciliation_class_eval: "equal_fold_ascii (trim_space (trim_space ReconciliationRequired)) ReconciliationRequired"
  by code_simp

lemma server_timeline_state:
  "tlState (TimelineProjectionFromServerStatus StatusPendingApproval) = TimelineStateWaiting"
  "tlState (TimelineProjectionFromServerStatus StatusDone) = TimelineStateDone"
  "tlState (TimelineProjectionFromServerStatus StatusError) = TimelineStateError"
  "tlState (TimelineProjectionFromServerStatus StatusNeedsReconciliation) = TimelineStateError"
  "tlState (TimelineProjectionFromServerStatus StatusCancelled) = TimelineStateError"
  "tlState (TimelineProjectionFromServerStatus StatusIdle) = TimelineStateIdle"
  "tlState (TimelineProjectionFromServerStatus StatusUpdating) = TimelineStateActive"
  "tlState (TimelineProjectionFromServerStatus StatusUpgrading) = TimelineStateActive"
  "tlState (TimelineProjectionFromServerStatus StatusAutoremove) = TimelineStateActive"
  "tlState (TimelineProjectionFromServerStatus StatusRepairing) = TimelineStateActive"
  "tlState (TimelineProjectionFromServerStatus StatusRebooting) = TimelineStateActive"
  "tlState (TimelineProjectionFromServerStatus StatusSudoers) = TimelineStateActive"
  by code_simp+

lemma lower_status:
  "to_lower (trim_space StatusSucceeded) = StatusSucceeded" "to_lower (trim_space StatusFailed) = StatusFailed"
  "to_lower (trim_space StatusCancelled) = StatusCancelled" "to_lower (trim_space StatusInterrupted) = StatusInterrupted"
  "to_lower (trim_space StatusWaitingApproval) = StatusWaitingApproval"
  "to_lower (trim_space StatusQueued) = StatusQueued" "to_lower (trim_space StatusRunning) = StatusRunning"
  by code_simp+

lemma job_timeline_state:
  "jStatus j = StatusSucceeded \<Longrightarrow> tlState (TimelineProjectionFromJob j) = TimelineStateDone"
  "jStatus j = StatusFailed \<Longrightarrow> tlState (TimelineProjectionFromJob j) = TimelineStateError"
  "jStatus j = StatusCancelled \<Longrightarrow> tlState (TimelineProjectionFromJob j) = TimelineStateError"
  "jStatus j = StatusInterrupted \<Longrightarrow> tlState (TimelineProjectionFromJob j) = TimelineStateError"
  "jStatus j = StatusWaitingApproval \<Longrightarrow> tlState (TimelineProjectionFromJob j) = TimelineStateWaiting"
  "jStatus j = StatusQueued \<Longrightarrow> tlState (TimelineProjectionFromJob j) = TimelineStateQueued"
  "jStatus j = StatusRunning \<Longrightarrow> tlState (TimelineProjectionFromJob j) = TimelineStateActive"
  by (simp_all add: TimelineProjectionFromJob_def Let_def lower_status del: to_lower.simps)

lemma timeline_state_eval:
  "ActiveTimelineState TimelineStateWaiting" "ActiveTimelineState TimelineStateActive"
  "ActiveTimelineState TimelineStateQueued" "\<not> ActiveTimelineState TimelineStateDone"
  "\<not> ActiveTimelineState TimelineStateError" "\<not> ActiveTimelineState TimelineStateIdle"
  "\<not> TerminalTimelineState TimelineStateActive" "\<not> TerminalTimelineState TimelineStateIdle"
  "\<not> TerminalTimelineState TimelineStateWaiting"
  by code_simp+

lemma working_status_active:
  "tracked_kind (jKind j) \<Longrightarrow> jPhase j \<noteq> PhaseApprovalWait \<Longrightarrow>
     tlState (TimelineProjectionFromServerStatus (working_status j)) = TimelineStateActive"
  by (simp add: working_status_def server_timeline_state)

subsection \<open>Properties\<close>

text \<open>A server whose status comes from a job accepts no package change exactly while that job is
  unfinished or has failed with class \<open>reconciliation_required\<close>.\<close>

lemma mutation_blocked_while_unfinished:
  assumes "tracked_kind (jKind j)"
  shows "BlocksPackageMutation (RuntimeStatusFromJob j) =
     (if isTerminalStatus (jStatus j) then jStatus j = StatusFailed \<and> reconciliation_class j else True)"
proof (cases "isTerminalStatus (jStatus j)")
  case True
  then show ?thesis
    using runtime_status_terminal [OF assms] by (auto simp: isTerminalStatus_def split: if_splits)
next
  case False
  then show ?thesis
    using runtime_status_terminal(5) [OF assms] runtime_status_working [OF assms False] working_status_blocks
    by (cases "jStatus j = StatusWaitingApproval") simp_all
qed

text \<open>Reporting a server status to its job and projecting the job back gives the same status: for
  pending approval, done, cancelled and needs-reconciliation always, for error when the stored
  error class does not ask for reconciliation. The report finishes the job exactly for the
  statuses that are declared to finish it.\<close>

lemma status_report_round_trip:
  assumes "applyIntent now j (JobTransitionIntentFromServerStatus status options) = Inr (j', False)"
    and "tracked_kind (jKind j)"
  shows "isTerminalStatus (jStatus j') = ServerStatusFinishesJob status
     \<and> (if status \<in> set [StatusPendingApproval, StatusDone, StatusCancelled, StatusNeedsReconciliation]
            \<or> (status = StatusError \<and> \<not> reconciliation_class j')
        then RuntimeStatusFromJob j' = status else True)"
proof -
  note j' = applyIntent_Inr(3) [OF assms(1)]
  have kind: "tracked_kind (jKind j')" using assms(2) by (simp add: j')
  have st: "jStatus j' = transitionStatus (jStatus j) (JobTransitionIntentFromServerStatus status options)"
    by (simp add: j')
  have "reconciliation_class j'" if "status = StatusNeedsReconciliation"
    using that reconciliation_class_eval
    by (simp add: reconciliation_class_def j' apply_fields_error_class JobTransitionIntentFromServerStatus_def Let_def)
  then show ?thesis
    using st runtime_status_terminal [OF kind]
    by (auto simp: transitionStatus_from_server ServerStatusFinishesJob_def)
qed

text \<open>The dashboard never hides a job behind the server status that the job itself produces: a
  tracked job in one of the seven statuses is shown, unless it is an update that still carries the
  approval phase without waiting.\<close>

lemma timeline_shows_own_job:
  assumes "tracked_kind (jKind j)" and "trim_space (jID j) \<noteq> []"
    and "jStatus j \<in> set ActiveStatuses \<or> isTerminalStatus (jStatus j)"
    and "jPhase j = PhaseApprovalWait \<longrightarrow> jStatus j \<notin> {StatusQueued, StatusRunning}"
  shows "DashboardTimelineJobForStatus (RuntimeStatusFromJob j) (Some j) = Some j"
proof -
  let ?s = "tlState (TimelineProjectionFromServerStatus (RuntimeStatusFromJob j))"
  let ?j = "tlState (TimelineProjectionFromJob j)"
  note simps = runtime_status_terminal [OF assms(1)] job_timeline_state server_timeline_state
  consider "jStatus j = StatusWaitingApproval" | "jStatus j = StatusSucceeded" | "jStatus j = StatusFailed"
    | "jStatus j = StatusCancelled" | "jStatus j = StatusInterrupted"
    | "jStatus j = StatusQueued" | "jStatus j = StatusRunning"
    using assms(3) unfolding active_cases isTerminalStatus_def by blast
  then have "?s = TimelineStateWaiting \<and> ?j = TimelineStateWaiting \<or> ?s = TimelineStateDone \<and> ?j = TimelineStateDone
      \<or> ?s = TimelineStateError \<and> ?j = TimelineStateError \<or> ?s = TimelineStateIdle \<and> ?j = TimelineStateError
      \<or> ?s = TimelineStateActive \<and> (?j = TimelineStateActive \<or> ?j = TimelineStateQueued)"
  proof cases
    case 6
    then have "?s = TimelineStateActive"
      using assms(4) working_status_active [OF assms(1)] runtime_status_working [OF assms(1)] by simp
    with job_timeline_state(6) [OF 6] show ?thesis by simp
  next
    case 7
    then have "?s = TimelineStateActive"
      using assms(4) working_status_active [OF assms(1)] runtime_status_working [OF assms(1)] by simp
    with job_timeline_state(7) [OF 7] show ?thesis by simp
  qed (simp_all add: simps)
  then show ?thesis
    using assms(2) by (elim disjE conjE)
      (simp_all add: DashboardTimelineJobForStatus_def Let_def timeline_state_eval)
qed

end
