(* ===== verification/Maintenance.thy ===== *)
theory Maintenance
  imports Prelude
begin

section \<open>Maintenance: shared and exclusive admission\<close>

text \<open>
  The model of \<open>internal/maintenance/coordinator.go\<close> and \<open>persistence.go\<close>. The record
  \<open>coordinator\<close> holds the gate (its readers and its writer), the published state, the
  pending release, the store and the leases handed out; a lease is referred to by its
  position. A method runs as one step. A store is a pair of functions: \<open>save\<close> tells
  whether it succeeded and returns the store afterwards, so that a store may fail on some
  attempts and not on others, and \<open>load\<close> reads it.
\<close>

subsection \<open>Data\<close>

abbreviation OperationBackupExport :: string where "OperationBackupExport \<equiv> ''backup_export''"
abbreviation OperationBackupRestore :: string where "OperationBackupRestore \<equiv> ''backup_restore''"

definition exclusiveLeaseReleaseAttempts :: nat where
  "exclusiveLeaseReleaseAttempts = 5"

record mstate =
  mRecoveryRequired :: bool
  mActive :: bool
  mKind :: string
  mJobID :: string
  mStartedAt :: string
  mActor :: string
  mMessage :: string

definition no_state :: mstate where
  "no_state = \<lparr>mRecoveryRequired = False, mActive = False, mKind = [], mJobID = [], mStartedAt = [],
     mActor = [], mMessage = []\<rparr>"

record snapshot =
  sRecoveryRequired :: bool
  sActive :: bool
  sKind :: string
  sStartedAt :: string
  sMessage :: string

record operation_facts =
  ofJobID :: string
  ofActor :: string
  ofMessage :: string

record exclusive_lease =
  lOperation :: string
  lActivated :: bool
  lActiveState :: mstate
  lReleasePending :: bool
  lGateReleased :: bool
  lClosed :: bool

record 's coordinator =
  gReaders :: nat
  gWriter :: bool
  cState :: mstate
  cPendingRelease :: "mstate option"
  cStore :: 's
  cExclusive :: "exclusive_lease list"
  cShared :: "bool list"  \<comment> \<open>for each shared lease, whether it is closed\<close>

type_synonym 's save = "mstate \<Rightarrow> 's \<Rightarrow> bool \<times> 's"
type_synonym 's load = "'s \<Rightarrow> (string, mstate) result"

definition recoveryRequiredMessage :: string where
  "recoveryRequiredMessage = ''Backup recovery is incomplete. Stop the application and restore verified state before resuming. See the recovery steps in docs/troubleshooting.md.''"

subsection \<open>The coordinator\<close>

definition snapshot_of :: "mstate \<Rightarrow> snapshot" where
  "snapshot_of st = \<lparr>sRecoveryRequired = mRecoveryRequired st, sActive = mActive st, sKind = mKind st,
     sStartedAt = mStartedAt st, sMessage = mMessage st\<rparr>"

definition publish :: "mstate \<Rightarrow> 's coordinator \<Rightarrow> 's coordinator" where
  "publish st c = c\<lparr>cState := st\<rparr>"

definition Initialize ::
  "'s load \<Rightarrow> 's save \<Rightarrow> 's coordinator \<Rightarrow> (string, unit) result \<times> 's coordinator" where
  "Initialize load save c =
     (case load (cStore c) of
        Inl e \<Rightarrow> (Inl e, c)
      | Inr st \<Rightarrow>
          if mActive st \<and> (mRecoveryRequired st \<or> mKind st = OperationBackupRestore) then
            (Inr (), publish (st\<lparr>mRecoveryRequired := True, mMessage := recoveryRequiredMessage\<rparr>) c)
          else if mActive st then
            (case save no_state (cStore c) of
               (False, s) \<Rightarrow> (Inl ''save failed'', c\<lparr>cStore := s\<rparr>)
             | (True, s) \<Rightarrow> (Inr (), publish no_state (c\<lparr>cStore := s\<rparr>)))
          else (Inr (), publish st c))"

fun release_attempts :: "'s save \<Rightarrow> nat \<Rightarrow> 's \<Rightarrow> bool \<times> 's" where
  "release_attempts save 0 s = (False, s)"
| "release_attempts save (Suc n) s =
     (case save no_state s of
        (True, s') \<Rightarrow> (True, s')
      | (False, s') \<Rightarrow> release_attempts save n s')"

definition clearPendingReleaseIfOwnedBy :: "mstate \<Rightarrow> 's coordinator \<Rightarrow> 's coordinator" where
  "clearPendingReleaseIfOwnedBy expected c =
     (if cPendingRelease c = Some expected then c\<lparr>cPendingRelease := None\<rparr> else c)"

definition releaseLocked ::
  "'s save \<Rightarrow> mstate \<Rightarrow> 's coordinator \<Rightarrow> (string, unit) result \<times> 's coordinator" where
  "releaseLocked save expected c =
     (if \<not> mActive (cState c) then (Inr (), c\<lparr>cPendingRelease := None\<rparr>)
      else if cState c \<noteq> expected then
        (Inl ''maintenance lease no longer owns the active state'', clearPendingReleaseIfOwnedBy expected c)
      else case release_attempts save exclusiveLeaseReleaseAttempts (cStore c) of
        (True, s) \<Rightarrow> (Inr (), publish no_state (c\<lparr>cStore := s, cPendingRelease := None\<rparr>))
      | (False, s) \<Rightarrow> (Inl ''save failed'', c\<lparr>cStore := s, cPendingRelease := Some expected\<rparr>))"

definition recoverPendingRelease :: "'s save \<Rightarrow> 's coordinator \<Rightarrow> 's coordinator" where
  "recoverPendingRelease save c =
     (case cPendingRelease c of
        None \<Rightarrow> c
      | Some st \<Rightarrow> snd (releaseLocked save st c))"

text \<open>The result is the position of the new lease, or the snapshot that explains the denial.\<close>

definition TryShared :: "'s save \<Rightarrow> 's coordinator \<Rightarrow> (snapshot, nat) result \<times> 's coordinator" where
  "TryShared save c =
     (if gWriter c then (Inl (snapshot_of (cState c)), c)
      else let c1 = recoverPendingRelease save c in
        if mActive (cState c1) then (Inl (snapshot_of (cState c1)), c1)
        else (Inr (length (cShared c1)),
              c1\<lparr>gReaders := gReaders c1 + 1, cShared := cShared c1 @ [False]\<rparr>))"

definition TryProbe :: "'s coordinator \<Rightarrow> (snapshot, nat) result \<times> 's coordinator" where
  "TryProbe c =
     (if gWriter c then (Inl (snapshot_of (cState c)), c)
      else if mActive (cState c) then (Inl (snapshot_of (cState c)), c)
      else (Inr (length (cShared c)), c\<lparr>gReaders := gReaders c + 1, cShared := cShared c @ [False]\<rparr>))"

definition new_lease :: "string \<Rightarrow> exclusive_lease" where
  "new_lease operation = \<lparr>lOperation = operation, lActivated = False, lActiveState = no_state,
     lReleasePending = False, lGateReleased = False, lClosed = False\<rparr>"

definition TryExclusive ::
  "'s save \<Rightarrow> string \<Rightarrow> 's coordinator \<Rightarrow> (snapshot, nat) result \<times> 's coordinator" where
  "TryExclusive save operation c =
     (if gWriter c \<or> 0 < gReaders c then (Inl (snapshot_of (cState c)), c)
      else let c1 = recoverPendingRelease save c in
        if mActive (cState c1) then (Inl (snapshot_of (cState c1)), c1)
        else (Inr (length (cExclusive c1)),
              c1\<lparr>gWriter := True, cExclusive := cExclusive c1 @ [new_lease operation]\<rparr>))"

definition SharedLease_Close :: "nat \<Rightarrow> 's coordinator \<Rightarrow> 's coordinator" where
  "SharedLease_Close k c =
     (if k < length (cShared c) \<and> \<not> cShared c ! k
      then c\<lparr>gReaders := gReaders c - 1, cShared := (cShared c)[k := True]\<rparr> else c)"

definition set_lease :: "nat \<Rightarrow> exclusive_lease \<Rightarrow> 's coordinator \<Rightarrow> 's coordinator" where
  "set_lease k l c = c\<lparr>cExclusive := (cExclusive c)[k := l]\<rparr>"

definition active_state :: "string \<Rightarrow> operation_facts \<Rightarrow> string \<Rightarrow> mstate" where
  "active_state operation facts now = no_state\<lparr>mActive := True, mKind := operation,
     mJobID := trim_space (ofJobID facts), mStartedAt := now, mActor := trim_space (ofActor facts),
     mMessage := trim_space (ofMessage facts)\<rparr>"

definition Activate ::
  "'s save \<Rightarrow> string \<Rightarrow> operation_facts \<Rightarrow> nat \<Rightarrow> 's coordinator \<Rightarrow> (string, unit) result \<times> 's coordinator" where
  "Activate save now facts k c =
     (let l = cExclusive c ! k in
      if lClosed l then (Inl ''maintenance lease is closed'', c)
      else if lReleasePending l then (Inl ''maintenance lease release is pending'', c)
      else if lActivated l then (Inr (), c)
      else let st = active_state (lOperation l) facts now in
        case save st (cStore c) of
          (False, s) \<Rightarrow> (Inl ''save failed'', c\<lparr>cStore := s\<rparr>)
        | (True, s) \<Rightarrow>
            (Inr (), set_lease k (l\<lparr>lActiveState := st, lActivated := True\<rparr>) (publish st (c\<lparr>cStore := s\<rparr>))))"

definition Handoff :: "'s save \<Rightarrow> nat \<Rightarrow> 's coordinator \<Rightarrow> (string, unit) result \<times> 's coordinator" where
  "Handoff save k c =
     (let l = cExclusive c ! k in
      if lClosed l then (Inl ''maintenance lease is closed'', c)
      else if lReleasePending l then (Inl ''maintenance lease release is pending'', c)
      else if \<not> mActive (cState c) then (Inr (), c)
      else case save (cState c) (cStore c) of
          (False, s) \<Rightarrow> (Inl ''save failed'', c\<lparr>cStore := s\<rparr>)
        | (True, s) \<Rightarrow> (Inr (), c\<lparr>cStore := s\<rparr>))"

text \<open>\<open>releaseGate\<close> also marks the lease, so it returns the lease and the gate together.\<close>

definition releaseGate :: "nat \<Rightarrow> exclusive_lease \<Rightarrow> 's coordinator \<Rightarrow> 's coordinator" where
  "releaseGate k l c =
     (if lGateReleased l then set_lease k l c
      else set_lease k (l\<lparr>lGateReleased := True\<rparr>) (c\<lparr>gWriter := False\<rparr>))"

definition recovery_state :: "mstate \<Rightarrow> mstate" where
  "recovery_state st = st\<lparr>mActive := True, mRecoveryRequired := True, mMessage := recoveryRequiredMessage\<rparr>"

definition RetainForRecovery ::
  "'s save \<Rightarrow> nat \<Rightarrow> 's coordinator \<Rightarrow> (string, unit) result \<times> 's coordinator" where
  "RetainForRecovery save k c =
     (let l = cExclusive c ! k in
      if lClosed l then (Inr (), c)
      else let st = recovery_state (lActiveState l);
               c1 = releaseGate k (l\<lparr>lClosed := True\<rparr>) (publish st c) in
        case save st (cStore c1) of
          (False, s) \<Rightarrow> (Inl ''save failed'', c1\<lparr>cStore := s\<rparr>)
        | (True, s) \<Rightarrow> (Inr (), c1\<lparr>cStore := s\<rparr>))"

definition ExclusiveLease_Close ::
  "'s save \<Rightarrow> nat \<Rightarrow> 's coordinator \<Rightarrow> (string, unit) result \<times> 's coordinator" where
  "ExclusiveLease_Close save k c =
     (let l = cExclusive c ! k in
      if lClosed l then (Inr (), c)
      else case (if lActivated l then releaseLocked save (lActiveState l) c else (Inr (), c)) of
          (Inl e, c1) \<Rightarrow> (Inl e, releaseGate k (l\<lparr>lReleasePending := True\<rparr>) c1)
        | (Inr _, c1) \<Rightarrow> (Inr (), releaseGate k (l\<lparr>lReleasePending := False, lClosed := True\<rparr>) c1))"

definition PrepareReplacement ::
  "'d save \<Rightarrow> nat \<Rightarrow> 's coordinator \<Rightarrow> 'd \<Rightarrow> (string, unit) result \<times> 'd" where
  \<comment> \<open>\<open>'d\<close> is the replacement database, a store of its own\<close>
  "PrepareReplacement save k c db =
     (let l = cExclusive c ! k in
      if lClosed l \<or> lReleasePending l \<or> \<not> lActivated l \<or> lOperation l \<noteq> OperationBackupRestore
      then (Inl ''active backup restore lease is required for replacement preparation'', db)
      else case save ((lActiveState l)\<lparr>mRecoveryRequired := True, mMessage := recoveryRequiredMessage\<rparr>) db of
          (ok, db') \<Rightarrow> (if ok then Inr () else Inl ''save failed'', db'))"

definition NewCoordinator :: "'s \<Rightarrow> 's coordinator" where
  "NewCoordinator s = \<lparr>gReaders = 0, gWriter = False, cState = no_state, cPendingRelease = None,
     cStore = s, cExclusive = [], cShared = []\<rparr>"

subsection \<open>Stores\<close>

record memory_store =
  msState :: mstate
  msLoadError :: "string option"
  msSaveError :: "string option"

definition MemoryStore_Load :: "memory_store load" where
  "MemoryStore_Load s = (case msLoadError s of Some e \<Rightarrow> Inl e | None \<Rightarrow> Inr (msState s))"

definition MemoryStore_Save :: "memory_store save" where
  "MemoryStore_Save st s = (if msSaveError s \<noteq> None then (False, s) else (True, s\<lparr>msState := st\<rparr>))"

text \<open>
  The SQLite store: the row of the settings table, if any, and the error that the next
  query or statement reports, if any. The JSON codec is a parameter.
\<close>

record sqlite_store =
  qValue :: "string option"
  qError :: "string option"

definition SQLiteStore_Load :: "(string \<Rightarrow> (string, mstate) result) \<Rightarrow> sqlite_store load" where
  "SQLiteStore_Load unmarshal s =
     (let err = (case qError s of Some e \<Rightarrow> Some e
                 | None \<Rightarrow> (case qValue s of None \<Rightarrow> Some ''no rows'' | Some v \<Rightarrow> None));
          noRows = (qError s = None \<and> qValue s = None);
          raw = (case qError s of Some e \<Rightarrow> [] | None \<Rightarrow> (case qValue s of Some v \<Rightarrow> v | None \<Rightarrow> []))
      in if noRows \<or> trim_space raw = [] then Inr no_state
         else case err of Some e \<Rightarrow> Inl e | None \<Rightarrow> unmarshal raw)"

definition SQLiteStore_Save :: "(mstate \<Rightarrow> string) \<Rightarrow> sqlite_store save" where
  "SQLiteStore_Save marshal st s = (if qError s \<noteq> None then (False, s) else (True, s\<lparr>qValue := Some (marshal st)\<rparr>))"

subsection \<open>Runs and their invariant\<close>

definition latched :: "mstate \<Rightarrow> bool" where
  "latched st \<longleftrightarrow> mActive st \<and> mRecoveryRequired st"

text \<open>
  The calls of a run. Activations happen at distinct clock readings, and a caller asks for
  the recovery latch before it closes its lease, not after a close that failed (as the
  restore operation does, whose close is deferred).
\<close>

inductive maint_step :: "'s save \<Rightarrow> 's coordinator \<Rightarrow> 's coordinator \<Rightarrow> bool" for save :: "'s save" where
  step_shared: "maint_step save c (snd (TryShared save c))"
| step_probe: "maint_step save c (snd (TryProbe c))"
| step_exclusive: "maint_step save c (snd (TryExclusive save operation c))"
| step_shared_close: "maint_step save c (SharedLease_Close k c)"
| step_activate: "k < length (cExclusive c) \<Longrightarrow>
    \<forall>l\<in>set (cExclusive c). lActivated l \<longrightarrow> mStartedAt (lActiveState l) \<noteq> now \<Longrightarrow>
    maint_step save c (snd (Activate save now facts k c))"
| step_handoff: "k < length (cExclusive c) \<Longrightarrow> maint_step save c (snd (Handoff save k c))"
| step_retain: "k < length (cExclusive c) \<Longrightarrow> \<not> lReleasePending (cExclusive c ! k) \<Longrightarrow>
    maint_step save c (snd (RetainForRecovery save k c))"
| step_close: "k < length (cExclusive c) \<Longrightarrow> maint_step save c (snd (ExclusiveLease_Close save k c))"

definition lease_ok :: "exclusive_lease \<Rightarrow> bool" where
  "lease_ok l \<longleftrightarrow> (lGateReleased l \<longleftrightarrow> lClosed l \<or> lReleasePending l)
     \<and> (lActivated l \<longrightarrow> mActive (lActiveState l) \<and> \<not> mRecoveryRequired (lActiveState l)
          \<and> mKind (lActiveState l) = lOperation l)
     \<and> (\<not> lActivated l \<longrightarrow> lActiveState l = no_state \<and> \<not> lReleasePending l)"

definition leases_ok :: "exclusive_lease list \<Rightarrow> bool" where
  "leases_ok ls \<longleftrightarrow> (\<forall>i<length ls. lease_ok (ls ! i))
     \<and> (\<forall>i<length ls. \<forall>j<length ls. \<not> lGateReleased (ls ! i) \<longrightarrow> \<not> lGateReleased (ls ! j) \<longrightarrow> i = j)
     \<and> (\<forall>i<length ls. \<forall>j<length ls. lActivated (ls ! i) \<longrightarrow> lActivated (ls ! j) \<longrightarrow>
          mStartedAt (lActiveState (ls ! i)) = mStartedAt (lActiveState (ls ! j)) \<longrightarrow> i = j)"

definition gate_ok :: "'s coordinator \<Rightarrow> bool" where
  "gate_ok c \<longleftrightarrow> gReaders c = length (filter Not (cShared c)) \<and> (gWriter c \<longrightarrow> gReaders c = 0)
     \<and> (gWriter c \<longleftrightarrow> (\<exists>i<length (cExclusive c). \<not> lGateReleased (cExclusive c ! i)))"

definition state_ok :: "'s coordinator \<Rightarrow> bool" where
  "state_ok c \<longleftrightarrow> (0 < gReaders c \<longrightarrow> \<not> mActive (cState c))
     \<and> (\<forall>p. cPendingRelease c = Some p \<longrightarrow> \<not> mRecoveryRequired p)
     \<and> (\<forall>i<length (cExclusive c). \<not> lGateReleased (cExclusive c ! i) \<longrightarrow>
          (if lActivated (cExclusive c ! i) then cState c = lActiveState (cExclusive c ! i)
           else \<not> mActive (cState c)))"

definition maint_inv :: "'s coordinator \<Rightarrow> bool" where
  "maint_inv c \<longleftrightarrow> leases_ok (cExclusive c) \<and> gate_ok c \<and> state_ok c"

lemmas maint_defs = maint_inv_def gate_ok_def state_ok_def

lemma no_state_inactive [simp]: "\<not> mActive no_state" "\<not> mRecoveryRequired no_state" "mKind no_state = []"
  by (simp_all add: no_state_def)

lemma releaseLocked_cases:
  obtains
    (inactive) "\<not> mActive (cState c)" "releaseLocked save e c = (Inr (), c\<lparr>cPendingRelease := None\<rparr>)"
  | (foreign) p msg where "mActive (cState c)" "cState c \<noteq> e" "p = None \<or> p = cPendingRelease c"
      "cPendingRelease c = Some e \<Longrightarrow> p = None"
      "releaseLocked save e c = (Inl msg, c\<lparr>cPendingRelease := p\<rparr>)"
  | (released) st where "mActive (cState c)" "cState c = e"
      "release_attempts save exclusiveLeaseReleaseAttempts (cStore c) = (True, st)"
      "releaseLocked save e c = (Inr (), c\<lparr>cStore := st, cPendingRelease := None, cState := no_state\<rparr>)"
  | (failed) st msg where "mActive (cState c)" "cState c = e"
      "release_attempts save exclusiveLeaseReleaseAttempts (cStore c) = (False, st)"
      "releaseLocked save e c = (Inl msg, c\<lparr>cStore := st, cPendingRelease := Some e\<rparr>)"
proof (cases "mActive (cState c)")
  case False
  then show ?thesis using inactive by (simp add: releaseLocked_def)
next
  case active: True
  show ?thesis
  proof (cases "cState c = e")
    case False
    then show ?thesis
      using foreign [of "if cPendingRelease c = Some e then None else cPendingRelease c"] active
      by (cases "cPendingRelease c = Some e")
        (simp_all add: releaseLocked_def clearPendingReleaseIfOwnedBy_def)
  next
    case True
    obtain ok st where att: "release_attempts save exclusiveLeaseReleaseAttempts (cStore c) = (ok, st)"
      by (cases "release_attempts save exclusiveLeaseReleaseAttempts (cStore c)")
    then show ?thesis using released failed active True
      by (cases ok) (simp_all add: releaseLocked_def publish_def)
  qed
qed

text \<open>A pending release that is retried touches only the state, the store and itself.\<close>

lemma recoverPendingRelease_frame:
  "\<exists>st s p. recoverPendingRelease save c = c\<lparr>cState := st, cStore := s, cPendingRelease := p\<rparr>
     \<and> (st = cState c \<or> st = no_state \<and> cPendingRelease c = Some (cState c))
     \<and> (p = None \<or> p = cPendingRelease c)"
proof (cases "cPendingRelease c")
  case None
  then have "recoverPendingRelease save c
      = c\<lparr>cState := cState c, cStore := cStore c, cPendingRelease := cPendingRelease c\<rparr>"
    by (simp add: recoverPendingRelease_def)
  then show ?thesis by blast
next
  case (Some e)
  then have r: "recoverPendingRelease save c = snd (releaseLocked save e c)"
    by (simp add: recoverPendingRelease_def)
  show ?thesis
  proof (cases rule: releaseLocked_cases [of c save e])
    case inactive
    then have "recoverPendingRelease save c
        = c\<lparr>cState := cState c, cStore := cStore c, cPendingRelease := None\<rparr>" by (simp add: r)
    then show ?thesis by blast
  next
    case (foreign p msg)
    then have "recoverPendingRelease save c
        = c\<lparr>cState := cState c, cStore := cStore c, cPendingRelease := p\<rparr>" by (simp add: r)
    then show ?thesis using foreign(3) by blast
  next
    case (released st)
    then have "recoverPendingRelease save c
        = c\<lparr>cState := no_state, cStore := st, cPendingRelease := None\<rparr>" by (simp add: r)
    then show ?thesis using released(2) Some by blast
  next
    case (failed st msg)
    then have "recoverPendingRelease save c
        = c\<lparr>cState := cState c, cStore := st, cPendingRelease := Some e\<rparr>" by (simp add: r)
    then show ?thesis using Some by metis
  qed
qed

lemma recoverPendingRelease_inv:
  assumes inv: "maint_inv c" and w: "\<not> gWriter c"
  shows "maint_inv (recoverPendingRelease save c)"
proof -
  obtain st s p where r: "recoverPendingRelease save c = c\<lparr>cState := st, cStore := s, cPendingRelease := p\<rparr>"
      "st = cState c \<or> st = no_state" "p = None \<or> p = cPendingRelease c"
    using recoverPendingRelease_frame [of save c] by blast
  have "\<forall>i<length (cExclusive c). lGateReleased (cExclusive c ! i)" using inv w by (auto simp: maint_defs)
  with inv r show ?thesis by (auto simp: maint_defs)
qed

lemma recoverPendingRelease_keeps [simp]:
  "gWriter (recoverPendingRelease save c) = gWriter c" "gReaders (recoverPendingRelease save c) = gReaders c"
  "cExclusive (recoverPendingRelease save c) = cExclusive c" "cShared (recoverPendingRelease save c) = cShared c"
  using recoverPendingRelease_frame [of save c] by auto

lemma new_shared_inv:
  "maint_inv c \<Longrightarrow> \<not> gWriter c \<Longrightarrow> \<not> mActive (cState c) \<Longrightarrow>
     maint_inv (c\<lparr>gReaders := gReaders c + 1, cShared := cShared c @ [False]\<rparr>)"
  by (auto simp: maint_defs)

lemma TryShared_inv: "maint_inv c \<Longrightarrow> maint_inv (snd (TryShared save c))"
  using recoverPendingRelease_inv [of c save] new_shared_inv [of "recoverPendingRelease save c"]
  by (auto simp: TryShared_def Let_def)

lemma TryProbe_inv: "maint_inv c \<Longrightarrow> maint_inv (snd (TryProbe c))"
  using new_shared_inv [of c] by (auto simp: TryProbe_def)

lemma new_lease_ok: "lease_ok (new_lease operation)"
  by (simp add: lease_ok_def new_lease_def)

lemma new_exclusive_inv:
  assumes inv: "maint_inv c" and w: "\<not> gWriter c" "gReaders c = 0" and a: "\<not> mActive (cState c)"
  shows "maint_inv (c\<lparr>gWriter := True, cExclusive := cExclusive c @ [new_lease operation]\<rparr>)"
proof -
  have rel: "\<forall>i<length (cExclusive c). lGateReleased (cExclusive c ! i)" using inv w by (auto simp: maint_defs)
  have new: "\<not> lGateReleased (new_lease operation)" "\<not> lActivated (new_lease operation)"
    by (simp_all add: new_lease_def)
  have "leases_ok (cExclusive c @ [new_lease operation])"
    using inv rel new new_lease_ok [of operation]
    by (auto simp: maint_inv_def leases_ok_def nth_append less_Suc_eq)
  with inv w a rel new show ?thesis
    by (auto simp: maint_inv_def gate_ok_def state_ok_def nth_append less_Suc_eq)
qed

lemma TryExclusive_inv: "maint_inv c \<Longrightarrow> maint_inv (snd (TryExclusive save operation c))"
  using recoverPendingRelease_inv [of c save] new_exclusive_inv [of "recoverPendingRelease save c" operation]
  by (auto simp: TryExclusive_def Let_def)

lemma length_filter_update:
  "k < length xs \<Longrightarrow> \<not> xs ! k \<Longrightarrow> length (filter Not (xs[k := True])) = length (filter Not xs) - 1"
proof (induction xs arbitrary: k)
  case (Cons x xs)
  then have "0 < length (filter Not xs)" if "0 < k"
    using that by (cases k) (auto simp: filter_empty_conv intro: nth_mem)
  with Cons show ?case by (cases k) auto
qed simp

lemma SharedLease_Close_inv: "maint_inv c \<Longrightarrow> maint_inv (SharedLease_Close k c)"
  by (auto simp: SharedLease_Close_def maint_inv_def gate_ok_def state_ok_def length_filter_update)

text \<open>Updating a lease in place.\<close>

lemma leases_ok_update:
  assumes "leases_ok ls" "k < length ls" "lease_ok l"
    and "\<not> lGateReleased l \<Longrightarrow> \<not> lGateReleased (ls ! k)"
    and "lActivated l \<Longrightarrow> lActivated (ls ! k) \<and> lActiveState l = lActiveState (ls ! k)
       \<or> (\<forall>l'\<in>set ls. lActivated l' \<longrightarrow> mStartedAt (lActiveState l') \<noteq> mStartedAt (lActiveState l))"
  shows "leases_ok (ls[k := l])"
  using assms unfolding leases_ok_def by (auto simp: nth_list_update; metis nth_mem)

lemma store_inv: "maint_inv c \<Longrightarrow> maint_inv (c\<lparr>cStore := s\<rparr>)"
  unfolding maint_inv_def gate_ok_def state_ok_def by auto

lemma held_lease:
  assumes "maint_inv c" "k < length (cExclusive c)" "\<not> lClosed (cExclusive c ! k)" "\<not> lReleasePending (cExclusive c ! k)"
  shows "gWriter c \<and> gReaders c = 0 \<and> \<not> lGateReleased (cExclusive c ! k)
     \<and> (\<forall>i<length (cExclusive c). i \<noteq> k \<longrightarrow> lGateReleased (cExclusive c ! i))"
proof -
  have "\<not> lGateReleased (cExclusive c ! k)"
    using assms by (auto simp: maint_inv_def leases_ok_def lease_ok_def)
  with assms(1,2) show ?thesis by (auto simp: maint_inv_def leases_ok_def gate_ok_def)
qed

lemma Activate_inv:
  assumes inv: "maint_inv c" and k: "k < length (cExclusive c)"
    and fresh: "\<forall>l\<in>set (cExclusive c). lActivated l \<longrightarrow> mStartedAt (lActiveState l) \<noteq> now"
  shows "maint_inv (snd (Activate save now facts k c))"
proof (cases "lClosed (cExclusive c ! k) \<or> lReleasePending (cExclusive c ! k) \<or> lActivated (cExclusive c ! k)")
  case True
  then show ?thesis using inv by (auto simp: Activate_def Let_def)
next
  case False
  let ?l = "cExclusive c ! k"
  let ?st = "active_state (lOperation ?l) facts now"
  let ?l' = "?l\<lparr>lActiveState := ?st, lActivated := True\<rparr>"
  obtain ok s where sv: "save ?st (cStore c) = (ok, s)" by (cases "save ?st (cStore c)")
  have held: "gWriter c" "gReaders c = 0" "\<not> lGateReleased ?l"
      "\<forall>i<length (cExclusive c). i \<noteq> k \<longrightarrow> lGateReleased (cExclusive c ! i)"
    using held_lease [OF inv k] False by simp_all
  have st: "mActive ?st" "\<not> mRecoveryRequired ?st" "mKind ?st = lOperation ?l" "mStartedAt ?st = now"
    by (simp_all add: active_state_def no_state_def)
  have "lease_ok ?l'" using False held(3) st by (simp add: lease_ok_def)
  then have "leases_ok ((cExclusive c)[k := ?l'])"
    using inv k fresh st(4) by (intro leases_ok_update) (simp_all add: maint_inv_def)
  moreover have "\<exists>i<length (cExclusive c). \<not> lGateReleased ((cExclusive c)[k := ?l'] ! i)"
    using k held(3) by (intro exI [of _ k]) simp
  ultimately have "maint_inv (set_lease k ?l' (publish ?st (c\<lparr>cStore := s\<rparr>)))"
    using inv k held
    by (auto simp: maint_inv_def gate_ok_def state_ok_def set_lease_def publish_def nth_list_update)
  with False sv inv show ?thesis by (cases ok) (simp_all add: Activate_def Let_def store_inv)
qed

lemma Handoff_inv: "maint_inv c \<Longrightarrow> maint_inv (snd (Handoff save k c))"
  by (auto simp: Handoff_def Let_def store_inv split: prod.split bool.split)

text \<open>
  Ending the hold of lease \<open>k\<close>: afterwards no lease holds the gate, so the state may be
  anything that does not contradict the readers.
\<close>

lemma end_hold_inv:
  assumes inv: "maint_inv c" and k: "k < length (cExclusive c)" and l: "lease_ok l" "lGateReleased l"
    and act: "lActivated l = lActivated (cExclusive c ! k)" "lActiveState l = lActiveState (cExclusive c ! k)"
    and others: "\<forall>i<length (cExclusive c). i \<noteq> k \<longrightarrow> lGateReleased (cExclusive c ! i)"
    and readers: "0 < gReaders c \<longrightarrow> \<not> mActive st" and p: "\<forall>x. p = Some x \<longrightarrow> \<not> mRecoveryRequired x"
  shows "maint_inv (c\<lparr>gWriter := False, cState := st, cPendingRelease := p, cStore := s,
     cExclusive := (cExclusive c)[k := l]\<rparr>)"
proof -
  have "leases_ok ((cExclusive c)[k := l])"
    using inv k l act by (intro leases_ok_update) (simp_all add: maint_inv_def)
  moreover have "\<forall>i<length (cExclusive c). lGateReleased ((cExclusive c)[k := l] ! i)"
    using others l(2) k by (simp add: nth_list_update)
  ultimately show ?thesis using inv readers p
    by (auto simp: maint_inv_def gate_ok_def state_ok_def)
qed

lemma RetainForRecovery_held:
  assumes inv: "maint_inv c" and k: "k < length (cExclusive c)"
    and open': "\<not> lClosed (cExclusive c ! k)" "\<not> lReleasePending (cExclusive c ! k)"
  shows "\<exists>ok s. save (recovery_state (lActiveState (cExclusive c ! k))) (cStore c) = (ok, s)
     \<and> snd (RetainForRecovery save k c) = c\<lparr>gWriter := False,
          cState := recovery_state (lActiveState (cExclusive c ! k)), cPendingRelease := cPendingRelease c,
          cStore := s, cExclusive := (cExclusive c)[k := (cExclusive c ! k)\<lparr>lClosed := True, lGateReleased := True\<rparr>]\<rparr>"
proof -
  obtain ok s where sv: "save (recovery_state (lActiveState (cExclusive c ! k))) (cStore c) = (ok, s)"
    by (cases "save (recovery_state (lActiveState (cExclusive c ! k))) (cStore c)")
  have "\<not> lGateReleased (cExclusive c ! k)" using held_lease [OF inv k open'] by simp
  with sv open' show ?thesis
    by (cases ok) (auto simp: RetainForRecovery_def Let_def releaseGate_def set_lease_def publish_def)
qed

lemma RetainForRecovery_inv:
  assumes inv: "maint_inv c" and k: "k < length (cExclusive c)" and pend: "\<not> lReleasePending (cExclusive c ! k)"
  shows "maint_inv (snd (RetainForRecovery save k c))"
proof (cases "lClosed (cExclusive c ! k)")
  case True
  then show ?thesis using inv by (simp add: RetainForRecovery_def Let_def)
next
  case False
  from held_lease [OF inv k False pend] have held: "gReaders c = 0"
      "\<forall>i<length (cExclusive c). i \<noteq> k \<longrightarrow> lGateReleased (cExclusive c ! i)" by simp_all
  from inv k have l: "lease_ok (cExclusive c ! k)" by (simp add: maint_inv_def leases_ok_def)
  obtain s where "snd (RetainForRecovery save k c) = c\<lparr>gWriter := False,
      cState := recovery_state (lActiveState (cExclusive c ! k)), cPendingRelease := cPendingRelease c,
      cStore := s, cExclusive := (cExclusive c)[k := (cExclusive c ! k)\<lparr>lClosed := True, lGateReleased := True\<rparr>]\<rparr>"
    using RetainForRecovery_held [OF inv k False pend, of save] by blast
  moreover have "\<forall>x. cPendingRelease c = Some x \<longrightarrow> \<not> mRecoveryRequired x"
    using inv by (simp add: maint_inv_def state_ok_def)
  ultimately show ?thesis
    using inv k l held by (simp only:) (intro end_hold_inv, simp_all add: lease_ok_def)
qed

text \<open>What closing an activated lease does to the state: the four outcomes of the release.\<close>

lemma release_frame:
  "\<exists>st s p. snd (releaseLocked save e c) = c\<lparr>cState := st, cStore := s, cPendingRelease := p\<rparr>
     \<and> (st = cState c \<or> st = no_state \<and> cState c = e \<and> mActive e)
     \<and> (p = None \<or> p = cPendingRelease c \<or> p = Some e)"
proof (cases rule: releaseLocked_cases [of c save e])
  case inactive
  then have "snd (releaseLocked save e c) = c\<lparr>cState := cState c, cStore := cStore c, cPendingRelease := None\<rparr>"
    by simp
  then show ?thesis by blast
next
  case (foreign p msg)
  then have "snd (releaseLocked save e c) = c\<lparr>cState := cState c, cStore := cStore c, cPendingRelease := p\<rparr>"
    by simp
  then show ?thesis using foreign(3) by blast
next
  case (released st)
  then have "snd (releaseLocked save e c) = c\<lparr>cState := no_state, cStore := st, cPendingRelease := None\<rparr>"
    by simp
  then show ?thesis using released(1,2) by blast
next
  case (failed st msg)
  then have "snd (releaseLocked save e c) = c\<lparr>cState := cState c, cStore := st, cPendingRelease := Some e\<rparr>"
    by simp
  then show ?thesis by blast
qed

lemma foreign_hold:
  assumes inv: "maint_inv c" and k: "k < length (cExclusive c)" "lActivated (cExclusive c ! k)"
      "lGateReleased (cExclusive c ! k)" and st: "cState c = lActiveState (cExclusive c ! k)" "mActive (cState c)"
    and i: "i < length (cExclusive c)"
  shows "lGateReleased (cExclusive c ! i)"
proof (rule ccontr)
  assume h: "\<not> lGateReleased (cExclusive c ! i)"
  with inv i have "if lActivated (cExclusive c ! i) then cState c = lActiveState (cExclusive c ! i)
      else \<not> mActive (cState c)" by (simp add: maint_inv_def state_ok_def)
  with st have "lActivated (cExclusive c ! i)" "lActiveState (cExclusive c ! i) = lActiveState (cExclusive c ! k)"
    by (auto split: if_splits)
  with inv i k have "i = k" by (simp add: maint_inv_def leases_ok_def)
  with h k show False by simp
qed

lemma close_pending_inv:
  assumes inv: "maint_inv c" and k: "k < length (cExclusive c)" "lActivated (cExclusive c ! k)"
      "lGateReleased (cExclusive c ! k)" and l: "lease_ok l" "lGateReleased l" "lActivated l"
      "lActiveState l = lActiveState (cExclusive c ! k)"
    and r: "snd (releaseLocked save (lActiveState (cExclusive c ! k)) c) = c1"
  shows "maint_inv (set_lease k l c1)"
proof -
  let ?e = "lActiveState (cExclusive c ! k)"
  obtain st s p where c1: "c1 = c\<lparr>cState := st, cStore := s, cPendingRelease := p\<rparr>"
      "st = cState c \<or> st = no_state \<and> cState c = ?e \<and> mActive ?e"
      "p = None \<or> p = cPendingRelease c \<or> p = Some ?e"
    using release_frame [of save ?e c] r by blast
  have "\<not> mRecoveryRequired ?e" using inv k by (simp add: maint_inv_def leases_ok_def lease_ok_def)
  then have p: "\<forall>x. p = Some x \<longrightarrow> \<not> mRecoveryRequired x" using inv c1(3) by (auto simp: maint_inv_def state_ok_def)
  have ls: "leases_ok ((cExclusive c)[k := l])"
    using inv k l by (intro leases_ok_update) (simp_all add: maint_inv_def)
  have held: "\<not> lGateReleased ((cExclusive c)[k := l] ! i) \<longleftrightarrow> \<not> lGateReleased (cExclusive c ! i)"
    if "i < length (cExclusive c)" for i using that k l by (auto simp: nth_list_update)
  have same: "\<not> lGateReleased (cExclusive c ! i) \<Longrightarrow> (cExclusive c)[k := l] ! i = cExclusive c ! i" for i
    using k(3) by (cases "i = k") simp_all
  from c1(2) show ?thesis
  proof
    assume "st = cState c"
    with inv ls held same p show ?thesis
      by (auto simp: maint_inv_def gate_ok_def state_ok_def set_lease_def c1(1))
  next
    assume "st = no_state \<and> cState c = ?e \<and> mActive ?e"
    with foreign_hold [OF inv k] inv ls held p show ?thesis
      by (auto simp: maint_inv_def gate_ok_def state_ok_def set_lease_def c1(1))
  qed
qed

lemma close_held_inv:
  assumes inv: "maint_inv c" and k: "k < length (cExclusive c)" "\<not> lClosed (cExclusive c ! k)"
      "\<not> lReleasePending (cExclusive c ! k)" and l: "lease_ok (l\<lparr>lGateReleased := True\<rparr>)" "\<not> lGateReleased l"
      "lActivated l = lActivated (cExclusive c ! k)" "lActiveState l = lActiveState (cExclusive c ! k)"
    and c1: "c1 = c\<lparr>cState := st, cStore := s, cPendingRelease := p\<rparr>"
    and p: "\<forall>x. p = Some x \<longrightarrow> \<not> mRecoveryRequired x"
  shows "maint_inv (releaseGate k l c1)"
proof -
  from held_lease [OF inv k] have held: "gReaders c = 0"
      "\<forall>i<length (cExclusive c). i \<noteq> k \<longrightarrow> lGateReleased (cExclusive c ! i)" by simp_all
  have "releaseGate k l c1 = c\<lparr>gWriter := False, cState := st, cPendingRelease := p, cStore := s,
      cExclusive := (cExclusive c)[k := l\<lparr>lGateReleased := True\<rparr>]\<rparr>"
    using l(2) by (simp add: releaseGate_def set_lease_def c1)
  then show ?thesis
    using inv k l held p by (simp only:) (intro end_hold_inv, simp_all)
qed

lemma ExclusiveLease_Close_inv:
  assumes inv: "maint_inv c" and k: "k < length (cExclusive c)"
  shows "maint_inv (snd (ExclusiveLease_Close save k c))"
proof (cases "lClosed (cExclusive c ! k)")
  case True
  then show ?thesis using inv by (simp add: ExclusiveLease_Close_def Let_def)
next
  case opn: False
  let ?l = "cExclusive c ! k" and ?e = "lActiveState (cExclusive c ! k)"
  have l: "lease_ok ?l" using inv k by (simp add: maint_inv_def leases_ok_def)
  have pend: "\<forall>x. cPendingRelease c = Some x \<longrightarrow> \<not> mRecoveryRequired x"
    using inv by (simp add: maint_inv_def state_ok_def)
  show ?thesis
  proof (cases "lActivated ?l")
    case False
    then have np: "\<not> lReleasePending ?l" using l by (simp add: lease_ok_def)
    have "maint_inv (releaseGate k (?l\<lparr>lReleasePending := False, lClosed := True\<rparr>) c)"
      by (rule close_held_inv [OF inv k opn np, where st = "cState c" and s = "cStore c" and p = "cPendingRelease c"])
        (use l False opn np pend in \<open>simp_all add: lease_ok_def\<close>)
    then show ?thesis using False opn by (simp add: ExclusiveLease_Close_def Let_def)
  next
    case True
    obtain r c1 where rel: "releaseLocked save ?e c = (r, c1)" by (cases "releaseLocked save ?e c")
    let ?l' = "if isl r then ?l\<lparr>lReleasePending := True\<rparr> else ?l\<lparr>lReleasePending := False, lClosed := True\<rparr>"
    have cl: "snd (ExclusiveLease_Close save k c) = releaseGate k ?l' c1"
      using True opn rel by (cases r) (simp_all add: ExclusiveLease_Close_def Let_def)
    obtain st s p where c1: "c1 = c\<lparr>cState := st, cStore := s, cPendingRelease := p\<rparr>"
        "p = None \<or> p = cPendingRelease c \<or> p = Some ?e"
      using release_frame [of save ?e c] unfolding rel snd_conv by blast
    have "\<not> mRecoveryRequired ?e" using True l by (simp add: lease_ok_def)
    then have p: "\<forall>x. p = Some x \<longrightarrow> \<not> mRecoveryRequired x" using pend c1(2) by auto
    show ?thesis
    proof (cases "lReleasePending ?l")
      case released: True
      then have g: "lGateReleased ?l" using l by (simp add: lease_ok_def)
      then have "releaseGate k ?l' c1 = set_lease k ?l' c1" by (simp add: releaseGate_def)
      moreover have "maint_inv (set_lease k ?l' c1)"
        by (rule close_pending_inv [OF inv k True g, of ?l' save]) (use l True g rel in \<open>simp_all add: lease_ok_def\<close>)
      ultimately show ?thesis by (simp add: cl)
    next
      case False
      then have "maint_inv (releaseGate k ?l' c1)"
        by (intro close_held_inv [OF inv k opn False _ _ _ _ c1(1) p])
          (use l True opn in \<open>simp_all add: lease_ok_def\<close>)
      then show ?thesis by (simp add: cl)
    qed
  qed
qed

lemma maint_step_inv: "maint_step save c c' \<Longrightarrow> maint_inv c \<Longrightarrow> maint_inv c'"
  by (induction rule: maint_step.induct)
    (simp_all add: TryShared_inv TryProbe_inv TryExclusive_inv SharedLease_Close_inv Activate_inv Handoff_inv
      RetainForRecovery_inv ExclusiveLease_Close_inv)

lemma maint_run_inv: "(maint_step save)\<^sup>*\<^sup>* c c' \<Longrightarrow> maint_inv c \<Longrightarrow> maint_inv c'"
  by (induction rule: rtranclp_induct) (auto intro: maint_step_inv)

definition started :: "'s load \<Rightarrow> 's save \<Rightarrow> 's \<Rightarrow> 's coordinator \<Rightarrow> bool" where
  "started load save s c \<longleftrightarrow> Initialize load save (NewCoordinator s) = (Inr (), c)"

lemma started_frame:
  "started load save s c \<Longrightarrow> gReaders c = 0 \<and> \<not> gWriter c \<and> cExclusive c = [] \<and> cShared c = []
     \<and> cPendingRelease c = None"
  by (auto simp: started_def Initialize_def NewCoordinator_def publish_def
      split: sum.splits if_splits prod.splits bool.splits)

lemma started_inv: "started load save s c \<Longrightarrow> maint_inv c"
  using started_frame [of load save s c]
  by (simp add: maint_inv_def leases_ok_def gate_ok_def state_ok_def)

subsection \<open>The recovery latch: lemmas\<close>

lemma latched_no_hold:
  assumes inv: "maint_inv c" and la: "latched (cState c)" and k: "k < length (cExclusive c)"
  shows "lClosed (cExclusive c ! k) \<or> lReleasePending (cExclusive c ! k)"
proof (rule ccontr)
  assume "\<not> ?thesis"
  with held_lease [OF inv k] have h: "\<not> lGateReleased (cExclusive c ! k)" by simp
  with inv k have "if lActivated (cExclusive c ! k) then cState c = lActiveState (cExclusive c ! k)
      else \<not> mActive (cState c)" by (simp add: maint_inv_def state_ok_def)
  moreover have "lease_ok (cExclusive c ! k)" using inv k by (simp add: maint_inv_def leases_ok_def)
  ultimately show False using la by (auto simp: latched_def lease_ok_def split: if_splits)
qed

lemma latched_recover: 
  assumes "maint_inv c" "latched (cState c)"
  shows "cState (recoverPendingRelease save c) = cState c"
proof -
  have "cPendingRelease c \<noteq> Some (cState c)"
    using assms by (auto simp: maint_inv_def state_ok_def latched_def)
  then show ?thesis using recoverPendingRelease_frame [of save c] by auto
qed

lemma latched_close:
  assumes inv: "maint_inv c" and la: "latched (cState c)" and k: "k < length (cExclusive c)"
  shows "cState (snd (ExclusiveLease_Close save k c)) = cState c"
proof (cases "lClosed (cExclusive c ! k)")
  case False
  let ?e = "lActiveState (cExclusive c ! k)"
  have l: "lease_ok (cExclusive c ! k)" using inv k by (simp add: maint_inv_def leases_ok_def)
  with latched_no_hold [OF inv la k] False have act: "lActivated (cExclusive c ! k)" by (auto simp: lease_ok_def)
  with l la have "cState c \<noteq> ?e" by (auto simp: lease_ok_def latched_def)
  then have "cState (snd (releaseLocked save ?e c)) = cState c" using release_frame [of save ?e c] by auto
  with act False show ?thesis
    by (cases "releaseLocked save ?e c")
      (auto simp: ExclusiveLease_Close_def Let_def releaseGate_def set_lease_def split: sum.split)
qed (simp add: ExclusiveLease_Close_def Let_def)

lemma latched_step:
  assumes "maint_step save c c'" "maint_inv c" "latched (cState c)"
  shows "cState c' = cState c"
  using assms
proof (induction rule: maint_step.induct)
  case (step_activate k c now facts)
  then show ?case using latched_no_hold [of c k] by (auto simp: Activate_def Let_def)
next
  case (step_retain k c)
  then show ?case using latched_no_hold [of c k] by (auto simp: RetainForRecovery_def Let_def)
next
  case (step_close k c)
  then show ?case by (simp add: latched_close)
next
  case (step_shared c)
  then show ?case using latched_recover [of c save] by (simp add: TryShared_def Let_def latched_def)
next
  case (step_exclusive c operation)
  then show ?case using latched_recover [of c save] by (simp add: TryExclusive_def Let_def latched_def)
qed (auto simp: TryProbe_def SharedLease_Close_def Handoff_def Let_def latched_def split: prod.split bool.split)

lemma latched_run:
  "(maint_step save)\<^sup>*\<^sup>* c c' \<Longrightarrow> maint_inv c \<Longrightarrow> latched (cState c) \<Longrightarrow> cState c' = cState c"
proof (induction rule: rtranclp_induct)
  case (step y z)
  then show ?case using latched_step [of save y z] maint_run_inv [of save c y] by simp
qed simp

subsection \<open>What the coordinator relies on in a store\<close>

definition persisted :: "'s load \<Rightarrow> 's coordinator \<Rightarrow> bool" where
  "persisted load c \<longleftrightarrow> (\<forall>x. load (cStore c) = Inr x \<longrightarrow> x = cState c
     \<or> latched (cState c) \<and> (mKind (cState c) = OperationBackupRestore \<longrightarrow>
          mActive x \<and> mKind x = OperationBackupRestore))"

locale maintenance_store =
  fixes save :: "'s save" and load :: "'s load"
  assumes save_ok: "save st s = (True, s') \<Longrightarrow> load s' = Inr x \<Longrightarrow> x = st"
    and save_failed: "save st s = (False, s') \<Longrightarrow> load s' = load s"
begin

lemma release_attempts_store:
  "release_attempts save n s = (ok, s') \<Longrightarrow> (if ok then \<forall>x. load s' = Inr x \<longrightarrow> x = no_state else load s' = load s)"
proof (induction n arbitrary: s)
  case (Suc n)
  obtain ok1 s1 where sv: "save no_state s = (ok1, s1)" by (cases "save no_state s")
  show ?case
  proof (cases ok1)
    case True
    with Suc.prems sv save_ok show ?thesis by auto
  next
    case False
    with Suc sv save_failed [of no_state s s1] show ?thesis by auto
  qed
qed simp

lemma persisted_release:
  assumes "persisted load c"
  shows "persisted load (snd (releaseLocked save e c))"
proof (cases rule: releaseLocked_cases [of c save e])
  case (released st)
  then show ?thesis using release_attempts_store [OF released(3)] by (simp add: persisted_def)
next
  case (failed st msg)
  then show ?thesis using assms release_attempts_store [OF failed(3)] by (simp add: persisted_def)
qed (use assms in \<open>simp_all add: persisted_def\<close>)

lemma persisted_recover: "persisted load c \<Longrightarrow> persisted load (recoverPendingRelease save c)"
  by (simp add: recoverPendingRelease_def persisted_release split: option.split)

lemma persisted_same:
  "persisted load c \<Longrightarrow> cState c' = cState c \<Longrightarrow> cStore c' = cStore c \<Longrightarrow> persisted load c'"
  by (simp add: persisted_def)

lemma persisted_close: "persisted load c \<Longrightarrow> persisted load (snd (ExclusiveLease_Close save k c))"
proof -
  assume p: "persisted load c"
  let ?r = "if lActivated (cExclusive c ! k) then releaseLocked save (lActiveState (cExclusive c ! k)) c else (Inr (), c)"
  have "persisted load (snd ?r)" using p persisted_release by simp
  with p show ?thesis
    by (cases ?r) (auto simp: ExclusiveLease_Close_def Let_def releaseGate_def set_lease_def
        elim: persisted_same split: sum.split)
qed

lemma persisted_retain:
  assumes inv: "maint_inv c" and p: "persisted load c" and k: "k < length (cExclusive c)"
    and np: "\<not> lReleasePending (cExclusive c ! k)"
  shows "persisted load (snd (RetainForRecovery save k c))"
proof (cases "lClosed (cExclusive c ! k)")
  case True
  then show ?thesis using p by (simp add: RetainForRecovery_def Let_def)
next
  case False
  let ?l = "cExclusive c ! k" and ?c' = "snd (RetainForRecovery save k c)"
  obtain ok s where sv: "save (recovery_state (lActiveState ?l)) (cStore c) = (ok, s)"
      and c': "cState ?c' = recovery_state (lActiveState ?l)" "cStore ?c' = s"
    using RetainForRecovery_held [OF inv k False np, of save] by auto
  have la: "latched (recovery_state st)" "mKind (recovery_state st) = mKind st" for st
    by (simp_all add: latched_def recovery_state_def)
  have "\<not> latched (cState c)" using latched_no_hold [OF inv _ k] False np by blast
  then have same: "load (cStore c) = Inr x \<Longrightarrow> x = cState c" for x using p by (auto simp: persisted_def)
  have "lActivated ?l \<Longrightarrow> cState c = lActiveState ?l \<and> mActive (lActiveState ?l)"
    using inv k held_lease [OF inv k False np] by (auto simp: maint_inv_def state_ok_def leases_ok_def lease_ok_def)
  moreover have "\<not> lActivated ?l \<Longrightarrow> mKind (lActiveState ?l) = []"
    using inv k by (simp add: maint_inv_def leases_ok_def lease_ok_def)
  ultimately show ?thesis
    using sv save_ok [of _ _ s] save_failed [of _ "cStore c" s] same la
    by (cases ok; cases "lActivated ?l") (auto simp: persisted_def c')
qed

lemma persisted_step:
  assumes "maint_step save c c'" "maint_inv c" "persisted load c"
  shows "persisted load c'"
  using assms
proof (induction rule: maint_step.induct)
  case (step_activate k c now facts)
  show ?case
    using step_activate(4) save_ok save_failed
    by (auto simp: Activate_def Let_def set_lease_def publish_def persisted_def split: prod.split bool.split)
next
  case (step_handoff k c)
  show ?case
    using step_handoff(3) save_ok save_failed
    by (auto simp: Handoff_def Let_def persisted_def split: prod.split bool.split)
next
  case (step_shared c)
  then show ?case using persisted_recover [of c]
    by (auto simp: TryShared_def Let_def elim: persisted_same)
next
  case (step_exclusive c operation)
  then show ?case using persisted_recover [of c]
    by (auto simp: TryExclusive_def Let_def elim: persisted_same)
qed (auto simp: TryProbe_def SharedLease_Close_def persisted_retain persisted_close elim: persisted_same)

lemma persisted_start: "started load save s c \<Longrightarrow> persisted load c"
  using save_ok
  by (auto simp: started_def Initialize_def NewCoordinator_def publish_def persisted_def latched_def
      split: sum.splits if_splits prod.splits bool.splits)

lemma persisted_run:
  assumes "(maint_step save)\<^sup>*\<^sup>* c c'" "maint_inv c" "persisted load c"
  shows "persisted load c'"
  using assms
proof (induction rule: rtranclp_induct)
  case (step y z)
  then show ?case using persisted_step [of y z] maint_run_inv [of save c y] by simp
qed simp

lemma latch_restart:
  assumes "persisted load c" "latched (cState c)" "mKind (cState c) = OperationBackupRestore"
    and "started load save (cStore c) c'"
  shows "latched (cState c') \<and> mKind (cState c') = OperationBackupRestore"
proof -
  from assms(4) obtain x where x: "load (cStore c) = Inr x"
    by (auto simp: started_def Initialize_def NewCoordinator_def split: sum.splits)
  with assms(1-3) have "mActive x \<and> mKind x = OperationBackupRestore" by (auto simp: persisted_def latched_def)
  with assms(4) x show ?thesis
    by (auto simp: started_def Initialize_def NewCoordinator_def publish_def latched_def)
qed

end

interpretation memory: maintenance_store MemoryStore_Save MemoryStore_Load
  by unfold_locales (auto simp: MemoryStore_Save_def MemoryStore_Load_def split: if_splits option.splits)

subsection \<open>Properties\<close>

text \<open>A run: a restore takes the exclusive lease, activates it and keeps it for recovery.\<close>

definition sample_store :: memory_store where
  "sample_store = \<lparr>msState = no_state, msLoadError = None, msSaveError = None\<rparr>"

definition sample_facts :: operation_facts where
  "sample_facts = \<lparr>ofJobID = ''j'', ofActor = ''ops'', ofMessage = ''restore''\<rparr>"

definition sample_exclusive :: "memory_store coordinator" where
  "sample_exclusive = snd (TryExclusive MemoryStore_Save OperationBackupRestore (NewCoordinator sample_store))"

definition sample_active :: "memory_store coordinator" where
  "sample_active = snd (Activate MemoryStore_Save ''t0'' sample_facts 0 sample_exclusive)"

definition sample_latched :: "memory_store coordinator" where
  "sample_latched = snd (RetainForRecovery MemoryStore_Save 0 sample_active)"

lemma restore_started: "started MemoryStore_Load MemoryStore_Save sample_store (NewCoordinator sample_store)"
  by code_simp

lemma restore_run:
  "(maint_step MemoryStore_Save)\<^sup>*\<^sup>* (NewCoordinator sample_store) sample_exclusive"
  "(maint_step MemoryStore_Save)\<^sup>*\<^sup>* (NewCoordinator sample_store) sample_active"
  "(maint_step MemoryStore_Save)\<^sup>*\<^sup>* (NewCoordinator sample_store) sample_latched"
proof -
  show 1: "(maint_step MemoryStore_Save)\<^sup>*\<^sup>* (NewCoordinator sample_store) sample_exclusive"
    unfolding sample_exclusive_def by (rule r_into_rtranclp) (rule maint_step.step_exclusive)
  have "maint_step MemoryStore_Save sample_exclusive sample_active"
    unfolding sample_active_def by (rule maint_step.step_activate) code_simp+
  with 1 show 2: "(maint_step MemoryStore_Save)\<^sup>*\<^sup>* (NewCoordinator sample_store) sample_active" by simp
  have "maint_step MemoryStore_Save sample_active sample_latched"
    unfolding sample_latched_def by (rule maint_step.step_retain) code_simp+
  with 2 show "(maint_step MemoryStore_Save)\<^sup>*\<^sup>* (NewCoordinator sample_store) sample_latched" by simp
qed

text \<open>C4: In every reachable state of the coordinator, with any store, at most one exclusive lease
  holds the gate, no exclusive lease holds it while a shared lease is open, and no maintenance
  state is active while a shared lease is open.\<close>

theorem maintenance_excludes_shared_work:
  assumes "started load save s c0" and "(maint_step save)\<^sup>*\<^sup>* c0 c"
  shows "length (filter (\<lambda>l. \<not> lGateReleased l) (cExclusive c)) \<le> 1
     \<and> (if False \<in> set (cShared c)
        then list_all lGateReleased (cExclusive c) \<and> \<not> mActive (cState c) else True)"
proof -
  have inv: "maint_inv c" using maint_run_inv [OF assms(2)] started_inv [OF assms(1)] by simp
  have "length (filter (\<lambda>l. \<not> lGateReleased l) (cExclusive c)) = card {i. i < length (cExclusive c) \<and> \<not> lGateReleased (cExclusive c ! i)}"
    by (rule length_filter_conv_card)
  also have "\<dots> \<le> 1"
    using inv by (intro card_le_Suc0_iff_eq [THEN iffD2, simplified One_nat_def [symmetric]])
      (auto simp: maint_inv_def leases_ok_def)
  finally have one: "length (filter (\<lambda>l. \<not> lGateReleased l) (cExclusive c)) \<le> 1" .
  have "list_all lGateReleased (cExclusive c) \<and> \<not> mActive (cState c)" if "False \<in> set (cShared c)"
  proof -
    have "filter Not (cShared c) \<noteq> []" using that by (simp add: filter_empty_conv) blast
    then have "0 < gReaders c" using inv by (simp add: maint_inv_def gate_ok_def)
    with inv show ?thesis by (auto simp: maint_inv_def gate_ok_def state_ok_def list_all_length)
  qed
  with one show ?thesis by simp
qed

theorem maintenance_excludes_shared_work_witness:
  "length (filter (\<lambda>l. \<not> lGateReleased l) (cExclusive sample_active)) \<le> 1
     \<and> (if False \<in> set (cShared sample_active)
        then list_all lGateReleased (cExclusive sample_active) \<and> \<not> mActive (cState sample_active) else True)"
  by (rule maintenance_excludes_shared_work [OF restore_started restore_run(2)])

text \<open>C30: Once the recovery latch is set, no sequence of calls clears or changes it: lease closes and
  retried releases leave it, and every request for shared or exclusive work and every probe is
  denied.\<close>

theorem recovery_latch_is_permanent:
  assumes "started load save s c0" and "(maint_step save)\<^sup>*\<^sup>* c0 c" and "(maint_step save)\<^sup>*\<^sup>* c c'"
    and "latched (cState c)"
  shows "cState c' = cState c \<and> isl (fst (TryShared save c')) \<and> isl (fst (TryExclusive save operation c'))
     \<and> isl (fst (TryProbe c'))"
proof -
  have inv: "maint_inv c" using maint_run_inv [OF assms(2)] started_inv [OF assms(1)] by simp
  have same: "cState c' = cState c" by (rule latched_run [OF assms(3) inv assms(4)])
  have "maint_inv c'" "latched (cState c')" using maint_run_inv [OF assms(3) inv] assms(4) same by simp_all
  with latched_recover [of c' save] same show ?thesis
    by (simp add: TryShared_def TryExclusive_def TryProbe_def Let_def latched_def)
qed

theorem recovery_latch_is_permanent_witness:
  "cState (snd (ExclusiveLease_Close MemoryStore_Save 0 sample_latched)) = cState sample_latched
     \<and> isl (fst (TryShared MemoryStore_Save (snd (ExclusiveLease_Close MemoryStore_Save 0 sample_latched))))
     \<and> isl (fst (TryExclusive MemoryStore_Save OperationBackupExport
          (snd (ExclusiveLease_Close MemoryStore_Save 0 sample_latched))))
     \<and> isl (fst (TryProbe (snd (ExclusiveLease_Close MemoryStore_Save 0 sample_latched))))"
proof (rule recovery_latch_is_permanent [OF restore_started restore_run(3)])
  show "(maint_step MemoryStore_Save)\<^sup>*\<^sup>* sample_latched (snd (ExclusiveLease_Close MemoryStore_Save 0 sample_latched))"
    by (rule r_into_rtranclp, rule maint_step.step_close) code_simp
  show "latched (cState sample_latched)" by code_simp
qed



text \<open>Closing an active lease frees the gate in any case. If one of the five attempts to store the
  inactive state succeeds, the lease is closed and the state is inactive. If all fail, the close
  reports the error, the state stays active, and the next request for shared work is admitted
  exactly when its own five attempts succeed.\<close>

lemma close_releases_or_keeps_closed:
  assumes "started load save s c0" and "(maint_step save)\<^sup>*\<^sup>* c0 c" and "k < length (cExclusive c)"
    and "\<not> lClosed (cExclusive c ! k)" and "\<not> lReleasePending (cExclusive c ! k)"
    and "lActivated (cExclusive c ! k)"
  shows "case ExclusiveLease_Close save k c of (res, c') \<Rightarrow>
     \<not> gWriter c'
     \<and> (if fst (release_attempts save exclusiveLeaseReleaseAttempts (cStore c))
        then res = Inr () \<and> cState c' = no_state \<and> lClosed (cExclusive c' ! k)
        else isl res \<and> mActive (cState c') \<and> \<not> lClosed (cExclusive c' ! k)
          \<and> isl (fst (TryShared save c'))
              = (\<not> fst (release_attempts save exclusiveLeaseReleaseAttempts (cStore c'))))"
proof -
  have inv: "maint_inv c" using maint_run_inv [OF assms(2)] started_inv [OF assms(1)] by simp
  let ?l = "cExclusive c ! k" and ?e = "lActiveState (cExclusive c ! k)"
  have g: "\<not> lGateReleased ?l" using held_lease [OF inv assms(3-5)] by simp
  with inv assms(3,6) have st: "cState c = ?e" "mActive ?e"
    by (auto simp: maint_inv_def state_ok_def leases_ok_def lease_ok_def)
  obtain ok s1 where att: "release_attempts save exclusiveLeaseReleaseAttempts (cStore c) = (ok, s1)"
    by (cases "release_attempts save exclusiveLeaseReleaseAttempts (cStore c)")
  show ?thesis
  proof (cases ok)
    case True
    then have "releaseLocked save ?e c = (Inr (), c\<lparr>cStore := s1, cPendingRelease := None, cState := no_state\<rparr>)"
      using st att by (simp add: releaseLocked_def publish_def)
    with True g assms(3-6) att show ?thesis
      by (simp add: ExclusiveLease_Close_def Let_def releaseGate_def set_lease_def)
  next
    case False
    obtain ok2 s2 where att2: "release_attempts save exclusiveLeaseReleaseAttempts s1 = (ok2, s2)"
      by (cases "release_attempts save exclusiveLeaseReleaseAttempts s1")
    from False have rel: "releaseLocked save ?e c = (Inl ''save failed'', c\<lparr>cStore := s1, cPendingRelease := Some ?e\<rparr>)"
      using st att by (simp add: releaseLocked_def)
    have cl: "ExclusiveLease_Close save k c = (Inl ''save failed'', c\<lparr>cStore := s1, cPendingRelease := Some ?e,
        gWriter := False, cExclusive := (cExclusive c)[k := ?l\<lparr>lReleasePending := True, lGateReleased := True\<rparr>]\<rparr>)"
      using False g assms(3-6) by (simp add: ExclusiveLease_Close_def Let_def rel releaseGate_def set_lease_def)
    show ?thesis using False st att att2 assms(3,4) unfolding cl
      by (cases ok2) (simp_all add: TryShared_def Let_def recoverPendingRelease_def releaseLocked_def publish_def)
  qed
qed

text \<open>C39: The SQLite store does not keep the contract when reading fails: a query error leaves the
  scanned text empty, and the check for empty text precedes the check for the error. A coordinator
  that starts while the query fails comes up without error and without the latch, whatever is
  stored, and admits work.\<close>

theorem sqlite_load_error_drops_latch:
  "case Initialize (SQLiteStore_Load unmarshal) save (NewCoordinator \<lparr>qValue = Some v, qError = Some e\<rparr>)
   of (res, c) \<Rightarrow> res = Inr () \<and> \<not> mActive (cState c) \<and> \<not> isl (fst (TryShared save c))"
  by (simp add: Initialize_def SQLiteStore_Load_def NewCoordinator_def publish_def TryShared_def
      recoverPendingRelease_def)

end
