(* ===== verification/Deferrals.thy ===== *)
theory Deferrals
  imports Prelude "HOL-Library.Multiset"
begin

section \<open>Deferrals: expiring package exceptions\<close>

text \<open>
  The model of \<open>internal/deferrals/deferrals.go\<close>. The table is the list of its rows.
  Times are nanoseconds since the epoch; \<open>parse\<close> is \<open>time.Parse\<close> for RFC 3339 and
  \<open>fmt\<close> the formatting of a time, \<open>digest\<close> the SHA-256 of the JSON of the rules, and the
  fresh identifier is an argument.
\<close>

record rule =
  dID :: string
  dServerName :: string
  dPolicyID :: int
  dSelector :: string
  dReason :: string
  dAuthor :: string
  dCreatedAt :: string
  dExpiresAt :: string
  dOrigin :: string
  dExpiresAtDisplay :: string

record deferral_snapshot =
  snRevision :: string
  snRules :: "rule list"

datatype deferral_error =
    ErrSelector | ErrReason | ErrTarget | ErrExpiration | ErrActor | ErrInvalidPersisted string
  | ErrDuplicate | ErrNotFound

definition name_char :: "char \<Rightarrow> bool" where
  "name_char c \<longleftrightarrow> is_lower c \<or> is_digit c \<or> c = CHR ''+'' \<or> c = CHR ''.'' \<or> c = CHR ''-''"

definition arch_char :: "char \<Rightarrow> bool" where
  "arch_char c \<longleftrightarrow> is_lower c \<or> is_digit c \<or> c = CHR ''-''"

definition alnum :: "char \<Rightarrow> bool" where
  "alnum c \<longleftrightarrow> is_lower c \<or> is_digit c"

text \<open>\<open>^[a-z0-9][a-z0-9+.-]+(:[a-z0-9][a-z0-9-]*)?$\<close>, split at the first colon.\<close>

definition selectorPattern :: "string \<Rightarrow> bool" where
  "selectorPattern s \<longleftrightarrow>
     (let (name, arch, hasArch) = cut_at s CHR '':'' in
      2 \<le> length name \<and> alnum (hd name) \<and> list_all name_char (tl name)
      \<and> (hasArch \<longrightarrow> arch \<noteq> [] \<and> alnum (hd arch) \<and> list_all arch_char (tl arch)))"

definition ValidSelector :: "string \<Rightarrow> bool" where
  "ValidSelector s \<longleftrightarrow>
     (let (name, arch, hasArch) = cut_at s CHR '':'' in
      selectorPattern s \<and> \<not> suffix ''-'' name \<and> \<not> contains name ''.+''
      \<and> (\<not> hasArch \<or> \<not> suffix ''-'' arch))"

definition list_rules :: "rule list \<Rightarrow> rule list" where
  "list_rules t = sort_key dID t"

definition create_rule ::
  "(string \<Rightarrow> int option) \<Rightarrow> (int \<Rightarrow> string) \<Rightarrow> string \<Rightarrow> rule \<Rightarrow> string \<Rightarrow> int \<Rightarrow> rule list
    \<Rightarrow> (deferral_error, rule \<times> rule list) result" where
  "create_rule parse fmt newID r author now t =
     (if \<not> ValidSelector (dSelector r) then Inl ErrSelector
      else let reason = trim_space (dReason r) in
        if reason = [] \<or> 1000 < length reason then Inl ErrReason
        else if ((dServerName r = []) = (dPolicyID r = 0)) \<or> dPolicyID r < 0 then Inl ErrTarget
        else case parse (dExpiresAt r) of
          None \<Rightarrow> Inl ErrExpiration
        | Some expires \<Rightarrow>
            if \<not> now < expires then Inl ErrExpiration
            else if trim_space author = [] then Inl ErrActor
            else let r' = r\<lparr>dID := newID, dReason := reason, dAuthor := author, dCreatedAt := fmt now,
                        dExpiresAt := fmt expires, dOrigin := [], dExpiresAtDisplay := []\<rparr>
                 in if newID \<in> dID ` set t then Inl ErrDuplicate else Inr (r', t @ [r']))"

definition delete_rule :: "string \<Rightarrow> rule list \<Rightarrow> (deferral_error, rule list) result" where
  "delete_rule i t = (if i \<in> dID ` set t then Inr (filter (\<lambda>r. dID r \<noteq> i) t) else Inl ErrNotFound)"

fun resolve_rules ::
  "(string \<Rightarrow> int option) \<Rightarrow> string \<Rightarrow> (int \<Rightarrow> string option) \<Rightarrow> int \<Rightarrow> rule list
    \<Rightarrow> (deferral_error, rule list) result" where
  "resolve_rules parse server policies now [] = Inr []"
| "resolve_rules parse server policies now (r # rs) =
     (if dServerName r \<noteq> server \<and> policies (dPolicyID r) = None
      then resolve_rules parse server policies now rs
      else case parse (dExpiresAt r) of
        None \<Rightarrow> Inl (ErrInvalidPersisted (dID r))
      | Some expires \<Rightarrow>
          if \<not> ValidSelector (dSelector r) then Inl (ErrInvalidPersisted (dID r))
          else if \<not> now < expires then resolve_rules parse server policies now rs
          else let origin = (if dServerName r = server then ''Server: '' @ server
                             else ''Policy: '' @ the (policies (dPolicyID r)))
               in bind_result (resolve_rules parse server policies now rs)
                    (\<lambda>out. Inr (r\<lparr>dOrigin := origin, dExpiresAtDisplay := []\<rparr> # out)))"

definition Resolve ::
  "(string \<Rightarrow> int option) \<Rightarrow> (rule list \<Rightarrow> string) \<Rightarrow> rule list \<Rightarrow> string \<Rightarrow> (int \<Rightarrow> string option) \<Rightarrow> int
    \<Rightarrow> (deferral_error, deferral_snapshot) result" where
  "Resolve parse digest rules server policies now =
     bind_result (resolve_rules parse server policies now rules)
       (\<lambda>out. let sorted = sort_key dID out in
          Inr \<lparr>snRevision = (if sorted = [] then [] else digest sorted), snRules = sorted\<rparr>)"

definition Matches :: "string \<Rightarrow> string \<Rightarrow> bool" where
  "Matches rule selector \<longleftrightarrow>
     (let (rn, ra, rq) = cut_at rule CHR '':''; (pn, pa, pq) = cut_at selector CHR '':'' in
      rn = pn \<and> (\<not> rq \<or> \<not> pq \<or> ra = pa \<or> pa = ''all''))"

definition Selectors :: "deferral_snapshot \<Rightarrow> string list" where
  "Selectors s = remdups_adj (sort (map dSelector (snRules s)))"

definition Snapshot_Matches :: "deferral_snapshot \<Rightarrow> string \<Rightarrow> bool" where
  "Snapshot_Matches s selector \<longleftrightarrow> list_ex (\<lambda>r. Matches (dSelector r) selector) (snRules s)"

definition unix_time :: "int \<Rightarrow> int" where
  "unix_time t = t div 1000000000"

fun deadline_loop :: "(string \<Rightarrow> int option) \<Rightarrow> rule list \<Rightarrow> int \<Rightarrow> int" where
  "deadline_loop parse [] deadline = deadline"
| "deadline_loop parse (r # rs) deadline =
     (case parse (dExpiresAt r) of
        None \<Rightarrow> deadline_loop parse rs deadline
      | Some t \<Rightarrow> deadline_loop parse rs
          (if deadline = 0 \<or> unix_time t < deadline then unix_time t else deadline))"

definition Deadline :: "(string \<Rightarrow> int option) \<Rightarrow> deferral_snapshot \<Rightarrow> int" where
  "Deadline parse s = deadline_loop parse (snRules s) 0"

definition rename_rules :: "string \<Rightarrow> string \<Rightarrow> rule list \<Rightarrow> rule list" where
  "rename_rules oldName newName t =
     (if oldName = newName then t
      else if newName = [] then filter (\<lambda>r. dServerName r \<noteq> oldName) t
      else map (\<lambda>r. if dServerName r = oldName then r\<lparr>dServerName := newName\<rparr> else r) t)"

text \<open>The table of immutable snapshots: \<open>INSERT OR IGNORE\<close> by revision.\<close>

definition RecordSnapshot ::
  "deferral_snapshot \<Rightarrow> (string \<times> deferral_snapshot) list \<Rightarrow> (string \<times> deferral_snapshot) list" where
  "RecordSnapshot s t =
     (if snRevision s = [] then t
      else if map_of t (snRevision s) \<noteq> None then t
      else t @ [(snRevision s, s)])"

definition LoadSnapshot ::
  "string \<Rightarrow> (string \<times> deferral_snapshot) list \<Rightarrow> (deferral_error, deferral_snapshot) result" where
  "LoadSnapshot revision t = (case map_of t revision of None \<Rightarrow> Inl ErrNotFound | Some s \<Rightarrow> Inr s)"

subsection \<open>Lemmas\<close>

definition rule_active ::
  "(string \<Rightarrow> int option) \<Rightarrow> string \<Rightarrow> (int \<Rightarrow> string option) \<Rightarrow> int \<Rightarrow> rule \<Rightarrow> bool" where
  "rule_active parse server policies now r \<longleftrightarrow>
     (dServerName r = server \<or> policies (dPolicyID r) \<noteq> None)
     \<and> (\<exists>t. parse (dExpiresAt r) = Some t \<and> now < t)"

lemma resolve_rules_ids:
  "resolve_rules parse server policies now rs = Inr out \<Longrightarrow>
     map (\<lambda>r. (dID r, dSelector r, dReason r, dExpiresAt r)) out
       = map (\<lambda>r. (dID r, dSelector r, dReason r, dExpiresAt r)) (filter (rule_active parse server policies now) rs)
     \<and> list_all (\<lambda>r. ValidSelector (dSelector r)) out"
proof (induction rs arbitrary: out)
  case (Cons r rs)
  show ?case
  proof (cases "dServerName r \<noteq> server \<and> policies (dPolicyID r) = None")
    case True
    then show ?thesis using Cons by (auto simp: rule_active_def)
  next
    case False
    with Cons.prems obtain t where t: "parse (dExpiresAt r) = Some t" "ValidSelector (dSelector r)"
      by (auto split: option.splits if_splits)
    show ?thesis
    proof (cases "now < t")
      case True
      with False t Cons.prems obtain out' o' where "resolve_rules parse server policies now rs = Inr out'"
          "out = r\<lparr>dOrigin := o', dExpiresAtDisplay := []\<rparr> # out'"
        by (auto simp: bind_result_Inr_iff Let_def)
      with Cons.IH True False t show ?thesis by (auto simp: rule_active_def)
    next
      case nt: False
      with False t Cons.prems have "resolve_rules parse server policies now rs = Inr out" by auto
      with Cons.IH nt False t show ?thesis by (auto simp: rule_active_def)
    qed
  qed
qed simp

lemma ValidSelector_shape:
  assumes "ValidSelector s"
  shows "s \<noteq> [] \<and> alnum (hd s) \<and> list_all (\<lambda>c. name_char c \<or> c = CHR '':'') s \<and> last s \<noteq> CHR ''-''"
proof -
  obtain name arch q where c: "cut_at s CHR '':'' = (name, arch, q)" by (cases "cut_at s CHR '':''") auto
  note v = assms [unfolded ValidSelector_def selectorPattern_def c Let_def prod.case]
  from v have n: "name \<noteq> []" "alnum (hd name)" "list_all name_char name" "last name \<noteq> CHR ''-''"
  proof -
    from v have "2 \<le> length name" by simp
    then show ne: "name \<noteq> []" by auto
    from v show h: "alnum (hd name)" by simp
    from v h ne show "list_all name_char name" by (cases name) (auto simp: name_char_def alnum_def)
    from v show "last name \<noteq> CHR ''-''" by (intro not_suffix_last [OF ne]) simp
  qed
  show ?thesis
  proof (cases q)
    case False
    then have "s = name" using cut_at_none [of s "CHR '':''"] c by simp
    with n show ?thesis by (auto simp: list_all_iff)
  next
    case True
    then have s: "s = name @ CHR '':'' # arch" using cut_at_append [of s "CHR '':''"] c by simp
    from v True have a: "arch \<noteq> []" "alnum (hd arch)" "list_all arch_char (tl arch)" "\<not> suffix ''-'' arch" by simp_all
    from a have "last arch \<noteq> CHR ''-''" by (intro not_suffix_last) simp_all
    moreover from a have "list_all name_char arch"
      by (cases arch) (auto simp: name_char_def alnum_def arch_char_def list_all_iff)
    ultimately show ?thesis using n s a(1) by (auto simp: list_all_iff)
  qed
qed

lemma deadline_loop_le:
  assumes "deadline_loop parse rs d = x" "0 < d" "\<forall>r\<in>set rs. \<exists>t. parse (dExpiresAt r) = Some t \<and> 0 < unix_time t"
  shows "0 < x \<and> x \<le> d \<and> (\<forall>r\<in>set rs. \<forall>t. parse (dExpiresAt r) = Some t \<longrightarrow> x \<le> unix_time t)
     \<and> (x = d \<or> (\<exists>r\<in>set rs. \<exists>t. parse (dExpiresAt r) = Some t \<and> x = unix_time t))"
  using assms
proof (induction rs arbitrary: d)
  case (Cons r rs)
  from Cons.prems(3) obtain t where t: "parse (dExpiresAt r) = Some t" "0 < unix_time t" by auto
  let ?d = "if unix_time t < d then unix_time t else d"
  have "0 < x \<and> x \<le> ?d \<and> (\<forall>r\<in>set rs. \<forall>t. parse (dExpiresAt r) = Some t \<longrightarrow> x \<le> unix_time t)
     \<and> (x = ?d \<or> (\<exists>r\<in>set rs. \<exists>t. parse (dExpiresAt r) = Some t \<and> x = unix_time t))"
    using Cons.prems t by (intro Cons.IH) (auto split: if_splits)
  with t show ?case by (auto split: if_splits)
qed simp

subsection \<open>Properties\<close>

definition sample_rule :: rule where
  "sample_rule = \<lparr>dID = ''r1'', dServerName = ''web'', dPolicyID = 0, dSelector = ''nginx'', dReason = ''pinned'',
     dAuthor = ''ops'', dCreatedAt = ''c'', dExpiresAt = ''x'', dOrigin = [], dExpiresAtDisplay = []\<rparr>"

text \<open>When the deferrals of a server resolve, the result contains exactly the rules that address
  the server or one of its policies and have not expired, with their selectors, reasons and
  expirations, in the order of their identifiers; and every resolved selector is valid. A rule that
  applies and cannot be read makes the whole resolution fail.\<close>

lemma resolve_is_exact:
  assumes "Resolve parse digest rules server policies now = Inr s"
  shows "mset (map (\<lambda>r. (dID r, dSelector r, dReason r, dExpiresAt r)) (snRules s))
       = mset (map (\<lambda>r. (dID r, dSelector r, dReason r, dExpiresAt r))
           (filter (rule_active parse server policies now) rules))
     \<and> sorted (map dID (snRules s)) \<and> list_all (\<lambda>r. ValidSelector (dSelector r)) (snRules s)"
proof -
  from assms obtain out where out: "resolve_rules parse server policies now rules = Inr out"
      and s: "snRules s = sort_key dID out"
    by (auto simp: Resolve_def bind_result_Inr_iff Let_def)
  note ids = resolve_rules_ids [OF out]
  let ?f = "\<lambda>r. (dID r, dSelector r, dReason r, dExpiresAt r)"
  have "mset (map ?f (snRules s)) = mset (map ?f out)" unfolding s by (simp only: mset_map mset_sort)
  also have "\<dots> = mset (map ?f (filter (rule_active parse server policies now) rules))" by (simp only: ids)
  finally show ?thesis using ids by (simp add: s list_all_iff)
qed

text \<open>A valid selector is a single harmless argument of APT: it is not empty, starts with a
  lower-case letter or digit (never an option), consists of letters, digits and the characters
  plus, dot, minus and colon, and does not end in a minus sign (which would request a removal).\<close>

lemma valid_selectors_are_harmless:
  assumes "ValidSelector s"
  shows "s \<noteq> [] \<and> alnum (hd s) \<and> last s \<noteq> CHR ''-''
     \<and> list_all (\<lambda>c. is_lower c \<or> is_digit c \<or> c \<in> set ''+.-:'') s"
  using ValidSelector_shape [OF assms] by (auto simp: name_char_def list_all_iff)

text \<open>The deadline of a snapshot whose rules expire after the epoch is the earliest expiration
  in whole seconds.\<close>

lemma deadline_is_earliest_expiry:
  assumes "snRules s \<noteq> []" and "\<forall>r\<in>set (snRules s). \<exists>t. parse (dExpiresAt r) = Some t \<and> 0 < unix_time t"
  shows "(\<exists>r\<in>set (snRules s). \<exists>t. parse (dExpiresAt r) = Some t \<and> Deadline parse s = unix_time t)
     \<and> (\<forall>r\<in>set (snRules s). \<forall>t. parse (dExpiresAt r) = Some t \<longrightarrow> Deadline parse s \<le> unix_time t)"
proof -
  from assms(1) obtain r rs where s: "snRules s = r # rs" by (cases "snRules s") auto
  with assms(2) obtain t where t: "parse (dExpiresAt r) = Some t" "0 < unix_time t" by auto
  have d: "deadline_loop parse rs (unix_time t) = Deadline parse s" using s t by (simp add: Deadline_def)
  have "\<forall>r\<in>set rs. \<exists>t. parse (dExpiresAt r) = Some t \<and> 0 < unix_time t" using assms(2) s by simp
  from deadline_loop_le [OF d t(2) this] s t show ?thesis by auto
qed

end
