(* ===== verification/Commands.thy ===== *)
theory Commands
  imports Deferrals
begin

section \<open>Commands: quoting and the commands sent to hosts\<close>

text \<open>
  The model of the command builders of \<open>internal/updates/privileged_helper.go\<close>,
  \<open>helpers.go\<close>, \<open>types.go\<close> and of the fixed texts of \<open>internal/helperprotocol\<close>.
  A command is the text that the code hands to the SSH session. \<open>sh_words\<close> is a reference
  for how a POSIX shell splits such a text into words; it accepts only text without
  expansions and operators outside quotes.
\<close>

subsection \<open>Fixed texts\<close>

definition RootHelperPath :: string where
  \<open>RootHelperPath =
     ''/usr/local/sbin/simplelinuxupdater-root-helper''\<close>

definition helper_Version :: string where
  \<open>helper_Version =
     ''3''\<close>

definition helper_OwnerMarker :: string where
  \<open>helper_OwnerMarker =
     ''# Managed by SimpleLinuxUpdater; do not edit.''\<close>

definition helper_Capabilities :: string where
  \<open>helper_Capabilities =
     ''simplelinuxupdater-helper protocol='' @ helper_Version @ '' guarded-install''\<close>

definition helper_InstallationHelp :: string where
  \<open>helper_InstallationHelp =
     ''Export with webserver helper export --user SSH_USER > install-helper.sh (or docker run --rm --entrypoint /app/webserver IMAGE helper export --user SSH_USER). Review the script, transfer it to the target, then run sudo /bin/sh install-helper.sh there. Run Retry checks in Manage after installation; for package deferrals, rescan and approve again.''\<close>

definition RequiredCommand :: string where
  \<open>RequiredCommand =
     ''(helper='' @ RootHelperPath @ [CHR 0x0A] @ ''fail_helper() { printf '' @ [CHR 0x27] @
     ''%s'' @ [CHR 0x5C] @ ''n'' @ [CHR 0x27] @ '' '' @ [CHR 0x22] @ ''$1'' @ [CHR 0x22] @
     ''; printf '' @ [CHR 0x27] @ ''%s'' @ [CHR 0x5C] @ ''n'' @ [CHR 0x27] @ '' '' @ [CHR 0x22] @
     ''Managed helper protocol '' @ helper_Version @ '' required: $1'' @ [CHR 0x22] @
     '' >&2; printf '' @ [CHR 0x27] @ ''%s'' @ [CHR 0x5C] @ ''n'' @ [CHR 0x27] @ '' '' @
     [CHR 0x27] @ helper_InstallationHelp @ [CHR 0x27] @ '' >&2; exit 65; }'' @ [CHR 0x0A] @
     ''if [ ! -e '' @ [CHR 0x22] @ ''$helper'' @ [CHR 0x22] @ '' ] && [ ! -L '' @ [CHR 0x22] @
     ''$helper'' @ [CHR 0x22] @ '' ]; then fail_helper SLU_HELPER_MISSING; fi'' @ [CHR 0x0A] @
     ''[ -f '' @ [CHR 0x22] @ ''$helper'' @ [CHR 0x22] @ '' ] && [ ! -L '' @ [CHR 0x22] @
     ''$helper'' @ [CHR 0x22] @ '' ] && [ '' @ [CHR 0x22] @ ''$(stat -c %u -- '' @ [CHR 0x22] @
     ''$helper'' @ [CHR 0x22] @ '')'' @ [CHR 0x22] @ '' = 0 ] && [ '' @ [CHR 0x22] @
     ''$(sed -n '' @ [CHR 0x27] @ ''2p'' @ [CHR 0x27] @ '' -- '' @ [CHR 0x22] @ ''$helper'' @
     [CHR 0x22] @ '')'' @ [CHR 0x22] @ '' = '' @ [CHR 0x27] @ helper_OwnerMarker @ [CHR 0x27] @
     '' ] || fail_helper SLU_HELPER_UNRECOGNIZED'' @ [CHR 0x0A] @ ''[ '' @ [CHR 0x22] @
     ''$(sed -n '' @ [CHR 0x27] @ ''3p'' @ [CHR 0x27] @ '' -- '' @ [CHR 0x22] @ ''$helper'' @
     [CHR 0x22] @ '')'' @ [CHR 0x22] @ '' = '' @ [CHR 0x27] @ ''# Protocol version '' @
     helper_Version @ [CHR 0x27] @ '' ] || fail_helper SLU_HELPER_OLD'' @ [CHR 0x0A] @ ''[ -x '' @
     [CHR 0x22] @ ''$helper'' @ [CHR 0x22] @ '' ] && [ '' @ [CHR 0x22] @ ''$('' @ [CHR 0x22] @
     ''$helper'' @ [CHR 0x22] @ '' capabilities 2>/dev/null)'' @ [CHR 0x22] @ '' = '' @
     [CHR 0x27] @ helper_Capabilities @ [CHR 0x27] @ '' ] || fail_helper SLU_HELPER_OLD'' @
     [CHR 0x0A] @ ''if [ '' @ [CHR 0x22] @ ''$(id -u)'' @ [CHR 0x22] @ '' -ne 0 ]; then'' @
     [CHR 0x0A] @ ''    sudo -n -l -- '' @ [CHR 0x22] @ ''$helper'' @ [CHR 0x22] @
     '' update >/dev/null 2>&1 && sudo -n -l -- '' @ [CHR 0x22] @ ''$helper'' @ [CHR 0x22] @
     '' upgrade >/dev/null 2>&1 && sudo -n -l -- '' @ [CHR 0x22] @ ''$helper'' @ [CHR 0x22] @
     '' dpkg-audit >/dev/null 2>&1 && sudo -n -l -- '' @ [CHR 0x22] @ ''$helper'' @ [CHR 0x22] @
     '' guarded-install probe >/dev/null 2>&1 && sudo -n -- '' @ [CHR 0x22] @ ''$helper'' @
     [CHR 0x22] @ '' dpkg-audit >/dev/null 2>&1 || fail_helper SLU_HELPER_SUDO_DENIED'' @
     [CHR 0x0A] @ ''fi'' @ [CHR 0x0A] @ ''printf '' @ [CHR 0x27] @ ''%s'' @ [CHR 0x5C] @ ''n'' @
     [CHR 0x27] @ '' SLU_HELPER_READY)''\<close>

definition AptNonInteractiveEnvironment :: string where
  \<open>AptNonInteractiveEnvironment =
     ''DEBIAN_FRONTEND=noninteractive DEBIAN_PRIORITY=critical APT_LISTCHANGES_FRONTEND=none NEEDRESTART_MODE=a UCF_FORCE_CONFFOLD=1''\<close>

definition AptDpkgConffileOptions :: string where
  \<open>AptDpkgConffileOptions =
     ''-o Dpkg::Options::=--force-confdef -o Dpkg::Options::=--force-confold''\<close>

definition AptReadOnlyEnvironment :: string where
  \<open>AptReadOnlyEnvironment =
     ''LC_ALL=C DEBIAN_FRONTEND=noninteractive APT_LISTCHANGES_FRONTEND=none''\<close>

definition root_test :: string where
  \<open>root_test =
     ''if [ '' @ [CHR 0x22] @ ''$(id -u)'' @ [CHR 0x22] @ '' -eq 0 ]; then ''\<close>

subsection \<open>Builders\<close>

abbreviation single_quote :: char where "single_quote \<equiv> CHR 0x27"
abbreviation double_quote :: char where "double_quote \<equiv> CHR 0x22"

definition ShellEscapeSingleQuotes :: "string \<Rightarrow> string" where
  "ShellEscapeSingleQuotes value =
     replace_char single_quote [single_quote, double_quote, single_quote, double_quote, single_quote] value"

definition shellQuote :: "string \<Rightarrow> string" where
  "shellQuote value = [single_quote] @ ShellEscapeSingleQuotes value @ [single_quote]"

definition helper_command :: "string \<Rightarrow> string list \<Rightarrow> string" where
  "helper_command operation args =
     ''sudo -n '' @ RootHelperPath @ '' '' @ shellQuote operation
     @ concat (map (\<lambda>arg. '' '' @ shellQuote arg) args)"

definition RootOrSudoHelperCommand :: "string \<Rightarrow> string \<Rightarrow> string list \<Rightarrow> string" where
  "RootOrSudoHelperCommand rootCommand operation args =
     root_test @ rootCommand @ ''; else '' @ helper_command operation args @ ''; fi''"

definition nonInteractiveAptCommand :: "string \<Rightarrow> string \<Rightarrow> string" where
  "nonInteractiveAptCommand operation args =
     RootOrSudoHelperCommand
       (trim_space (''/usr/bin/env '' @ AptNonInteractiveEnvironment @ '' /usr/bin/apt-get ''
          @ AptDpkgConffileOptions @ '' '' @ trim_space args)) operation []"

definition AptUpgradeCmd :: string where
  "AptUpgradeCmd = nonInteractiveAptCommand ''upgrade'' ''-y upgrade''"

definition AptFullUpgradeNoRemoveCmd :: string where
  "AptFullUpgradeNoRemoveCmd = nonInteractiveAptCommand ''full-upgrade-no-remove'' ''--no-remove -y full-upgrade''"

definition AptFullUpgradeCmd :: string where
  "AptFullUpgradeCmd = nonInteractiveAptCommand ''full-upgrade'' ''-y full-upgrade''"

definition ReadOnlyAptCommand :: "string \<Rightarrow> string" where
  "ReadOnlyAptCommand command = trim_space (AptReadOnlyEnvironment @ '' '' @ trim_space command)"

fun validated_loop :: "string list \<Rightarrow> string list option" where
  "validated_loop [] = Some []"
| "validated_loop (pkg # pkgs) =
     (let trimmed = trim_space pkg in
      if trimmed = [] then validated_loop pkgs
      else if \<not> ValidSelector trimmed \<or> trimmed \<noteq> pkg then None
      else map_option (\<lambda>r. trimmed # r) (validated_loop pkgs))"

definition validatedPackageSelectors :: "string list \<Rightarrow> string list" where
  "validatedPackageSelectors packages = (case validated_loop packages of None \<Rightarrow> [] | Some v \<Rightarrow> v)"

definition validatedShellEscapedPackageArgs :: "string list \<Rightarrow> string list" where
  "validatedShellEscapedPackageArgs packages = map shellQuote (validatedPackageSelectors packages)"

definition buildSelectedInstallCmd :: "string list \<Rightarrow> bool \<Rightarrow> bool \<Rightarrow> string" where
  "buildSelectedInstallCmd packages onlyUpgrade noRemove =
     (let selectors = validatedPackageSelectors packages in
      if selectors = [] then []
      else let rootCommand = ''/usr/bin/env '' @ AptNonInteractiveEnvironment @ '' /usr/bin/apt-get ''
                 @ AptDpkgConffileOptions @ '' -y install''
                 @ (if onlyUpgrade then '' --only-upgrade'' else [])
                 @ (if noRemove then '' --no-remove'' else [])
                 @ '' -- '' @ join '' '' (validatedShellEscapedPackageArgs selectors);
               operation = (if onlyUpgrade then ''install-only-upgrade'' else ''install'')
                 @ (if noRemove then ''-no-remove'' else [])
           in RootOrSudoHelperCommand rootCommand operation selectors)"

definition BuildSelectedUpgradeCmd :: "string list \<Rightarrow> string" where
  "BuildSelectedUpgradeCmd packages = buildSelectedInstallCmd packages True True"

definition BuildSelectedInstallCmd :: "string list \<Rightarrow> string" where
  "BuildSelectedInstallCmd packages = buildSelectedInstallCmd packages False False"

definition BuildSelectedInstallSimulationCmd :: "string list \<Rightarrow> string" where
  "BuildSelectedInstallSimulationCmd packages =
     (let escaped = validatedShellEscapedPackageArgs packages in
      if escaped = [] then []
      else ReadOnlyAptCommand (''apt-get -o Debug::NoLocking=1 --print-uris --yes --download-only install -- ''
             @ join '' '' escaped))"

definition guarded_command :: "string list \<Rightarrow> string" where
  "guarded_command args =
     (let command = RootHelperPath @ '' guarded-install'' @ concat (map (\<lambda>a. '' '' @ shellQuote a) args)
      in RequiredCommand @ '' && '' @ root_test @ command @ ''; else sudo -n '' @ command @ ''; fi'')"

subsection \<open>Words of a shell command\<close>

datatype sh_mode = Unquoted | SingleQuoted | DoubleQuoted

definition sh_special :: "char \<Rightarrow> bool" where
  "sh_special c \<longleftrightarrow> c \<in> set (''$;&|<>()*?[]#~=%!{}'' @ [CHR 0x5C, CHR 0x60, CHR 0x0A, CHR 0x09])"

definition grow :: "string option \<Rightarrow> string \<Rightarrow> string option" where
  "grow w s = Some (case w of None \<Rightarrow> s | Some x \<Rightarrow> x @ s)"

definition emit :: "string option \<Rightarrow> string list \<Rightarrow> string list" where
  "emit w ws = (case w of None \<Rightarrow> ws | Some x \<Rightarrow> x # ws)"

fun sh_split :: "sh_mode \<Rightarrow> string option \<Rightarrow> string \<Rightarrow> string list option" where
  "sh_split m w [] = (if m = Unquoted then Some (emit w []) else None)"
| "sh_split m w (c # s) =
     (case m of
        Unquoted \<Rightarrow>
          if c = CHR '' '' then map_option (emit w) (sh_split Unquoted None s)
          else if c = single_quote then sh_split SingleQuoted (grow w []) s
          else if c = double_quote then sh_split DoubleQuoted (grow w []) s
          else if sh_special c then None
          else sh_split Unquoted (grow w [c]) s
      | SingleQuoted \<Rightarrow>
          if c = single_quote then sh_split Unquoted w s else sh_split SingleQuoted (grow w [c]) s
      | DoubleQuoted \<Rightarrow>
          if c = double_quote then sh_split Unquoted w s
          else if c \<in> {CHR 0x24, CHR 0x60, CHR 0x5C} then None
          else sh_split DoubleQuoted (grow w [c]) s)"

definition sh_words :: "string \<Rightarrow> string list option" where
  "sh_words s = sh_split Unquoted None s"

subsection \<open>Lemmas\<close>

lemma grow_grow [simp]: "grow (grow w s) t = grow w (s @ t)"
  by (simp add: grow_def split: option.split)

lemma grow_Nil_Some [simp]: "grow (Some x) [] = Some x"
  by (simp add: grow_def)

lemma quotes_distinct [simp]: "double_quote \<noteq> single_quote" "single_quote \<noteq> double_quote"
  by simp_all

lemma replace_char_simps [simp]:
  "replace_char c t [] = []"
  "replace_char c t (x # xs) = (if x = c then t else [x]) @ replace_char c t xs"
  by (simp_all add: replace_char_def)

lemma sh_split_escaped:
  "sh_split SingleQuoted w (ShellEscapeSingleQuotes v @ single_quote # s) = sh_split Unquoted (if v = [] then w else grow w v) s"
proof (induction v arbitrary: w)
  case (Cons c v)
  show ?case
  proof (cases "c = single_quote")
    case True
    with Cons.IH [of "grow w [c]"] show ?thesis
      by (auto simp: ShellEscapeSingleQuotes_def)
  next
    case False
    with Cons.IH [of "grow w [c]"] show ?thesis
      by (auto simp: ShellEscapeSingleQuotes_def)
  qed
qed (simp add: ShellEscapeSingleQuotes_def)

lemma sh_split_quoted:
  "sh_split Unquoted w (shellQuote v @ s) = sh_split Unquoted (grow w v) s"
  using sh_split_escaped [of "grow w []" v s] by (auto simp: shellQuote_def)

lemma sh_split_quoted_args:
  "sh_split Unquoted (Some x) (concat (map (\<lambda>a. '' '' @ shellQuote a) args)) = Some (x # args)"
proof (induction args arbitrary: x)
  case (Cons a args)
  have "sh_split Unquoted None (shellQuote a @ concat (map (\<lambda>a. '' '' @ shellQuote a) args)) = Some (a # args)"
    using Cons.IH [of a] by (simp add: sh_split_quoted grow_def)
  then show ?case by (simp add: emit_def)
qed (simp add: emit_def)

definition plain_word :: "string \<Rightarrow> bool" where
  "plain_word s \<longleftrightarrow> list_all (\<lambda>c. c \<noteq> CHR '' '' \<and> c \<noteq> single_quote \<and> c \<noteq> double_quote \<and> \<not> sh_special c) s"

lemma sh_split_plain:
  "plain_word p \<Longrightarrow> p \<noteq> [] \<Longrightarrow> sh_split Unquoted w (p @ s) = sh_split Unquoted (grow w p) s"
proof (induction p arbitrary: w)
  case (Cons c p)
  then show ?case by (cases "p = []") (auto simp: plain_word_def)
qed simp

lemma sh_words_space: "plain_word p \<Longrightarrow> p \<noteq> [] \<Longrightarrow> sh_words (p @ '' '' @ s) = map_option (\<lambda>r. p # r) (sh_words s)"
proof -
  assume p: "plain_word p" "p \<noteq> []"
  have "emit (Some p) = (\<lambda>r. p # r)" by (simp add: emit_def fun_eq_iff)
  with p show ?thesis by (simp add: sh_words_def sh_split_plain grow_def)
qed

lemma helper_words:
  "sh_words (helper_command operation args) = Some (''sudo'' # ''-n'' # RootHelperPath # operation # args)"
proof -
  have plain: "plain_word ''sudo''" "''sudo'' \<noteq> []" "plain_word ''-n''" "''-n'' \<noteq> []"
    "plain_word RootHelperPath" "RootHelperPath \<noteq> []"
    by code_simp+
  have eq: "helper_command operation args = ''sudo'' @ '' '' @ ''-n'' @ '' '' @ RootHelperPath @ '' ''
      @ shellQuote operation @ concat (map (\<lambda>arg. '' '' @ shellQuote arg) args)"
    by (simp add: helper_command_def)
  have "sh_words (shellQuote operation @ concat (map (\<lambda>arg. '' '' @ shellQuote arg) args)) = Some (operation # args)"
    using sh_split_quoted_args [of operation args] by (simp add: sh_words_def sh_split_quoted grow_def)
  then show ?thesis
    unfolding eq sh_words_space [OF plain(1,2)] sh_words_space [OF plain(3,4)] sh_words_space [OF plain(5,6)]
    by simp
qed

lemma validated_loop_valid:
  "validated_loop ps = Some v \<Longrightarrow> list_all ValidSelector v \<and> set v \<subseteq> set ps"
  by (induction ps arbitrary: v) (auto simp: Let_def split: if_splits)

lemma sh_split_join:
  "xs \<noteq> [] \<Longrightarrow> sh_split Unquoted None (join '' '' (map shellQuote xs)) = Some xs"
proof (induction xs rule: induct_list012)
  case (2 x)
  show ?case using sh_split_quoted [of None x "[]"] by (simp add: grow_def emit_def)
next
  case (3 x y zs)
  then show ?case using sh_split_quoted [of None x "'' '' @ join '' '' (map shellQuote (y # zs))"]
    by (simp add: grow_def emit_def)
qed simp

subsection \<open>Properties\<close>

text \<open>C37: Quoting is exact: a shell reads the quoted arguments of a helper command back as exactly the
  operation and the arguments given, whatever characters they contain. Nothing in an argument can
  end the word or start another command.\<close>

theorem helper_arguments_are_exact:
  "sh_words (helper_command operation args) = Some ([''sudo'', ''-n'', RootHelperPath, operation] @ args)"
  by (simp add: helper_words)

text \<open>The package arguments of every command that installs selected packages are valid selectors
  taken from the given list, quoted so that a shell reads them back unchanged; when any given
  selector is invalid or padded with spaces, no command is built at all.\<close>

lemma install_commands_use_valid_selectors:
  "list_all ValidSelector (validatedPackageSelectors packages)
   \<and> set (validatedPackageSelectors packages) \<subseteq> set packages
   \<and> (if list_ex (\<lambda>p. trim_space p \<noteq> [] \<and> \<not> (ValidSelector (trim_space p) \<and> trim_space p = p)) packages
      then buildSelectedInstallCmd packages onlyUpgrade noRemove = [] else True)
   \<and> (if buildSelectedInstallCmd packages onlyUpgrade noRemove = [] then True
      else sh_words (join '' '' (validatedShellEscapedPackageArgs packages)) = Some (validatedPackageSelectors packages))"
proof -
  have bad: "list_ex (\<lambda>p. trim_space p \<noteq> [] \<and> \<not> (ValidSelector (trim_space p) \<and> trim_space p = p)) ps
      \<Longrightarrow> validated_loop ps = None" for ps
    by (induction ps) (auto simp: Let_def)
  have ne: "buildSelectedInstallCmd packages onlyUpgrade noRemove \<noteq> [] \<Longrightarrow> validatedPackageSelectors packages \<noteq> []"
    by (auto simp: buildSelectedInstallCmd_def Let_def)
  show ?thesis
    using bad [of packages] validated_loop_valid [of packages] ne
      sh_split_join [of "validatedPackageSelectors packages"]
    by (cases "validated_loop packages")
      (auto simp: validatedPackageSelectors_def validatedShellEscapedPackageArgs_def sh_words_def
        buildSelectedInstallCmd_def)
qed

end
