(* ===== verification/Packages.thy ===== *)
theory Packages
  imports Deferrals
begin

section \<open>Packages: pending updates, upgrade plans and the selection of packages\<close>

text \<open>
  The data of \<open>internal/servers/types.go\<close> that describes what a host could upgrade, and the
  functions of \<open>internal/updates/helpers.go\<close> that select package names from it. The field
  \<open>CVEFindings\<close> of a pending update is left out: no function of this model reads or writes it.
  Go's \<open>nil\<close> slice and an empty slice are both the empty list.
\<close>

record pending_update =
  uDeferred :: bool
  uPackage :: string
  uInstallPackage :: string
  uCurrentVersion :: string
  uCandidateVersion :: string
  uSource :: string
  uSourcePackage :: string
  uInstalledSourceVersion :: string
  uCandidateSourceVersion :: string
  uSecurity :: bool
  uKeptBack :: bool
  uRequiresFull :: bool
  uCVEs :: "string list"
  uCVEState :: string
  uCVECoverage :: string
  uCVESource :: string
  uCVEScannedAt :: string
  uRaw :: string

record deferral_scope_plan =
  sAvailable :: bool
  sBlockReason :: string
  sSelectedPackages :: "string list"
  sTransaction :: "string list"
  sNewPackages :: "string list"
  sRemovedPackages :: "string list"
  sDependencyImpacts :: "string list"

record simulated_package =
  smArchitecture :: string
  smPackage :: string
  smCurrentVersion :: string
  smCandidateVersion :: string

text \<open>The map \<open>DeferralScopes\<close> is an association list, read with \<^const>\<open>map_of\<close>.\<close>

record upgrade_plan =
  FullUpgradeSimulationDigest :: string
  FullUpgradeSimulationPackages :: "simulated_package list"
  KeptBackSecuritySimulationDigest :: string
  KeptBackSecuritySimulationPackages :: "simulated_package list"
  PackageDeferrals :: deferral_snapshot
  DeferredPackages :: "string list"
  DeferredSecurityPackages :: "string list"
  DeferralScopes :: "(string \<times> deferral_scope_plan) list"
  StandardPackageCount :: int
  KeptBackPackageCount :: int
  StandardSecurityCount :: int
  TotalSecurityCount :: int
  FullUpgradePlanAvailable :: bool
  FullUpgradePackageCount :: int
  FullUpgradeNewPackages :: "string list"
  FullUpgradeRemovedPackages :: "string list"
  KeptBackSecurityPlanAvailable :: bool
  KeptBackSecurityPackageCount :: int
  KeptBackSecurityNewPackages :: "string list"
  KeptBackSecurityRemovedPackages :: "string list"
  FullUpgradeDiskFactsAvailable :: bool
  FullUpgradeArchiveBytes :: int
  FullUpgradeInstalledDeltaBytes :: int
  KeptBackDiskFactsAvailable :: bool
  KeptBackArchiveBytes :: int
  KeptBackInstalledDeltaBytes :: int
  DiskSpaceSource :: string
  DiskSpaceArchiveBytes :: int
  DiskSpaceInstalledDeltaBytes :: int
  DiskSpaceInstalledGrowthBytes :: int
  DiskSpaceSafetyMarginBytes :: int
  DiskSpaceOperationalReserveBytes :: int
  DiskSpaceRequiredKB :: int
  DiskSpacePackageCount :: int
  DiskSpaceNewPackageCount :: int

text \<open>The zero value of \<open>UpgradePlan\<close>.\<close>

definition empty_plan :: upgrade_plan where
  "empty_plan = \<lparr>FullUpgradeSimulationDigest = [], FullUpgradeSimulationPackages = [],
     KeptBackSecuritySimulationDigest = [], KeptBackSecuritySimulationPackages = [],
     PackageDeferrals = \<lparr>snRevision = [], snRules = []\<rparr>, DeferredPackages = [], DeferredSecurityPackages = [],
     DeferralScopes = [], StandardPackageCount = 0, KeptBackPackageCount = 0, StandardSecurityCount = 0,
     TotalSecurityCount = 0, FullUpgradePlanAvailable = False, FullUpgradePackageCount = 0,
     FullUpgradeNewPackages = [], FullUpgradeRemovedPackages = [], KeptBackSecurityPlanAvailable = False,
     KeptBackSecurityPackageCount = 0, KeptBackSecurityNewPackages = [], KeptBackSecurityRemovedPackages = [],
     FullUpgradeDiskFactsAvailable = False, FullUpgradeArchiveBytes = 0, FullUpgradeInstalledDeltaBytes = 0,
     KeptBackDiskFactsAvailable = False, KeptBackArchiveBytes = 0, KeptBackInstalledDeltaBytes = 0,
     DiskSpaceSource = [], DiskSpaceArchiveBytes = 0, DiskSpaceInstalledDeltaBytes = 0,
     DiskSpaceInstalledGrowthBytes = 0, DiskSpaceSafetyMarginBytes = 0, DiskSpaceOperationalReserveBytes = 0,
     DiskSpaceRequiredKB = 0, DiskSpacePackageCount = 0, DiskSpaceNewPackageCount = 0\<rparr>"

subsection \<open>Selection\<close>

text \<open>In both loops the map \<open>seen\<close> always has exactly the elements of \<open>packages\<close>.\<close>

fun names_loop :: "bool \<Rightarrow> bool \<Rightarrow> pending_update list \<Rightarrow> string list \<Rightarrow> string list" where
  "names_loop securityOnly includeRequiresFull [] packages = packages"
| "names_loop securityOnly includeRequiresFull (u # us) packages =
     (let pkg = trim_space (uPackage u) in
      if uDeferred u then names_loop securityOnly includeRequiresFull us packages
      else if securityOnly \<and> \<not> uSecurity u then names_loop securityOnly includeRequiresFull us packages
      else if \<not> includeRequiresFull \<and> (uRequiresFull u \<or> uKeptBack u)
        then names_loop securityOnly includeRequiresFull us packages
      else if pkg = [] then names_loop securityOnly includeRequiresFull us packages
      else if pkg \<in> set packages then names_loop securityOnly includeRequiresFull us packages
      else names_loop securityOnly includeRequiresFull us (packages @ [pkg]))"

definition packageNamesFromPendingUpdates :: "pending_update list \<Rightarrow> bool \<Rightarrow> bool \<Rightarrow> string list" where
  "packageNamesFromPendingUpdates updates securityOnly includeRequiresFull =
     (if updates = [] then [] else sort (names_loop securityOnly includeRequiresFull updates []))"

definition SecurityPackagesFromPendingUpdates :: "pending_update list \<Rightarrow> string list" where
  "SecurityPackagesFromPendingUpdates updates = packageNamesFromPendingUpdates updates True False"

definition PackageNamesFromPendingUpdates :: "pending_update list \<Rightarrow> string list" where
  "PackageNamesFromPendingUpdates updates = packageNamesFromPendingUpdates updates False False"

definition FullUpgradePackagesFromPendingUpdates :: "pending_update list \<Rightarrow> string list" where
  "FullUpgradePackagesFromPendingUpdates updates = packageNamesFromPendingUpdates updates False True"

fun kept_back_loop :: "pending_update list \<Rightarrow> string list \<Rightarrow> string list" where
  "kept_back_loop [] packages = packages"
| "kept_back_loop (u # us) packages =
     (let installPackage = trim_space (uInstallPackage u);
          pkg = (if installPackage \<noteq> [] then installPackage else trim_space (uPackage u)) in
      if uDeferred u then kept_back_loop us packages
      else if \<not> uSecurity u \<or> \<not> (uRequiresFull u \<or> uKeptBack u) then kept_back_loop us packages
      else if pkg = [] then kept_back_loop us packages
      else if pkg \<in> set packages then kept_back_loop us packages
      else kept_back_loop us (packages @ [pkg]))"

definition KeptBackSecurityPackagesFromPendingUpdates :: "pending_update list \<Rightarrow> string list" where
  "KeptBackSecurityPackagesFromPendingUpdates updates =
     (if updates = [] then [] else sort (kept_back_loop updates []))"

subsection \<open>Approval scopes\<close>

abbreviation (input) ApprovalScopeAll :: string where "ApprovalScopeAll \<equiv> ''all''"
abbreviation (input) ApprovalScopeSecurity :: string where "ApprovalScopeSecurity \<equiv> ''security''"
abbreviation (input) ApprovalScopeSecurityKeptBack :: string where "ApprovalScopeSecurityKeptBack \<equiv> ''security_kept_back''"
abbreviation (input) ApprovalScopeFullUpgrade :: string where "ApprovalScopeFullUpgrade \<equiv> ''full_upgrade''"

definition NormalizeApprovalScope :: "string \<Rightarrow> string" where
  "NormalizeApprovalScope scope =
     (let normalized = to_lower (trim_space scope) in
      if normalized \<in> set [ApprovalScopeSecurity, ApprovalScopeSecurityKeptBack, ApprovalScopeFullUpgrade]
      then normalized else ApprovalScopeAll)"

definition PackagesForApprovalScope :: "string \<Rightarrow> pending_update list \<Rightarrow> string list" where
  "PackagesForApprovalScope scope pending =
     (let s = NormalizeApprovalScope scope in
      if s = ApprovalScopeSecurity then SecurityPackagesFromPendingUpdates pending
      else if s = ApprovalScopeSecurityKeptBack then KeptBackSecurityPackagesFromPendingUpdates pending
      else if s = ApprovalScopeFullUpgrade then FullUpgradePackagesFromPendingUpdates pending
      else PackageNamesFromPendingUpdates pending)"

subsection \<open>Reference: what a scope selects\<close>

definition held_back :: "pending_update \<Rightarrow> bool" where
  "held_back u \<longleftrightarrow> uRequiresFull u \<or> uKeptBack u"

definition scope_covers :: "string \<Rightarrow> pending_update \<Rightarrow> bool" where
  "scope_covers scope u \<longleftrightarrow> \<not> uDeferred u
     \<and> (if scope = ApprovalScopeSecurity then uSecurity u \<and> \<not> held_back u
        else if scope = ApprovalScopeSecurityKeptBack then uSecurity u \<and> held_back u
        else if scope = ApprovalScopeFullUpgrade then True
        else \<not> held_back u)"

definition scope_name :: "string \<Rightarrow> pending_update \<Rightarrow> string" where
  "scope_name scope u =
     (if scope = ApprovalScopeSecurityKeptBack \<and> trim_space (uInstallPackage u) \<noteq> []
      then trim_space (uInstallPackage u) else trim_space (uPackage u))"

fun collect :: "(pending_update \<Rightarrow> bool) \<Rightarrow> (pending_update \<Rightarrow> string) \<Rightarrow> pending_update list \<Rightarrow> string list
    \<Rightarrow> string list" where
  "collect P f [] acc = acc"
| "collect P f (u # us) acc =
     collect P f us (if P u \<and> f u \<noteq> [] \<and> f u \<notin> set acc then acc @ [f u] else acc)"

lemma set_collect: "set (collect P f us acc) = set acc \<union> {f u | u. u \<in> set us \<and> P u \<and> f u \<noteq> []}"
  by (induction us arbitrary: acc) auto

lemma distinct_collect: "distinct acc \<Longrightarrow> distinct (collect P f us acc)"
  by (induction us arbitrary: acc) auto

lemma names_loop_collect:
  "names_loop s f us acc =
     collect (\<lambda>u. \<not> uDeferred u \<and> (s \<longrightarrow> uSecurity u) \<and> (f \<or> \<not> held_back u)) (\<lambda>u. trim_space (uPackage u)) us acc"
  by (induction us arbitrary: acc) (auto simp: Let_def held_back_def)

lemma kept_back_loop_collect:
  "kept_back_loop us acc =
     collect (scope_covers ApprovalScopeSecurityKeptBack) (scope_name ApprovalScopeSecurityKeptBack) us acc"
  by (induction us arbitrary: acc) (auto simp: Let_def held_back_def scope_covers_def scope_name_def)

lemma PackagesForApprovalScope_collect:
  "PackagesForApprovalScope scope pending =
     sort (collect (scope_covers (NormalizeApprovalScope scope)) (scope_name (NormalizeApprovalScope scope)) pending [])"
proof -
  have n: "NormalizeApprovalScope scope
      \<in> {ApprovalScopeSecurity, ApprovalScopeSecurityKeptBack, ApprovalScopeFullUpgrade, ApprovalScopeAll}"
    by (simp add: NormalizeApprovalScope_def Let_def)
  show ?thesis
  proof (cases "pending = []")
    case True
    then show ?thesis
      by (simp add: PackagesForApprovalScope_def Let_def SecurityPackagesFromPendingUpdates_def
          KeptBackSecurityPackagesFromPendingUpdates_def FullUpgradePackagesFromPendingUpdates_def
          PackageNamesFromPendingUpdates_def packageNamesFromPendingUpdates_def)
  next
    case False
    then show ?thesis using n
      by (auto simp: PackagesForApprovalScope_def Let_def SecurityPackagesFromPendingUpdates_def
          KeptBackSecurityPackagesFromPendingUpdates_def FullUpgradePackagesFromPendingUpdates_def
          PackageNamesFromPendingUpdates_def packageNamesFromPendingUpdates_def names_loop_collect
          kept_back_loop_collect scope_covers_def [abs_def] scope_name_def [abs_def])
  qed
qed

lemma set_PackagesForApprovalScope:
  "set (PackagesForApprovalScope scope pending) =
     {scope_name (NormalizeApprovalScope scope) u | u.
        u \<in> set pending \<and> scope_covers (NormalizeApprovalScope scope) u
        \<and> scope_name (NormalizeApprovalScope scope) u \<noteq> []}"
  by (simp add: PackagesForApprovalScope_collect set_collect)

subsection \<open>Properties\<close>

text \<open>The packages selected for an approval scope are exactly the named updates that the scope
  covers, sorted and without duplicates: the standard security updates, the kept-back security
  updates (by their install name), all updates, or the standard updates. A deferred update is
  never selected in any scope.\<close>

lemma selection_is_exact:
  "set (PackagesForApprovalScope scope pending) =
     {scope_name (NormalizeApprovalScope scope) u | u.
        u \<in> set pending \<and> scope_covers (NormalizeApprovalScope scope) u
        \<and> scope_name (NormalizeApprovalScope scope) u \<noteq> []}
   \<and> sorted (PackagesForApprovalScope scope pending) \<and> distinct (PackagesForApprovalScope scope pending)
   \<and> PackagesForApprovalScope scope (filter uDeferred pending) = []"
proof (intro conjI)
  show "distinct (PackagesForApprovalScope scope pending)" "sorted (PackagesForApprovalScope scope pending)"
    by (simp_all add: PackagesForApprovalScope_collect distinct_collect)
  have "set (PackagesForApprovalScope scope (filter uDeferred pending)) = {}"
    by (auto simp: set_PackagesForApprovalScope scope_covers_def)
  then show "PackagesForApprovalScope scope (filter uDeferred pending) = []" by simp
qed (rule set_PackagesForApprovalScope)

end
