(* ===== verification/Disk.thy ===== *)
theory Disk
  imports Packages "HOL-Library.AList"
begin

section \<open>Disk: the space that an upgrade plan needs\<close>

text \<open>
  The model of \<open>internal/updates/apt_disk_facts.go\<close> (the sizes that APT prints), of the estimates
  of \<open>internal/updates/helpers.go\<close> and of the plan-aware disk check of
  \<open>internal/updates/host_inspection.go\<close>. Values of type \<open>int64\<close> are integers and every addition,
  subtraction and multiplication whose operands are not bounded by a preceding test goes through
  \<^const>\<open>int64\<close>. The maps from devices are association lists; the source iterates over them in an
  unspecified order, which no result depends on. The detail texts of a check result, printed with
  floating point numbers, are not modelled.
\<close>

subsection \<open>Sizes printed by APT\<close>

record apt_disk_facts =
  fArchiveBytes :: int
  fInstalledDeltaBytes :: int

definition aptByteUnitMultiplier :: "string \<Rightarrow> int option" where
  "aptByteUnitMultiplier unit =
     (if unit = ''B'' then Some 1
      else if unit = ''kB'' \<or> unit = ''KB'' then Some 1000
      else if unit = ''MB'' then Some (1000 * 1000)
      else if unit = ''GB'' then Some (1000 * 1000 * 1000)
      else if unit = ''KiB'' then Some 1024
      else if unit = ''MiB'' then Some (1024 * 1024)
      else if unit = ''GiB'' then Some (1024 * 1024 * 1024)
      else None)"

text \<open>The first group of the pattern: digits, or groups of three digits separated by commas.\<close>

definition whole_number :: "string \<Rightarrow> bool" where
  "whole_number w \<longleftrightarrow>
     (w \<noteq> [] \<and> list_all is_digit w)
   \<or> (case split_char CHR '','' w of [] \<Rightarrow> False
      | g # gs \<Rightarrow> gs \<noteq> [] \<and> 1 \<le> length g \<and> length g \<le> 3 \<and> list_all is_digit g
          \<and> list_all (\<lambda>h. length h = 3 \<and> list_all is_digit h) gs)"

definition aptByteSizePattern :: "string \<Rightarrow> (string \<times> string \<times> string) option" where
  "aptByteSizePattern s =
     (let number = (\<lambda>c. is_digit c \<or> c = CHR '','');
          whole = takeWhile number s;
          rest = dropWhile number s;
          dot = (rest \<noteq> [] \<and> hd rest = CHR ''.'');
          fraction = (if dot then takeWhile is_digit (tl rest) else []);
          rest' = (if dot then dropWhile is_digit (tl rest) else rest);
          unit = dropWhile ascii_space rest'
      in if whole_number whole \<and> (dot \<longrightarrow> fraction \<noteq> []) \<and> rest' \<noteq> [] \<and> ascii_space (hd rest')
            \<and> unit \<in> set [''B'', ''kB'', ''KB'', ''MB'', ''GB'', ''KiB'', ''MiB'', ''GiB'']
         then Some (whole, fraction, unit) else None)"

definition parseAptByteSize :: "string \<Rightarrow> int option" where
  "parseAptByteSize raw =
     (case aptByteSizePattern (trim_space raw) of
        None \<Rightarrow> None
      | Some (w, fraction, unit) \<Rightarrow>
          (case aptByteUnitMultiplier unit of
             None \<Rightarrow> None
           | Some multiplier \<Rightarrow>
               let whole = decimal (filter (\<lambda>c. c \<noteq> CHR '','') w);
                   value = whole * multiplier;
                   denominator = 10 ^ length fraction;
                   value' = (if fraction \<noteq> []
                     then value + (decimal fraction * multiplier + (denominator - 1)) div denominator else value)
               in if in_int64 value' then Some value' else None))"

fun crlf_to_lf :: "string \<Rightarrow> string" where
  "crlf_to_lf [] = []"
| "crlf_to_lf (c # cs) =
     (if c = CHR 0x0D \<and> cs \<noteq> [] \<and> hd cs = CHR 0x0A then crlf_to_lf cs else c # crlf_to_lf cs)"

text \<open>One line of output: the facts and what has been seen, or an early failure.\<close>

definition disk_facts_line :: "string \<Rightarrow> apt_disk_facts \<times> bool \<times> bool \<Rightarrow> (apt_disk_facts \<times> bool \<times> bool) option" where
  "disk_facts_line rawLine st =
     (case st of (facts, archiveSeen, deltaSeen) \<Rightarrow>
      let line = trim_space rawLine in
      if prefix ''Need to get '' line \<and> suffix '' of archives'' (trim_suffix ''.'' line) then
        (let body = trim_suffix '' of archives'' (trim_suffix ''.'' (trim_prefix ''Need to get '' line));
             body' = (if CHR ''/'' \<in> set body then trim_space (fst (cut_at body CHR ''/'')) else body)
         in case parseAptByteSize body' of None \<Rightarrow> None
            | Some v \<Rightarrow> if archiveSeen then None else Some (facts\<lparr>fArchiveBytes := v\<rparr>, True, deltaSeen))
      else if prefix ''After this operation, '' line
          \<and> suffix '' of additional disk space will be used'' (trim_suffix ''.'' line) then
        (let body = trim_suffix '' of additional disk space will be used''
               (trim_suffix ''.'' (trim_prefix ''After this operation, '' line))
         in case parseAptByteSize body of None \<Rightarrow> None
            | Some v \<Rightarrow> if deltaSeen then None else Some (facts\<lparr>fInstalledDeltaBytes := v\<rparr>, archiveSeen, True))
      else if prefix ''After this operation, '' line
          \<and> suffix '' disk space will be freed'' (trim_suffix ''.'' line) then
        (let body = trim_suffix '' disk space will be freed''
               (trim_suffix ''.'' (trim_prefix ''After this operation, '' line))
         in case parseAptByteSize body of None \<Rightarrow> None
            | Some v \<Rightarrow> if deltaSeen then None else Some (facts\<lparr>fInstalledDeltaBytes := - v\<rparr>, archiveSeen, True))
      else Some st)"

fun disk_facts_loop :: "string list \<Rightarrow> apt_disk_facts \<times> bool \<times> bool \<Rightarrow> apt_disk_facts option" where
  "disk_facts_loop [] (facts, archiveSeen, deltaSeen) = (if archiveSeen \<and> deltaSeen then Some facts else None)"
| "disk_facts_loop (line # lines) st =
     (case disk_facts_line line st of None \<Rightarrow> None | Some st' \<Rightarrow> disk_facts_loop lines st')"

definition parseAptDiskFacts :: "string \<Rightarrow> apt_disk_facts option" where
  "parseAptDiskFacts output =
     disk_facts_loop (split_char CHR 0x0A (crlf_to_lf output))
       (\<lparr>fArchiveBytes = 0, fInstalledDeltaBytes = 0\<rparr>, False, False)"

subsection \<open>Estimates\<close>

definition PlanDiskBaseReserveKB :: int where "PlanDiskBaseReserveKB = 1024 * 1024"
definition PlanDiskPerPackageKB :: int where "PlanDiskPerPackageKB = 64 * 1024"
definition PlanDiskPerNewPackageKB :: int where "PlanDiskPerNewPackageKB = 512 * 1024"
definition PlanDiskExactMarginMinBytes :: int where "PlanDiskExactMarginMinBytes = 64 * 1024 * 1024"
definition PlanDiskExactMarginMaxBytes :: int where "PlanDiskExactMarginMaxBytes = 512 * 1024 * 1024"

abbreviation (input) PlanDiskSourceExact :: string where "PlanDiskSourceExact \<equiv> ''exact''"
abbreviation (input) PlanDiskSourceEstimate :: string where "PlanDiskSourceEstimate \<equiv> ''estimate''"

record disk_estimate =
  eRequiredKB :: int
  ePackageCount :: int
  eNewPackageCount :: int
  eSource :: string
  eArchiveBytes :: int
  eInstalledDeltaBytes :: int
  eInstalledGrowthBytes :: int
  eSafetyMarginBytes :: int
  eOperationalReserveBytes :: int

definition exact_margin :: "int \<Rightarrow> int" where
  "exact_margin payload =
     (let margin = payload div 10;
          margin1 = (if payload mod 10 \<noteq> 0 then margin + 1 else margin);
          margin2 = (if margin1 < PlanDiskExactMarginMinBytes then PlanDiskExactMarginMinBytes else margin1)
      in if PlanDiskExactMarginMaxBytes < margin2 then PlanDiskExactMarginMaxBytes else margin2)"

definition exactPlanDiskSpaceEstimate :: "apt_disk_facts \<Rightarrow> disk_estimate option" where
  "exactPlanDiskSpaceEstimate facts =
     (let growth = fInstalledDeltaBytes facts;
          payload = int64 (fArchiveBytes facts + growth);
          margin = exact_margin payload;
          reserve = int64 (PlanDiskBaseReserveKB * 1024);
          requiredBytes = int64 (int64 (payload + margin) + reserve);
          requiredKB = requiredBytes div 1024;
          requiredKB' = (if requiredBytes mod 1024 \<noteq> 0 then requiredKB + 1 else requiredKB)
      in if fArchiveBytes facts < 0 \<or> growth < 0 then None
         else if int64 (MaxInt64 - growth) < fArchiveBytes facts then None
         else if int64 (MaxInt64 - margin) < payload \<or> int64 (MaxInt64 - reserve) < int64 (payload + margin) then None
         else Some \<lparr>eRequiredKB = requiredKB', ePackageCount = 0, eNewPackageCount = 0,
           eSource = PlanDiskSourceExact, eArchiveBytes = fArchiveBytes facts,
           eInstalledDeltaBytes = fInstalledDeltaBytes facts, eInstalledGrowthBytes = growth,
           eSafetyMarginBytes = margin, eOperationalReserveBytes = reserve\<rparr>)"

definition estimatePlanDiskSpaceByPackages :: "upgrade_plan \<Rightarrow> disk_estimate" where
  "estimatePlanDiskSpaceByPackages plan =
     (let fallback = int64 (StandardPackageCount plan + KeptBackPackageCount plan);
          packageCount = (if FullUpgradePackageCount plan < fallback then fallback else FullUpgradePackageCount plan);
          newCount = int (length (FullUpgradeNewPackages plan));
          keptBackNew = int (length (KeptBackSecurityNewPackages plan));
          newPackageCount = (if newCount < keptBackNew then keptBackNew else newCount)
      in \<lparr>eRequiredKB = int64 (int64 (PlanDiskBaseReserveKB + int64 (packageCount * PlanDiskPerPackageKB))
             + int64 (newPackageCount * PlanDiskPerNewPackageKB)),
          ePackageCount = packageCount, eNewPackageCount = newPackageCount, eSource = PlanDiskSourceEstimate,
          eArchiveBytes = 0, eInstalledDeltaBytes = 0, eInstalledGrowthBytes = 0, eSafetyMarginBytes = 0,
          eOperationalReserveBytes = int64 (PlanDiskBaseReserveKB * 1024)\<rparr>)"

definition plan_facts :: "upgrade_plan \<Rightarrow> apt_disk_facts" where
  "plan_facts plan =
     \<lparr>fArchiveBytes = (if KeptBackSecurityPlanAvailable plan \<and> FullUpgradeArchiveBytes plan < KeptBackArchiveBytes plan
         then KeptBackArchiveBytes plan else FullUpgradeArchiveBytes plan),
      fInstalledDeltaBytes = (if KeptBackSecurityPlanAvailable plan
           \<and> FullUpgradeInstalledDeltaBytes plan < KeptBackInstalledDeltaBytes plan
         then KeptBackInstalledDeltaBytes plan else FullUpgradeInstalledDeltaBytes plan)\<rparr>"

definition EstimatePlanDiskSpace :: "upgrade_plan \<Rightarrow> disk_estimate" where
  "EstimatePlanDiskSpace plan =
     (let counts = estimatePlanDiskSpaceByPackages plan in
      if FullUpgradePlanAvailable plan \<and> FullUpgradeDiskFactsAvailable plan
         \<and> (\<not> KeptBackSecurityPlanAvailable plan \<or> KeptBackDiskFactsAvailable plan)
      then (case exactPlanDiskSpaceEstimate (plan_facts plan) of
              Some exact \<Rightarrow> exact\<lparr>ePackageCount := ePackageCount counts, eNewPackageCount := eNewPackageCount counts\<rparr>
            | None \<Rightarrow> counts)
      else counts)"

definition applyPlanDiskEstimate :: "upgrade_plan \<Rightarrow> upgrade_plan" where
  "applyPlanDiskEstimate plan =
     (let estimate = EstimatePlanDiskSpace plan in
      plan\<lparr>DiskSpaceRequiredKB := eRequiredKB estimate, DiskSpacePackageCount := ePackageCount estimate,
        DiskSpaceNewPackageCount := eNewPackageCount estimate, DiskSpaceSource := eSource estimate,
        DiskSpaceArchiveBytes := eArchiveBytes estimate, DiskSpaceInstalledDeltaBytes := eInstalledDeltaBytes estimate,
        DiskSpaceInstalledGrowthBytes := eInstalledGrowthBytes estimate,
        DiskSpaceSafetyMarginBytes := eSafetyMarginBytes estimate,
        DiskSpaceOperationalReserveBytes := eOperationalReserveBytes estimate\<rparr>)"

subsection \<open>The disk check of a plan\<close>

record plan_disk_filesystem =
  pDevice :: string
  pAvailableBytes :: int
  pPaths :: "string list"

datatype disk_error =
    InvalidOutput | UnexpectedLabel string | DuplicateLabel string | InvalidFreeSpace string
  | MissingFilesystem string | EstimateOverflow | ArchiveOverflow | InstalledOverflow

type_synonym disk_tables = "(string \<times> plan_disk_filesystem) list \<times> (string \<times> string) list"

text \<open>\<open>strings.SplitN\<close> at tabs with at most four parts.\<close>

definition split_tabs4 :: "string \<Rightarrow> string list" where
  "split_tabs4 s =
     (let ps = split_char CHR 0x09 s
      in if length ps \<le> 4 then ps else take 3 ps @ [join [CHR 0x09] (drop 3 ps)])"

definition disk_line :: "string \<Rightarrow> disk_tables \<Rightarrow> (disk_error, disk_tables) result" where
  "disk_line rawLine st =
     (case st of (filesystems, paths) \<Rightarrow>
      if trim_space rawLine = [] then Inr st
      else case split_tabs4 rawLine of
        [label, device, free, path] \<Rightarrow>
          if label \<notin> set [''archive'', ''var'', ''root''] then Inl (UnexpectedLabel label)
          else if trim_space device = [] \<or> trim_space path = [] then Inl InvalidOutput
          else if map_of paths label \<noteq> None then Inl (DuplicateLabel label)
          else (case parse_int64 free of
             None \<Rightarrow> Inl (InvalidFreeSpace free)
           | Some availableKB \<Rightarrow>
               if availableKB < 0 \<or> MaxInt64 div 1024 < availableKB then Inl (InvalidFreeSpace free)
               else
                 let availableBytes = int64 (availableKB * 1024);
                     fs = (case map_of filesystems device of
                         None \<Rightarrow> \<lparr>pDevice = device, pAvailableBytes = availableBytes, pPaths = []\<rparr>
                       | Some fs \<Rightarrow> if availableBytes < pAvailableBytes fs
                           then fs\<lparr>pAvailableBytes := availableBytes\<rparr> else fs);
                     fs' = (if path \<in> set (pPaths fs) then fs else fs\<lparr>pPaths := sort (pPaths fs @ [path])\<rparr>)
                 in Inr (AList.update device fs' filesystems, AList.update label device paths))
      | _ \<Rightarrow> Inl InvalidOutput)"

fun disk_lines :: "string list \<Rightarrow> disk_tables \<Rightarrow> (disk_error, disk_tables) result" where
  "disk_lines [] st = Inr st"
| "disk_lines (line # lines) st = bind_result (disk_line line st) (disk_lines lines)"

text \<open>Reading a missing key gives the zero value of the entry.\<close>

definition device_of :: "(string \<times> string) list \<Rightarrow> string \<Rightarrow> string" where
  "device_of paths label = (case map_of paths label of Some d \<Rightarrow> d | None \<Rightarrow> [])"

definition parsePlanDiskFilesystems :: "string \<Rightarrow> (disk_error, disk_tables) result" where
  "parsePlanDiskFilesystems stdout =
     bind_result (disk_lines (split_char CHR 0x0A (crlf_to_lf stdout)) ([], []))
       (\<lambda>(filesystems, paths).
          case filter (\<lambda>label. trim_space (device_of paths label) = []) [''archive'', ''var'', ''root''] of
            [] \<Rightarrow> Inr (filesystems, paths)
          | label # _ \<Rightarrow> Inl (MissingFilesystem label))"

definition requirement_of :: "(string \<times> int) list \<Rightarrow> string \<Rightarrow> int" where
  "requirement_of requirements device = (case map_of requirements device of Some v \<Rightarrow> v | None \<Rightarrow> 0)"

definition addPlanDiskRequirement :: "(string \<times> int) list \<Rightarrow> string \<Rightarrow> int \<Rightarrow> (string \<times> int) list option" where
  "addPlanDiskRequirement requirements device value =
     (let current = requirement_of requirements device in
      if value < 0 \<or> int64 (MaxInt64 - value) < current then None
      else Some (AList.update device (int64 (current + value)) requirements))"

fun add_requirements :: "(string \<times> int) list \<Rightarrow> string list \<Rightarrow> int \<Rightarrow> (string \<times> int) list option" where
  "add_requirements requirements [] value = Some requirements"
| "add_requirements requirements (device # devices) value =
     (case addPlanDiskRequirement requirements device value of
        None \<Rightarrow> None | Some requirements' \<Rightarrow> add_requirements requirements' devices value)"

fun base_requirements :: "disk_estimate \<Rightarrow> string list \<Rightarrow> (string \<times> int) list
    \<Rightarrow> (disk_error, (string \<times> int) list) result" where
  "base_requirements estimate [] requirements = Inr requirements"
| "base_requirements estimate (device # devices) requirements =
     (if eSource estimate = PlanDiskSourceEstimate then
        (if MaxInt64 div 1024 < eRequiredKB estimate then Inl EstimateOverflow
         else base_requirements estimate devices
           (AList.update device (int64 (eRequiredKB estimate * 1024)) requirements))
      else base_requirements estimate devices
        (AList.update device (int64 (eOperationalReserveBytes estimate + eSafetyMarginBytes estimate)) requirements))"

definition planDiskFilesystemRequirements ::
  "disk_estimate \<Rightarrow> (string \<times> string) list \<Rightarrow> (disk_error, (string \<times> int) list) result" where
  "planDiskFilesystemRequirements estimate paths =
     bind_result (base_requirements estimate (map snd paths) [])
       (\<lambda>requirements.
          if eSource estimate \<noteq> PlanDiskSourceExact then Inr requirements
          else case addPlanDiskRequirement requirements (device_of paths ''archive'') (eArchiveBytes estimate) of
            None \<Rightarrow> Inl ArchiveOverflow
          | Some requirements' \<Rightarrow>
              (case add_requirements requirements' (remdups [device_of paths ''root'', device_of paths ''var''])
                      (eInstalledGrowthBytes estimate) of
                 None \<Rightarrow> Inl InstalledOverflow
               | Some requirements'' \<Rightarrow> Inr requirements''))"

datatype plan_disk_result =
    ProbeFailed | Unreadable disk_error | NoRequirement disk_error
  | Insufficient string int \<comment> \<open>the first blocking device and its requirement\<close>
  | PlanDiskPassed

definition available_on :: "(string \<times> plan_disk_filesystem) list \<Rightarrow> string \<Rightarrow> int" where
  "available_on filesystems device =
     (case map_of filesystems device of Some fs \<Rightarrow> pAvailableBytes fs | None \<Rightarrow> 0)"

text \<open>\<open>stdout\<close> is \<^const>\<open>None\<close> when running the probe failed.\<close>

definition planDiskSpaceCheckResult :: "string option \<Rightarrow> upgrade_plan \<Rightarrow> plan_disk_result" where
  "planDiskSpaceCheckResult stdout plan =
     (let estimate = EstimatePlanDiskSpace plan in
      case stdout of None \<Rightarrow> ProbeFailed
      | Some out \<Rightarrow>
          (case parsePlanDiskFilesystems out of
             Inl e \<Rightarrow> Unreadable e
           | Inr (filesystems, paths) \<Rightarrow>
               (case planDiskFilesystemRequirements estimate paths of
                  Inl e \<Rightarrow> NoRequirement e
                | Inr requirements \<Rightarrow>
                    (case filter (\<lambda>device. available_on filesystems device < requirement_of requirements device)
                            (sort (map fst requirements)) of
                       device # _ \<Rightarrow> Insufficient device (requirement_of requirements device)
                     | [] \<Rightarrow> PlanDiskPassed))))"

subsection \<open>Lemmas on the estimates\<close>

lemma exact_margin_bounds:
  assumes "0 \<le> p"
  shows "PlanDiskExactMarginMinBytes \<le> exact_margin p" "exact_margin p \<le> PlanDiskExactMarginMaxBytes"
    "p \<le> 10 * exact_margin p \<or> exact_margin p = PlanDiskExactMarginMaxBytes"
  using assms
  by (auto simp: exact_margin_def Let_def PlanDiskExactMarginMinBytes_def PlanDiskExactMarginMaxBytes_def)

lemmas disk_constants = PlanDiskBaseReserveKB_def PlanDiskExactMarginMinBytes_def PlanDiskExactMarginMaxBytes_def

lemma reserve_value: "int64 (PlanDiskBaseReserveKB * 1024) = 1073741824"
  by (simp add: PlanDiskBaseReserveKB_def int64_def)

lemma round_up_kb:
  fixes b :: int
  shows "b \<le> (if b mod 1024 \<noteq> 0 then b div 1024 + 1 else b div 1024) * 1024"
    "(if b mod 1024 \<noteq> 0 then b div 1024 + 1 else b div 1024) * 1024 < b + 1024"
  using div_mult_mod_eq [of b 1024] pos_mod_sign [of 1024 b] pos_mod_bound [of 1024 b]
  by (simp_all split: if_splits, linarith+)

lemma exact_sums:
  fixes a g :: int
  defines "p \<equiv> a + g"
  assumes "0 \<le> a" "0 \<le> g" "in_int64 a" "in_int64 g"
  shows "int64 (MaxInt64 - g) = MaxInt64 - g"
    and "p \<le> MaxInt64 \<Longrightarrow> int64 p = p"
    and "p \<le> MaxInt64 \<Longrightarrow> int64 (MaxInt64 - exact_margin p) = MaxInt64 - exact_margin p"
    and "p + exact_margin p \<le> MaxInt64 \<Longrightarrow> int64 (p + exact_margin p) = p + exact_margin p"
    and "int64 (MaxInt64 - 1073741824) = MaxInt64 - 1073741824"
    and "p + exact_margin p + 1073741824 \<le> MaxInt64
      \<Longrightarrow> int64 (p + exact_margin p + 1073741824) = p + exact_margin p + 1073741824"
proof -
  have p: "0 \<le> p" using assms by simp
  note m = exact_margin_bounds(1,2) [OF p, unfolded disk_constants]
  have g: "g \<le> MaxInt64" using assms by (simp add: in_int64_def)
  show "int64 (MaxInt64 - g) = MaxInt64 - g"
    by (rule int64_id) (use g assms(3) in \<open>simp add: in_int64_def MaxInt64_def\<close>)
  show "int64 p = p" if "p \<le> MaxInt64"
    by (rule int64_id) (use that p in \<open>simp add: in_int64_def\<close>)
  show "int64 (MaxInt64 - exact_margin p) = MaxInt64 - exact_margin p" if "p \<le> MaxInt64"
    by (rule int64_id) (use m in \<open>simp add: in_int64_def MaxInt64_def\<close>)
  show "int64 (p + exact_margin p) = p + exact_margin p" if "p + exact_margin p \<le> MaxInt64"
    by (rule int64_id) (use that p m in \<open>simp add: in_int64_def\<close>)
  show "int64 (MaxInt64 - 1073741824) = MaxInt64 - 1073741824"
    by (rule int64_id) (simp add: in_int64_def MaxInt64_def)
  show "int64 (p + exact_margin p + 1073741824) = p + exact_margin p + 1073741824"
    if "p + exact_margin p + 1073741824 \<le> MaxInt64"
    by (rule int64_id) (use that p m in \<open>simp add: in_int64_def\<close>)
qed

text \<open>The overflow tests of the source fail exactly when the sum does not fit.\<close>

lemma exact_estimate_cases:
  assumes "in_int64 (fArchiveBytes facts)" and "in_int64 (fInstalledDeltaBytes facts)"
  defines "p \<equiv> fArchiveBytes facts + fInstalledDeltaBytes facts"
  defines "b \<equiv> p + exact_margin p + 1073741824"
  shows "exactPlanDiskSpaceEstimate facts =
     (if fArchiveBytes facts < 0 \<or> fInstalledDeltaBytes facts < 0 \<or> MaxInt64 < b then None
      else Some \<lparr>eRequiredKB = (if b mod 1024 \<noteq> 0 then b div 1024 + 1 else b div 1024), ePackageCount = 0,
        eNewPackageCount = 0, eSource = PlanDiskSourceExact, eArchiveBytes = fArchiveBytes facts,
        eInstalledDeltaBytes = fInstalledDeltaBytes facts, eInstalledGrowthBytes = fInstalledDeltaBytes facts,
        eSafetyMarginBytes = exact_margin p, eOperationalReserveBytes = 1073741824\<rparr>)"
proof (cases "fArchiveBytes facts < 0 \<or> fInstalledDeltaBytes facts < 0")
  case True
  then show ?thesis by (auto simp: exactPlanDiskSpaceEstimate_def Let_def)
next
  case nonneg: False
  then have p: "0 \<le> p" by (simp add: p_def)
  note m = exact_margin_bounds(1,2) [OF p, unfolded disk_constants]
  note sums = exact_sums [of "fArchiveBytes facts" "fInstalledDeltaBytes facts", folded p_def]
  have sums': "0 \<le> fArchiveBytes facts" "0 \<le> fInstalledDeltaBytes facts" using nonneg by simp_all
  note sums = sums [OF sums' assms(1,2)]
  have eq: "fArchiveBytes facts + fInstalledDeltaBytes facts = p" by (simp add: p_def)
  have test: "MaxInt64 - fInstalledDeltaBytes facts < fArchiveBytes facts \<longleftrightarrow> MaxInt64 < p" by (auto simp: p_def)
  have unfold: "exactPlanDiskSpaceEstimate facts =
     (if MaxInt64 < p then None
      else if int64 (MaxInt64 - exact_margin (int64 p)) < int64 p
         \<or> MaxInt64 - 1073741824 < int64 (int64 p + exact_margin (int64 p)) then None
      else let q = int64 (int64 (int64 p + exact_margin (int64 p)) + 1073741824) in
        Some \<lparr>eRequiredKB = (if q mod 1024 \<noteq> 0 then q div 1024 + 1 else q div 1024), ePackageCount = 0,
        eNewPackageCount = 0, eSource = PlanDiskSourceExact, eArchiveBytes = fArchiveBytes facts,
        eInstalledDeltaBytes = fInstalledDeltaBytes facts, eInstalledGrowthBytes = fInstalledDeltaBytes facts,
        eSafetyMarginBytes = exact_margin (int64 p), eOperationalReserveBytes = 1073741824\<rparr>)"
    using nonneg unfolding exactPlanDiskSpaceEstimate_def Let_def reserve_value sums(1,5) eq test by simp
  show ?thesis
  proof (cases "p + exact_margin p \<le> MaxInt64")
    case True
    then have "p \<le> MaxInt64" using m by simp
    then show ?thesis using True nonneg sums(2,3,4,6) by (auto simp: unfold b_def Let_def)
  next
    case False
    then show ?thesis using nonneg sums(2,3) m by (cases "p \<le> MaxInt64") (auto simp: unfold b_def)
  qed
qed

subsection \<open>Lemmas on the requirements\<close>

lemma base_requirements_map:
  assumes "base_requirements e ds rq = Inr rq'"
  shows "map_of rq' d = (if d \<in> set ds
     then Some (if eSource e = PlanDiskSourceEstimate then int64 (eRequiredKB e * 1024)
                else int64 (eOperationalReserveBytes e + eSafetyMarginBytes e)) else map_of rq d)"
  using assms by (induction e ds rq rule: base_requirements.induct) (auto simp: update_conv' split: if_splits)

lemma base_requirements_bound:
  assumes "base_requirements e ds rq = Inr rq'" and "ds \<noteq> []" and "eSource e = PlanDiskSourceEstimate"
  shows "eRequiredKB e \<le> MaxInt64 div 1024"
  using assms by (cases ds) (auto split: if_splits)

lemma addPlanDiskRequirement_map:
  assumes "addPlanDiskRequirement rq d v = Some rq'" and "0 \<le> requirement_of rq d"
    and "v \<le> MaxInt64"
  shows "requirement_of rq' d' = requirement_of rq d' + (if d' = d then v else 0)" "0 \<le> v"
    "dom (map_of rq') = insert d (dom (map_of rq))"
proof -
  have v: "0 \<le> v" and le: "requirement_of rq d \<le> int64 (MaxInt64 - v)"
    and rq': "rq' = AList.update d (int64 (requirement_of rq d + v)) rq"
    using assms(1) by (auto simp: addPlanDiskRequirement_def Let_def split: if_splits)
  have "int64 (MaxInt64 - v) = MaxInt64 - v"
    using v assms(3) by (intro int64_id) (simp add: in_int64_def MaxInt64_def)
  with le have "int64 (requirement_of rq d + v) = requirement_of rq d + v"
    using v assms(2) by (intro int64_id) (simp add: in_int64_def)
  with rq' show "requirement_of rq' d' = requirement_of rq d' + (if d' = d then v else 0)"
    by (simp add: requirement_of_def update_conv')
  show "0 \<le> v" by (rule v)
  show "dom (map_of rq') = insert d (dom (map_of rq))" by (simp add: rq' update_conv')
qed

lemma add_requirements_map:
  assumes "add_requirements rq ds v = Some rq'" and "distinct ds" and "\<And>d. 0 \<le> requirement_of rq d"
    and "v \<le> MaxInt64"
  shows "requirement_of rq' d' = requirement_of rq d' + (if d' \<in> set ds then v else 0)
    \<and> dom (map_of rq) \<subseteq> dom (map_of rq')"
  using assms
proof (induction rq ds v rule: add_requirements.induct)
  case (2 rq d ds v)
  then obtain rq1 where rq1: "addPlanDiskRequirement rq d v = Some rq1" "add_requirements rq1 ds v = Some rq'"
    by (auto split: option.splits)
  note m = addPlanDiskRequirement_map [OF rq1(1) "2.prems"(3,4)]
  have "requirement_of rq' d' = requirement_of rq1 d' + (if d' \<in> set ds then v else 0)
      \<and> dom (map_of rq1) \<subseteq> dom (map_of rq')"
    using "2.IH" [OF rq1] "2.prems"(2-4) m(1,2) by simp
  then show ?case using m(1,3) "2.prems"(2) by auto
qed simp

text \<open>What each device must have free.\<close>

definition device_needs :: "disk_estimate \<Rightarrow> (string \<times> string) list \<Rightarrow> string \<Rightarrow> int" where
  "device_needs e paths device =
     (if eSource e = PlanDiskSourceExact
      then eOperationalReserveBytes e + eSafetyMarginBytes e
        + (if device = device_of paths ''archive'' then eArchiveBytes e else 0)
        + (if device = device_of paths ''root'' \<or> device = device_of paths ''var'' then eInstalledGrowthBytes e else 0)
      else eRequiredKB e * 1024)"

definition estimate_ok :: "disk_estimate \<Rightarrow> bool" where
  "estimate_ok e \<longleftrightarrow>
     (if eSource e = PlanDiskSourceExact
      then eOperationalReserveBytes e = 1073741824 \<and> 0 \<le> eSafetyMarginBytes e
        \<and> eSafetyMarginBytes e \<le> PlanDiskExactMarginMaxBytes
        \<and> eArchiveBytes e \<le> MaxInt64 \<and> eInstalledGrowthBytes e \<le> MaxInt64
      else eSource e = PlanDiskSourceEstimate \<and> 0 \<le> eRequiredKB e)"

lemma requirements_exact:
  assumes "planDiskFilesystemRequirements e paths = Inr rq" and "estimate_ok e" and "d \<in> snd ` set paths"
  shows "requirement_of rq d = device_needs e paths d \<and> d \<in> dom (map_of rq)"
proof -
  obtain rq0 where rq0: "base_requirements e (map snd paths) [] = Inr rq0"
    using assms(1) by (cases "base_requirements e (map snd paths) []") (auto simp: planDiskFilesystemRequirements_def)
  note base = base_requirements_map [OF rq0]
  show ?thesis
  proof (cases "eSource e = PlanDiskSourceExact")
    case False
    then have src: "eSource e = PlanDiskSourceEstimate" and nn: "0 \<le> eRequiredKB e"
      using assms(2) by (simp_all add: estimate_ok_def)
    have "eRequiredKB e \<le> MaxInt64 div 1024"
      by (rule base_requirements_bound [OF rq0 _ src]) (use assms(3) in auto)
    then have "int64 (eRequiredKB e * 1024) = eRequiredKB e * 1024"
      using nn by (intro int64_id) (simp add: in_int64_def MaxInt64_def)
    moreover have "rq = rq0" using assms(1) False rq0 by (simp add: planDiskFilesystemRequirements_def)
    ultimately show ?thesis using base [of d] src assms(3) False
      by (auto simp: requirement_of_def device_needs_def)
  next
    case True
    let ?v = "eOperationalReserveBytes e + eSafetyMarginBytes e"
    have ok: "0 \<le> ?v" "int64 ?v = ?v" "eArchiveBytes e \<le> MaxInt64" "eInstalledGrowthBytes e \<le> MaxInt64"
      using assms(2) True
      by (auto simp: estimate_ok_def PlanDiskExactMarginMaxBytes_def in_int64_def MaxInt64_def intro!: int64_id)
    have base0: "requirement_of rq0 d' = (if d' \<in> snd ` set paths then ?v else 0)" for d'
      using base [of d'] True ok(2) by (simp add: requirement_of_def)
    obtain rq1 where rq1: "addPlanDiskRequirement rq0 (device_of paths ''archive'') (eArchiveBytes e) = Some rq1"
      "add_requirements rq1 (remdups [device_of paths ''root'', device_of paths ''var'']) (eInstalledGrowthBytes e) = Some rq"
      using assms(1) rq0 True by (auto simp: planDiskFilesystemRequirements_def split: option.splits)
    have "0 \<le> requirement_of rq0 d'" for d' using base0 ok(1) by simp
    note m1 = addPlanDiskRequirement_map [OF rq1(1) this ok(3)]
    have "0 \<le> requirement_of rq1 d'" for d' using m1(1,2) base0 ok(1) by simp
    note m2 = add_requirements_map [OF rq1(2) _ this ok(4), of d]
    have "d \<in> dom (map_of rq0)" using base [of d] assms(3) by auto
    then have "d \<in> dom (map_of rq)" using m1(3) m2 by blast
    moreover have "requirement_of rq d = device_needs e paths d"
      using m1(1) m2 base0 [of d] assms(3) True by (simp add: device_needs_def)
    ultimately show ?thesis by simp
  qed
qed

lemma exact_estimate_fields:
  assumes "exactPlanDiskSpaceEstimate facts = Some e" and "in_int64 (fArchiveBytes facts)" and "in_int64 (fInstalledDeltaBytes facts)"
  shows "estimate_ok e" "eSource e = PlanDiskSourceExact"
proof -
  let ?p = "fArchiveBytes facts + fInstalledDeltaBytes facts"
  have nn: "0 \<le> fArchiveBytes facts" "0 \<le> fInstalledDeltaBytes facts"
    and e: "eSource e = PlanDiskSourceExact" "eOperationalReserveBytes e = 1073741824"
      "eSafetyMarginBytes e = exact_margin ?p" "eArchiveBytes e = fArchiveBytes facts"
      "eInstalledGrowthBytes e = fInstalledDeltaBytes facts"
    using assms(1) unfolding exact_estimate_cases [OF assms(2,3)] Let_def by (auto split: if_split_asm)
  have "0 \<le> ?p" using nn by simp
  then show "estimate_ok e" "eSource e = PlanDiskSourceExact"
    using nn assms(2,3) exact_margin_bounds(1,2) [of ?p] unfolding estimate_ok_def e
    by (simp_all add: in_int64_def PlanDiskExactMarginMinBytes_def)
qed

lemma EstimatePlanDiskSpace_ok:
  assumes "in_int64 (fArchiveBytes (plan_facts plan))" and "in_int64 (fInstalledDeltaBytes (plan_facts plan))"
    and "0 \<le> eRequiredKB (EstimatePlanDiskSpace plan)"
  shows "estimate_ok (EstimatePlanDiskSpace plan)"
proof (cases "EstimatePlanDiskSpace plan = estimatePlanDiskSpaceByPackages plan")
  case True
  then show ?thesis using assms(3) by (simp add: estimate_ok_def estimatePlanDiskSpaceByPackages_def Let_def)
next
  case False
  then obtain ex where ex: "exactPlanDiskSpaceEstimate (plan_facts plan) = Some ex"
    and e: "EstimatePlanDiskSpace plan = ex\<lparr>ePackageCount := ePackageCount (estimatePlanDiskSpaceByPackages plan),
       eNewPackageCount := eNewPackageCount (estimatePlanDiskSpaceByPackages plan)\<rparr>"
    unfolding EstimatePlanDiskSpace_def Let_def by (simp split: if_splits option.splits)
  show ?thesis using exact_estimate_fields [OF ex assms(1,2)] by (simp add: e estimate_ok_def)
qed

lemma device_of_mem: "device_of paths label \<noteq> [] \<Longrightarrow> device_of paths label \<in> snd ` set paths"
  by (auto simp: device_of_def split: option.splits dest: map_of_SomeD) (force dest: map_of_SomeD)

lemma parsePlanDiskFilesystems_labels:
  assumes "parsePlanDiskFilesystems out = Inr (filesystems, paths)"
    and "label \<in> set [''archive'', ''var'', ''root'']"
  shows "device_of paths label \<in> snd ` set paths"
proof -
  let ?missing = "\<lambda>ps. filter (\<lambda>label. trim_space (device_of ps label) = []) [''archive'', ''var'', ''root'']"
  obtain fs ps where "(case ?missing ps of [] \<Rightarrow> Inr (fs, ps) | l # _ \<Rightarrow> Inl (MissingFilesystem l)) = Inr (filesystems, paths)"
    using assms(1) unfolding parsePlanDiskFilesystems_def bind_result_Inr_iff by auto
  then have "?missing paths = []" by (cases "?missing ps") (simp_all del: filter.simps)
  then have "trim_space (device_of paths label) \<noteq> []" using assms(2) unfolding filter_empty_conv by blast
  then show ?thesis by (intro device_of_mem) auto
qed

lemma decimal_digits: "list_all is_digit w \<Longrightarrow> filter (\<lambda>c. c \<noteq> CHR '','') w = w"
  by (auto simp: filter_id_conv list_all_iff is_digit_byte byte_val_def)

lemma ceiling_div:
  fixes x d :: int
  assumes "0 < d"
  shows "x \<le> (x + (d - 1)) div d * d" "((x + (d - 1)) div d - 1) * d < x"
  using div_mult_mod_eq [of "x + (d - 1)" d] pos_mod_sign [OF assms, of "x + (d - 1)"]
    pos_mod_bound [OF assms, of "x + (d - 1)"]
  unfolding left_diff_distrib by linarith+

subsection \<open>Properties\<close>

text \<open>C28: When the disk check of a plan passes, each of the file systems that hold the APT archive,
  \<open>/var\<close> and \<open>/\<close> has at least the space free that the plan needs on it: with exact facts from
  APT the reserve, the safety margin, the archives if they are stored there and the installed growth
  if packages are installed there, all together when they share a device, and otherwise the whole
  estimate. No sum in the computation wraps around.\<close>

theorem disk_check_protects_devices:
  assumes "planDiskSpaceCheckResult (Some out) plan = PlanDiskPassed"
    and "in_int64 (fArchiveBytes (plan_facts plan))" and "in_int64 (fInstalledDeltaBytes (plan_facts plan))"
    and "0 \<le> eRequiredKB (EstimatePlanDiskSpace plan)"
  shows "\<exists>filesystems paths. parsePlanDiskFilesystems out = Inr (filesystems, paths)
     \<and> list_all (\<lambda>label. device_needs (EstimatePlanDiskSpace plan) paths (device_of paths label)
           \<le> available_on filesystems (device_of paths label)) [''archive'', ''var'', ''root'']"
proof -
  obtain filesystems paths rq where parse: "parsePlanDiskFilesystems out = Inr (filesystems, paths)"
    and rq: "planDiskFilesystemRequirements (EstimatePlanDiskSpace plan) paths = Inr rq"
    and none: "filter (\<lambda>d. available_on filesystems d < requirement_of rq d) (sort (map fst rq)) = []"
    using assms(1) by (auto simp: planDiskSpaceCheckResult_def Let_def split: sum.splits list.splits)
  have "device_needs (EstimatePlanDiskSpace plan) paths (device_of paths label)
      \<le> available_on filesystems (device_of paths label)" if "label \<in> set [''archive'', ''var'', ''root'']" for label
  proof -
    let ?d = "device_of paths label"
    have "requirement_of rq ?d = device_needs (EstimatePlanDiskSpace plan) paths ?d \<and> ?d \<in> dom (map_of rq)"
      by (rule requirements_exact [OF rq EstimatePlanDiskSpace_ok [OF assms(2-4)]
            parsePlanDiskFilesystems_labels [OF parse that]])
    moreover from this have "?d \<in> set (map fst rq)" by (simp add: dom_map_of_conv_image_fst)
    ultimately show ?thesis using none by (force simp: filter_empty_conv)
  qed
  with parse show ?thesis unfolding list_all_iff by blast
qed

definition sample_probe :: string where
  "sample_probe = ''archive'' @ [CHR 0x09] @ ''8'' @ [CHR 0x09] @ ''2000000'' @ [CHR 0x09] @ ''/var/cache/apt'' @ [CHR 0x0A]
     @ ''var'' @ [CHR 0x09] @ ''8'' @ [CHR 0x09] @ ''2000000'' @ [CHR 0x09] @ ''/var'' @ [CHR 0x0A]
     @ ''root'' @ [CHR 0x09] @ ''9'' @ [CHR 0x09] @ ''1500000'' @ [CHR 0x09] @ ''/''"

theorem disk_check_protects_devices_witness:
  "\<exists>filesystems paths. parsePlanDiskFilesystems sample_probe = Inr (filesystems, paths)
     \<and> list_all (\<lambda>label. device_needs (EstimatePlanDiskSpace empty_plan) paths (device_of paths label)
           \<le> available_on filesystems (device_of paths label)) [''archive'', ''var'', ''root'']"
  by (rule disk_check_protects_devices) code_simp+

text \<open>The exact estimate is refused exactly when APT would free space or when the total does not
  fit into 64 bits. Otherwise the required space, rounded up to whole kilobytes, is the sum of the
  archives, the growth, a reserve of one gigabyte and a safety margin between 64 and 512 megabytes
  that is at least a tenth of the payload unless it is capped.\<close>

lemma exact_estimate_covers_plan:
  assumes "in_int64 (fArchiveBytes facts)" and "in_int64 (fInstalledDeltaBytes facts)"
  shows "case exactPlanDiskSpaceEstimate facts of
     None \<Rightarrow> fArchiveBytes facts < 0 \<or> fInstalledDeltaBytes facts < 0
       \<or> MaxInt64 < fArchiveBytes facts + fInstalledDeltaBytes facts + PlanDiskExactMarginMaxBytes + 1073741824
   | Some e \<Rightarrow>
       (let needed = fArchiveBytes facts + fInstalledDeltaBytes facts + eSafetyMarginBytes e + 1073741824 in
        needed \<le> eRequiredKB e * 1024 \<and> eRequiredKB e * 1024 < needed + 1024
        \<and> 0 \<le> fArchiveBytes facts \<and> 0 \<le> fInstalledDeltaBytes facts
        \<and> PlanDiskExactMarginMinBytes \<le> eSafetyMarginBytes e \<and> eSafetyMarginBytes e \<le> PlanDiskExactMarginMaxBytes
        \<and> (fArchiveBytes facts + fInstalledDeltaBytes facts \<le> 10 * eSafetyMarginBytes e
            \<or> eSafetyMarginBytes e = PlanDiskExactMarginMaxBytes))"
proof -
  define p where "p = fArchiveBytes facts + fInstalledDeltaBytes facts"
  define b where "b = p + exact_margin p + 1073741824"
  note cases = exact_estimate_cases [OF assms, folded p_def, folded b_def]
  consider "fArchiveBytes facts < 0 \<or> fInstalledDeltaBytes facts < 0"
    | "0 \<le> fArchiveBytes facts" "0 \<le> fInstalledDeltaBytes facts" "MaxInt64 < b"
    | "0 \<le> fArchiveBytes facts" "0 \<le> fInstalledDeltaBytes facts" "\<not> MaxInt64 < b"
    by linarith
  then show ?thesis
  proof cases
    case 1
    then have "exactPlanDiskSpaceEstimate facts = None" unfolding cases by auto
    with 1 show ?thesis by auto
  next
    case 2
    then have "exactPlanDiskSpaceEstimate facts = None" unfolding cases by auto
    moreover have "0 \<le> p" using 2 by (simp add: p_def)
    ultimately show ?thesis using 2(3) exact_margin_bounds(2) [of p] by (simp add: b_def p_def)
  next
    case 3
    then have "0 \<le> p" by (simp add: p_def)
    note m = exact_margin_bounds [OF this]
    from 3 have "exactPlanDiskSpaceEstimate facts = Some \<lparr>eRequiredKB = (if b mod 1024 \<noteq> 0 then b div 1024 + 1 else b div 1024),
        ePackageCount = 0, eNewPackageCount = 0, eSource = PlanDiskSourceExact, eArchiveBytes = fArchiveBytes facts,
        eInstalledDeltaBytes = fInstalledDeltaBytes facts, eInstalledGrowthBytes = fInstalledDeltaBytes facts,
        eSafetyMarginBytes = exact_margin p, eOperationalReserveBytes = 1073741824\<rparr>"
      unfolding cases by simp
    then show ?thesis
      using 3 m round_up_kb [of b] unfolding p_def [symmetric]
      by (simp only: option.case disk_estimate.select_convs Let_def b_def [symmetric])
  qed
qed

lemma unit_shape:
  assumes "aptByteUnitMultiplier u = Some m"
  shows "0 < m" "\<exists>v. u = v @ ''B''" "u \<in> set [''B'', ''kB'', ''KB'', ''MB'', ''GB'', ''KiB'', ''MiB'', ''GiB'']"
    "\<not> ascii_space (hd u)"
  using assms by (auto simp: aptByteUnitMultiplier_def ascii_space_def split: if_splits)

lemma digits_span:
  assumes "list_all is_digit w" and "\<not> P c" and "\<And>d. is_digit d \<Longrightarrow> P d"
  shows "takeWhile P (w @ c # s) = w" "dropWhile P (w @ c # s) = c # s"
proof -
  have all: "P x" if "x \<in> set w" for x using assms(1,3) that by (auto simp: list_all_iff)
  show "takeWhile P (w @ c # s) = w" "dropWhile P (w @ c # s) = c # s"
    using assms(2) all by (simp_all add: takeWhile_append2 dropWhile_append2)
qed

lemma size_pattern:
  assumes "w \<noteq> []" "list_all is_digit w" "f \<noteq> []" "list_all is_digit f" "aptByteUnitMultiplier u = Some m"
  shows "aptByteSizePattern (w @ ''.'' @ f @ '' '' @ u) = Some (w, f, u)"
proof -
  note u = unit_shape [OF assms(5)]
  have "dropWhile ascii_space (CHR '' '' # u) = u"
    using u(2,4) by (cases u) (auto simp: ascii_space_def)
  moreover have "takeWhile is_digit (f @ CHR '' '' # u) = f" "dropWhile is_digit (f @ CHR '' '' # u) = CHR '' '' # u"
    by (rule digits_span [OF assms(4)], simp add: is_digit_byte byte_val_def, simp)+
  moreover have "takeWhile (\<lambda>c. is_digit c \<or> c = CHR '','') (w @ CHR ''.'' # f @ '' '' @ u) = w"
      "dropWhile (\<lambda>c. is_digit c \<or> c = CHR '','') (w @ CHR ''.'' # f @ '' '' @ u) = CHR ''.'' # f @ '' '' @ u"
    by (rule digits_span [OF assms(2)], simp add: is_digit_byte byte_val_def, simp)+
  moreover have "whole_number w" using assms(1,2) by (simp add: whole_number_def)
  moreover have "ascii_space CHR '' ''" by (simp add: ascii_space_def)
  ultimately show ?thesis using assms(3) u(3) unfolding aptByteSizePattern_def Let_def by simp
qed

lemma size_trimmed:
  assumes "w \<noteq> []" "list_all is_digit w" "aptByteUnitMultiplier u = Some m"
  shows "trim_space (w @ s @ u) = w @ s @ u"
proof -
  obtain c w' where w: "w = c # w'" "is_digit c" using assms(1,2) by (cases w) auto
  obtain v where u: "u = v @ ''B''" using unit_shape(2) [OF assms(3)] by blast
  have "trim_space (c # (w' @ s @ v) @ [CHR ''B'']) = c # (w' @ s @ v) @ [CHR ''B'']"
    by (rule trim_space_stop)
      (use w(2) in \<open>auto simp: ascii_space_def is_digit_byte char_le_iff_byte_val byte_val_def\<close>)
  then show ?thesis by (simp add: w u)
qed

text \<open>A size that APT prints with a fraction and a unit is read as the smallest whole number of
  bytes that is not below it, and is rejected exactly when that number does not fit into 64 bits;
  the check never plans with less space than APT announced.\<close>

lemma byte_size_rounds_up:
  assumes "w \<noteq> []" "list_all is_digit w" "f \<noteq> []" "list_all is_digit f" "aptByteUnitMultiplier u = Some m"
  shows "case parseAptByteSize (w @ ''.'' @ f @ '' '' @ u) of
     None \<Rightarrow> MaxInt64 * 10 ^ length f < (decimal w * 10 ^ length f + decimal f) * m
   | Some v \<Rightarrow> (decimal w * 10 ^ length f + decimal f) * m \<le> v * 10 ^ length f
       \<and> (v - 1) * 10 ^ length f < (decimal w * 10 ^ length f + decimal f) * m"
proof -
  define d where "d = (10 :: int) ^ length f"
  define q where "q = (decimal f * m + (d - 1)) div d"
  define v where "v = decimal w * m + q"
  have d: "0 < d" by (simp add: d_def)
  have nn: "0 \<le> v" using unit_shape(1) [OF assms(5)] decimal_nonneg [OF assms(2)] decimal_nonneg [OF assms(4)] d
    by (simp add: v_def q_def pos_imp_zdiv_nonneg_iff)
  note c = ceiling_div [OF d, of "decimal f * m", folded q_def]
  have b: "(decimal w * d + decimal f) * m \<le> v * d" "(v - 1) * d < (decimal w * d + decimal f) * m"
    using c by (simp_all add: v_def algebra_simps)
  have "parseAptByteSize (w @ ''.'' @ f @ '' '' @ u) = (if in_int64 v then Some v else None)"
    using size_trimmed [OF assms(1,2,5), of "''.'' @ f @ '' ''"] size_pattern [OF assms] assms(3,5)
    by (simp add: parseAptByteSize_def Let_def decimal_digits [OF assms(2)] v_def q_def d_def)
  moreover have "MaxInt64 * d < (decimal w * d + decimal f) * m" if "\<not> in_int64 v"
  proof -
    have "MaxInt64 \<le> v - 1" using that nn by (auto simp: in_int64_def)
    then have "MaxInt64 * d \<le> (v - 1) * d" using d by (intro mult_right_mono) simp_all
    then show ?thesis using b(2) by linarith
  qed
  ultimately show ?thesis using b unfolding d_def [symmetric] by (cases "in_int64 v") simp_all
qed

end
