(* ===== verification/Servers.thy ===== *)
theory Servers
  imports Packages Runtime "HOL-Library.AList" "HOL-Library.Word"
begin

section \<open>Servers: the inventory and the admission of actions\<close>

text \<open>
  The model of \<open>internal/servers/types.go\<close> (the shared state), \<open>action_ownership.go\<close>,
  \<open>service.go\<close> (the inventory with its SQLite table), \<open>availability.go\<close> and of the helpers of
  \<open>helpers.go\<close> they use. The map of statuses is an association list; the program never stores a
  nil pointer in it. Every operation runs under the state lock, so it is one step. The fields
  \<open>APTMetadata\<close> and \<open>ApplicationPostcheckProfile\<close> of a status are left out: no function of this
  model reads or writes them. Generations are 64-bit words.

  Parameters: \<open>lower\<close> is \<open>strings.ToLower\<close>, \<open>addr\<close> is \<open>netip.ParseAddr\<close> (the text of the
  unmapped address and whether it is an IPv6 address), \<open>enc\<close> and \<open>dec\<close> the encryption of
  credentials, and \<open>fault\<close> an error of the database or of a hook inside the transaction. The
  changes that the hooks make to other tables are not part of this model.
\<close>

record server =
  svDisabled :: bool
  svName :: string
  svHost :: string
  svPort :: int
  svUser :: string
  svPass :: string
  svKey :: string
  svTags :: "string list"

record server_status =
  stRemediationPlanID :: string
  stRemediationDigest :: string
  stDisabled :: bool
  stActionGeneration :: "64 word"
  stApprovalGeneration :: "64 word"
  stActionRunning :: bool
  stJobRevision :: int
  stName :: string
  stJobID :: string
  stHost :: string
  stPort :: int
  stUser :: string
  stStatus :: string
  stApprovalScope :: string
  stApprovalConfirmRemovals :: bool
  stLogs :: string
  stUpgradable :: "string list"
  stPendingUpdates :: "pending_update list"
  stUpgradePlan :: upgrade_plan
  stHasPassword :: bool
  stHasKey :: bool
  stHostKeyStatus :: string
  stTags :: "string list"
  stEmptyPackageDiscoveryRefreshAt :: string

datatype server_error =
    ErrRequiredFields | ErrInvalidSSHUsername | ErrNameExists | ErrEndpointExists string int
  | ErrServerNotFound | ErrActionInProgress "string option" | ErrDisabled | ErrActionNotAllowed
  | ErrNoRows | ErrSave string

record server_row =
  rwName :: string
  rwHost :: string
  rwPort :: int
  rwUser :: string
  rwPassEnc :: string
  rwKeyEnc :: string
  rwTags :: string
  rwDisabled :: bool

record inventory =
  zServers :: "server list"
  zStatus :: "(string \<times> server_status) list"
  zRows :: "server_row list"

subsection \<open>Normalisation\<close>

definition NormalizePort :: "int \<Rightarrow> int" where
  "NormalizePort port = (if port \<le> 0 \<or> 65535 < port then 22 else port)"

definition ParseTags :: "string \<Rightarrow> string list" where
  "ParseTags raw = filter (\<lambda>tag. tag \<noteq> []) (map trim_space (split_char CHR '','' raw))"

text \<open>The map \<open>seen\<close> has exactly the elements of \<open>cleaned\<close>.\<close>

fun clean_tags :: "string list \<Rightarrow> string list \<Rightarrow> string list" where
  "clean_tags [] cleaned = cleaned"
| "clean_tags (tag # tags) cleaned =
     (let clean = trim_space tag in
      if clean = [] then clean_tags tags cleaned
      else if clean \<in> set cleaned then clean_tags tags cleaned
      else clean_tags tags (cleaned @ [clean]))"

definition JoinTags :: "string list \<Rightarrow> string" where
  "JoinTags tags = (if tags = [] then [] else join '', '' (clean_tags tags []))"

definition NormalizeServerName :: "(string \<Rightarrow> string) \<Rightarrow> string \<Rightarrow> string" where
  "NormalizeServerName lower value = lower (trim_space value)"

definition parseServerIPLiteral :: "(string \<Rightarrow> (string \<times> bool) option) \<Rightarrow> string \<Rightarrow> string option" where
  "parseServerIPLiteral addr value =
     (case addr value of
        Some (a, _) \<Rightarrow> Some a
      | None \<Rightarrow>
          if 2 \<le> length value \<and> hd value = CHR ''['' \<and> last value = CHR '']'' then
            (case addr (butlast (tl value)) of
               Some (a, is6) \<Rightarrow> if is6 then Some a else None
             | None \<Rightarrow> None)
          else None)"

definition NormalizeServerHost ::
  "(string \<Rightarrow> string) \<Rightarrow> (string \<Rightarrow> (string \<times> bool) option) \<Rightarrow> string \<Rightarrow> string" where
  "NormalizeServerHost lower addr value =
     (let trimmed = trim_space value in
      case parseServerIPLiteral addr trimmed of Some a \<Rightarrow> a | None \<Rightarrow> lower trimmed)"

definition NormalizeServerEndpoint ::
  "(string \<Rightarrow> string) \<Rightarrow> (string \<Rightarrow> (string \<times> bool) option) \<Rightarrow> string \<Rightarrow> int \<Rightarrow> string \<times> int" where
  "NormalizeServerEndpoint lower addr host port = (NormalizeServerHost lower addr host, NormalizePort port)"

text \<open>\<open>skipIndex\<close> is \<^const>\<open>None\<close> for the value -1.\<close>

definition skip_index :: "nat option \<Rightarrow> 'a list \<Rightarrow> 'a list" where
  "skip_index skipIndex xs = (case skipIndex of None \<Rightarrow> xs | Some i \<Rightarrow> take i xs @ drop (Suc i) xs)"

definition ServerNameExists :: "(string \<Rightarrow> string) \<Rightarrow> server list \<Rightarrow> string \<Rightarrow> nat option \<Rightarrow> bool" where
  "ServerNameExists lower servers name skipIndex \<longleftrightarrow>
     list_ex (\<lambda>s. NormalizeServerName lower (svName s) = NormalizeServerName lower name) (skip_index skipIndex servers)"

definition ServerEndpointExists ::
  "(string \<Rightarrow> string) \<Rightarrow> (string \<Rightarrow> (string \<times> bool) option) \<Rightarrow> server list \<Rightarrow> string \<Rightarrow> int \<Rightarrow> nat option \<Rightarrow> bool" where
  "ServerEndpointExists lower addr servers host port skipIndex \<longleftrightarrow>
     list_ex (\<lambda>s. NormalizeServerEndpoint lower addr (svHost s) (svPort s) = NormalizeServerEndpoint lower addr host port)
       (skip_index skipIndex servers)"

definition IsValidSSHUsername :: "string \<Rightarrow> bool" where
  "IsValidSSHUsername username \<longleftrightarrow>
     (let trimmed = trim_space username in
      trimmed \<noteq> [] \<and> length trimmed \<le> 64
      \<and> list_all (\<lambda>r. is_lower r \<or> is_upper r \<or> is_digit r \<or> r = CHR ''_'' \<or> r = CHR ''-'' \<or> r = CHR ''.'') trimmed)"

subsection \<open>The table\<close>

definition server_row_of :: "string \<Rightarrow> string \<Rightarrow> server \<Rightarrow> server_row" where
  "server_row_of pass key s =
     \<lparr>rwName = svName s, rwHost = svHost s, rwPort = NormalizePort (svPort s), rwUser = svUser s, rwPassEnc = pass,
      rwKeyEnc = key, rwTags = JoinTags (svTags s), rwDisabled = svDisabled s\<rparr>"

fun insert_rows ::
  "(string \<Rightarrow> (string, string) result) \<Rightarrow> server list \<Rightarrow> server_row list \<Rightarrow> (string, server_row list) result" where
  "insert_rows enc [] rows = Inr rows"
| "insert_rows enc (s # ss) rows =
     bind_result (enc (svPass s)) (\<lambda>p.
       bind_result (enc (svKey s)) (\<lambda>k.
         if svName s \<in> rwName ` set rows then Inl (''insert server '' @ svName s)
         else insert_rows enc ss (rows @ [server_row_of p k s])))"

text \<open>The table is cleared and filled inside one transaction, which a fault rolls back.\<close>

definition SQLiteRepository_Save ::
  "(string \<Rightarrow> (string, string) result) \<Rightarrow> string option \<Rightarrow> server list \<Rightarrow> (string, server_row list) result" where
  "SQLiteRepository_Save enc fault servers =
     (case fault of Some e \<Rightarrow> Inl e | None \<Rightarrow> insert_rows enc servers [])"

fun load_rows :: "(string \<Rightarrow> (string, string) result) \<Rightarrow> server_row list \<Rightarrow> (string, server list) result" where
  "load_rows dec [] = Inr []"
| "load_rows dec (r # rs) =
     bind_result (dec (rwPassEnc r)) (\<lambda>pass.
       bind_result (dec (rwKeyEnc r)) (\<lambda>key.
         bind_result (load_rows dec rs) (\<lambda>ss.
           Inr (\<lparr>svDisabled = rwDisabled r, svName = rwName r, svHost = rwHost r, svPort = NormalizePort (rwPort r),
                  svUser = rwUser r, svPass = pass, svKey = key, svTags = ParseTags (rwTags r)\<rparr> # ss))))"

definition SQLiteRepository_Load ::
  "(string \<Rightarrow> (string, string) result) \<Rightarrow> server_row list \<Rightarrow> (string, server list) result" where
  "SQLiteRepository_Load dec rows = load_rows dec (sort_key rwName rows)"

definition SQLiteRepository_UpdateServerKey ::
  "(string \<Rightarrow> (string, string) result) \<Rightarrow> string option \<Rightarrow> string \<Rightarrow> string \<Rightarrow> server_row list
    \<Rightarrow> (string, server_row list) result" where
  "SQLiteRepository_UpdateServerKey enc fault name key rows =
     bind_result (enc key) (\<lambda>k.
       case fault of Some e \<Rightarrow> Inl e
       | None \<Rightarrow> Inr (map (\<lambda>r. if rwName r = name then r\<lparr>rwKeyEnc := k\<rparr> else r) rows))"

subsection \<open>The shared state\<close>

definition status_at :: "inventory \<Rightarrow> string \<Rightarrow> server_status option" where
  "status_at z name = map_of (zStatus z) name"

definition put_status :: "string \<Rightarrow> server_status \<Rightarrow> inventory \<Rightarrow> inventory" where
  "put_status name st z = z\<lparr>zStatus := AList.update name st (zStatus z)\<rparr>"

definition delete_status :: "string \<Rightarrow> inventory \<Rightarrow> inventory" where
  "delete_status name z = z\<lparr>zStatus := AList.delete name (zStatus z)\<rparr>"

definition FindByNameLocked :: "inventory \<Rightarrow> string \<Rightarrow> server option" where
  "FindByNameLocked z name = find (\<lambda>s. svName s = name) (zServers z)"

definition action_busy :: "server_status \<Rightarrow> bool" where
  "action_busy st \<longleftrightarrow> stActionRunning st \<or> StatusInProgress (stStatus st)"

definition ActionStatusInProgressLocked :: "inventory \<Rightarrow> string \<Rightarrow> bool \<times> string" where
  "ActionStatusInProgressLocked z name =
     (case status_at z name of None \<Rightarrow> (False, []) | Some st \<Rightarrow> (action_busy st, stStatus st))"

definition ActiveActionNames :: "inventory \<Rightarrow> string list" where
  "ActiveActionNames z =
     sort (filter (\<lambda>n. case status_at z n of None \<Rightarrow> False | Some st \<Rightarrow> action_busy st) (remdups (map fst (zStatus z))))"

definition begun_status :: "string \<Rightarrow> server_status \<Rightarrow> server_status" where
  "begun_status newStatus st = st\<lparr>stActionGeneration := stActionGeneration st + 1, stJobID := [], stJobRevision := -1,
     stStatus := newStatus, stLogs := (if trim_space (stLogs st) = [] then ''Starting Linux Updater...'' else stLogs st)\<rparr>"

definition BeginActionWithOptions ::
  "string \<Rightarrow> string \<Rightarrow> bool \<Rightarrow> string list \<Rightarrow> inventory
    \<Rightarrow> (server_error, server \<times> server_status) result \<times> inventory" where
  "BeginActionWithOptions name newStatus packageMutation allowedStatuses z =
     (case status_at z name of
        None \<Rightarrow> (Inl ErrNoRows, z)
      | Some st \<Rightarrow>
          if action_busy st \<or> (packageMutation \<and> BlocksPackageMutation (stStatus st))
          then (Inl (ErrActionInProgress None), z)
          else if allowedStatuses \<noteq> [] \<and> to_lower (trim_space (stStatus st)) \<notin> set allowedStatuses
          then (Inl ErrActionNotAllowed, z)
          else (case FindByNameLocked z name of
             None \<Rightarrow> (Inl ErrNoRows, z)
           | Some s \<Rightarrow>
               if svDisabled s then (Inl ErrDisabled, z)
               else (Inr (s, st), put_status name (begun_status newStatus st) z)))"

definition RestoreAdmittedAction :: "string \<Rightarrow> 64 word \<Rightarrow> server_status \<Rightarrow> inventory \<Rightarrow> inventory" where
  "RestoreAdmittedAction name generation previous z =
     (case status_at z name of
        None \<Rightarrow> z
      | Some current \<Rightarrow>
          if stActionGeneration current \<noteq> generation then z
          else put_status name (previous\<lparr>stActionGeneration := generation\<rparr>) z)"

definition BeginTransientAction ::
  "string \<Rightarrow> string \<Rightarrow> inventory \<Rightarrow> (server_error, server \<times> server_status) result \<times> inventory" where
  "BeginTransientAction name newStatus z =
     (case status_at z name of
        None \<Rightarrow> (Inl ErrNoRows, z)
      | Some st \<Rightarrow>
          if action_busy st then (Inl (ErrActionInProgress None), z)
          else (case FindByNameLocked z name of
             None \<Rightarrow> (Inl ErrNoRows, z)
           | Some s \<Rightarrow>
               if svDisabled s then (Inl ErrDisabled, z)
               else (Inr (s, st), put_status name (st\<lparr>stStatus := newStatus\<rparr>) z)))"

definition RestoreStatusSnapshot :: "string \<Rightarrow> server_status option \<Rightarrow> inventory \<Rightarrow> inventory" where
  "RestoreStatusSnapshot name snapshot z =
     (case snapshot of None \<Rightarrow> delete_status name z | Some st \<Rightarrow> put_status name st z)"

text \<open>The result is \<open>(exists, approved)\<close> or \<open>(exists, cancelled)\<close>.\<close>

definition ApprovePendingUpdateWithOptions ::
  "string \<Rightarrow> string \<Rightarrow> bool \<Rightarrow> inventory \<Rightarrow> (bool \<times> bool) \<times> inventory" where
  "ApprovePendingUpdateWithOptions name scope confirmRemovals z =
     (case status_at z name of
        None \<Rightarrow> ((False, False), z)
      | Some st \<Rightarrow>
          if stStatus st \<noteq> StatusPendingApproval then ((True, False), z)
          else ((True, True), put_status name (st\<lparr>stApprovalScope := NormalizeApprovalScope scope,
                  stApprovalConfirmRemovals := confirmRemovals, stStatus := StatusApproved\<rparr>) z))"

definition cancelled_status :: "server_status \<Rightarrow> server_status" where
  "cancelled_status st = st\<lparr>stStatus := StatusCancelled, stApprovalScope := [], stApprovalConfirmRemovals := False,
     stLogs := [], stUpgradable := [], stPendingUpdates := [], stUpgradePlan := empty_plan\<rparr>"

definition CancelPendingUpdate :: "string \<Rightarrow> inventory \<Rightarrow> (bool \<times> bool) \<times> inventory" where
  "CancelPendingUpdate name z =
     (case status_at z name of
        None \<Rightarrow> ((False, False), z)
      | Some st \<Rightarrow>
          if stStatus st \<noteq> StatusPendingApproval then ((True, False), z)
          else ((True, True), put_status name (cancelled_status st) z))"

definition BindActionJob :: "string \<Rightarrow> string \<Rightarrow> 64 word \<Rightarrow> inventory \<Rightarrow> bool \<times> inventory" where
  "BindActionJob name i generation z =
     (case status_at z name of
        None \<Rightarrow> (False, z)
      | Some st \<Rightarrow>
          if stActionGeneration st \<noteq> generation \<or> (stActionRunning st \<and> stJobID st \<noteq> i) then (False, z)
          else (True, put_status name (st\<lparr>stJobID := i, stJobRevision := -1\<rparr>) z))"

definition BeginActionRunner :: "string \<Rightarrow> string \<Rightarrow> inventory \<Rightarrow> 64 word option \<times> inventory" where
  "BeginActionRunner name i z =
     (case status_at z name of
        None \<Rightarrow> (None, z)
      | Some st \<Rightarrow>
          if stActionRunning st \<or> (stJobID st \<noteq> i \<and> stActionGeneration st \<noteq> 0) then (None, z)
          else (Some (stActionGeneration st),
                put_status name (st\<lparr>stJobRevision := (if stJobID st \<noteq> i then -1 else stJobRevision st), stJobID := i,
                  stActionRunning := True\<rparr>) z))"

definition FinishActionRunner :: "string \<Rightarrow> string \<Rightarrow> 64 word \<Rightarrow> inventory \<Rightarrow> inventory" where
  "FinishActionRunner name i generation z =
     (case status_at z name of
        None \<Rightarrow> z
      | Some st \<Rightarrow>
          if stJobID st = i \<and> stActionGeneration st = generation
          then put_status name (st\<lparr>stActionRunning := False\<rparr>) z else z)"

subsection \<open>The inventory service\<close>

definition NewIdleStatus :: "server \<Rightarrow> server_status" where
  "NewIdleStatus s =
     \<lparr>stRemediationPlanID = [], stRemediationDigest = [], stDisabled = svDisabled s, stActionGeneration = 0,
      stApprovalGeneration = 0, stActionRunning = False, stJobRevision = 0, stName = svName s, stJobID = [],
      stHost = svHost s, stPort = NormalizePort (svPort s), stUser = svUser s, stStatus = StatusIdle,
      stApprovalScope = [], stApprovalConfirmRemovals = False, stLogs = [], stUpgradable = [], stPendingUpdates = [],
      stUpgradePlan = empty_plan, stHasPassword = (svPass s \<noteq> []), stHasKey = (svKey s \<noteq> []), stHostKeyStatus = [],
      stTags = svTags s, stEmptyPackageDiscoveryRefreshAt = []\<rparr>"

definition refresh_status :: "server \<Rightarrow> server_status \<Rightarrow> server_status" where
  "refresh_status s st = st\<lparr>stDisabled := svDisabled s, stHost := svHost s, stPort := NormalizePort (svPort s),
     stUser := svUser s, stHasPassword := (svPass s \<noteq> []), stHasKey := (svKey s \<noteq> []), stTags := svTags s\<rparr>"

text \<open>A missing status is created with the zero values of the remaining fields, as \<^const>\<open>NewIdleStatus\<close> has them.\<close>

definition UpdateStatusFromServer :: "string \<Rightarrow> server \<Rightarrow> inventory \<Rightarrow> inventory" where
  "UpdateStatusFromServer name s z =
     put_status name (refresh_status s (case status_at z name of None \<Rightarrow> NewIdleStatus s | Some st \<Rightarrow> st)) z"

definition SaveOrRollbackLocked ::
  "(string \<Rightarrow> (string, string) result) \<Rightarrow> string option \<Rightarrow> inventory \<Rightarrow> inventory
    \<Rightarrow> (server_error, unit) result \<times> inventory" where
  "SaveOrRollbackLocked enc fault previous z =
     (case SQLiteRepository_Save enc fault (zServers z) of
        Inl e \<Rightarrow> (Inl (ErrSave e), z\<lparr>zServers := zServers previous, zStatus := zStatus previous\<rparr>)
      | Inr rows \<Rightarrow> (Inr (), z\<lparr>zRows := rows\<rparr>))"

definition trimmed_server :: "server \<Rightarrow> server" where
  "trimmed_server s = s\<lparr>svName := trim_space (svName s), svHost := trim_space (svHost s), svUser := trim_space (svUser s)\<rparr>"

definition Create ::
  "(string \<Rightarrow> string) \<Rightarrow> (string \<Rightarrow> (string \<times> bool) option) \<Rightarrow> (string \<Rightarrow> (string, string) result) \<Rightarrow> string option
    \<Rightarrow> server \<Rightarrow> inventory \<Rightarrow> (server_error, server) result \<times> inventory" where
  "Create lower addr enc fault input z =
     (let s0 = trimmed_server input;
          s = s0\<lparr>svPort := NormalizePort (svPort s0), svTags := ParseTags (JoinTags (svTags s0))\<rparr> in
      if svName s0 = [] \<or> svHost s0 = [] \<or> svUser s0 = [] then (Inl ErrRequiredFields, z)
      else if \<not> IsValidSSHUsername (svUser s0) then (Inl ErrInvalidSSHUsername, z)
      else if ServerNameExists lower (zServers z) (svName s) None then (Inl ErrNameExists, z)
      else if ServerEndpointExists lower addr (zServers z) (svHost s) (svPort s) None
      then (Inl (case NormalizeServerEndpoint lower addr (svHost s) (svPort s) of (h, p) \<Rightarrow> ErrEndpointExists h p), z)
      else let z1 = put_status (svName s) (NewIdleStatus s) (z\<lparr>zServers := zServers z @ [s]\<rparr>) in
        (case SaveOrRollbackLocked enc fault z z1 of
           (Inl e, z2) \<Rightarrow> (Inl e, z2) | (Inr _, z2) \<Rightarrow> (Inr s, z2)))"

fun server_index :: "string \<Rightarrow> server list \<Rightarrow> nat option" where
  "server_index name [] = None"
| "server_index name (s # ss) = (if svName s = name then Some 0 else map_option Suc (server_index name ss))"

text \<open>The fields of an update that are left empty keep their stored values; \<open>tagsNil\<close> tells whether
  the request has no tag list at all.\<close>

definition merged_server ::
  "(string \<Rightarrow> string) \<Rightarrow> (string \<Rightarrow> (string \<times> bool) option) \<Rightarrow> bool \<Rightarrow> server \<Rightarrow> server \<Rightarrow> server" where
  "merged_server lower addr tagsNil existing s =
     s\<lparr>svDisabled := svDisabled existing,
       svPass := (if trim_space (svPass s) = [] then svPass existing else svPass s),
       svKey := (if trim_space (svKey s) = [] then svKey existing else svKey s),
       svHost := (if NormalizeServerHost lower addr (svHost s) = NormalizeServerHost lower addr (svHost existing)
                  then svHost existing else svHost s),
       svPort := NormalizePort (if svPort s = 0 then svPort existing else svPort s),
       svTags := ParseTags (JoinTags (if tagsNil then svTags existing else svTags s))\<rparr>"

definition renamed_status :: "string \<Rightarrow> server \<Rightarrow> inventory \<Rightarrow> inventory" where
  "renamed_status name s z =
     (let z1 = delete_status name z in
      case status_at z name of
        Some st \<Rightarrow>
          if equal_fold_ascii (trim_space (stStatus st)) StatusNeedsReconciliation
          then UpdateStatusFromServer (svName s) s (put_status (svName s) (st\<lparr>stName := svName s\<rparr>) z1)
          else put_status (svName s) (NewIdleStatus s) z1
      | None \<Rightarrow> put_status (svName s) (NewIdleStatus s) z1)"

definition moved_status :: "server_status option \<Rightarrow> server \<Rightarrow> server_status" where
  "moved_status previous s =
     (case previous of
        None \<Rightarrow> NewIdleStatus s
      | Some p \<Rightarrow>
          let r = (NewIdleStatus s)\<lparr>stActionGeneration := stActionGeneration p + 1\<rparr> in
          if stStatus p = StatusNeedsReconciliation then r\<lparr>stStatus := stStatus p, stLogs := stLogs p\<rparr> else r)"

definition Update ::
  "(string \<Rightarrow> string) \<Rightarrow> (string \<Rightarrow> (string \<times> bool) option) \<Rightarrow> (string \<Rightarrow> (string, string) result) \<Rightarrow> string option
    \<Rightarrow> string \<Rightarrow> bool \<Rightarrow> server \<Rightarrow> inventory \<Rightarrow> (server_error, server) result \<times> inventory" where
  "Update lower addr enc fault name tagsNil input z =
     (let s0 = trimmed_server input in
      if svName s0 = [] \<or> svHost s0 = [] \<or> svUser s0 = [] then (Inl ErrRequiredFields, z)
      else if \<not> IsValidSSHUsername (svUser s0) then (Inl ErrInvalidSSHUsername, z)
      else case server_index name (zServers z) of
        None \<Rightarrow> (Inl ErrServerNotFound, z)
      | Some i \<Rightarrow>
          let existing = zServers z ! i; s = merged_server lower addr tagsNil existing s0 in
          if fst (ActionStatusInProgressLocked z name)
          then (Inl (ErrActionInProgress (Some (snd (ActionStatusInProgressLocked z name)))), z)
          else if ServerNameExists lower (zServers z) (svName s) (Some i) then (Inl ErrNameExists, z)
          else if ServerEndpointExists lower addr (zServers z) (svHost s) (svPort s) (Some i)
          then (Inl (case NormalizeServerEndpoint lower addr (svHost s) (svPort s) of (h, p) \<Rightarrow> ErrEndpointExists h p), z)
          else
            let z1 = z\<lparr>zServers := (zServers z)[i := s]\<rparr>;
                z2 = (if svName s \<noteq> name then renamed_status name s z1 else UpdateStatusFromServer name s z1);
                z3 = (if NormalizeServerEndpoint lower addr (svHost existing) (svPort existing)
                           \<noteq> NormalizeServerEndpoint lower addr (svHost s) (svPort s)
                      then put_status (svName s) (moved_status (status_at z name) s) z2 else z2)
            in (case SaveOrRollbackLocked enc fault z z3 of
                  (Inl e, z4) \<Rightarrow> (Inl e, z4) | (Inr _, z4) \<Rightarrow> (Inr s, z4)))"

definition Delete ::
  "(string \<Rightarrow> (string, string) result) \<Rightarrow> string option \<Rightarrow> string \<Rightarrow> inventory
    \<Rightarrow> (server_error, unit) result \<times> inventory" where
  "Delete enc fault name z =
     (case server_index name (zServers z) of
        None \<Rightarrow> (Inl ErrServerNotFound, z)
      | Some i \<Rightarrow>
          (case status_at z name of
             Some st \<Rightarrow>
               if action_busy st \<or> equal_fold_ascii (trim_space (stStatus st)) StatusNeedsReconciliation
               then (Inl (ErrActionInProgress (Some (stStatus st))), z)
               else SaveOrRollbackLocked enc fault z
                      (delete_status name (z\<lparr>zServers := take i (zServers z) @ drop (Suc i) (zServers z)\<rparr>))
           | None \<Rightarrow> SaveOrRollbackLocked enc fault z
                      (delete_status name (z\<lparr>zServers := take i (zServers z) @ drop (Suc i) (zServers z)\<rparr>))))"

definition ClearPassword ::
  "(string \<Rightarrow> (string, string) result) \<Rightarrow> string option \<Rightarrow> string \<Rightarrow> inventory
    \<Rightarrow> (server_error, unit) result \<times> inventory" where
  "ClearPassword enc fault name z =
     (case server_index name (zServers z) of
        None \<Rightarrow> (Inl ErrServerNotFound, z)
      | Some i \<Rightarrow>
          if fst (ActionStatusInProgressLocked z name)
          then (Inl (ErrActionInProgress (Some (snd (ActionStatusInProgressLocked z name)))), z)
          else (case SaveOrRollbackLocked enc fault z
                       (z\<lparr>zServers := (zServers z)[i := (zServers z ! i)\<lparr>svPass := []\<rparr>]\<rparr>) of
             (Inl e, z') \<Rightarrow> (Inl e, z')
           | (Inr _, z') \<Rightarrow>
               (Inr (), case status_at z' name of None \<Rightarrow> z'
                        | Some st \<Rightarrow> put_status name (st\<lparr>stHasPassword := False\<rparr>) z')))"

definition SetKey ::
  "(string \<Rightarrow> (string, string) result) \<Rightarrow> string option \<Rightarrow> string \<Rightarrow> string \<Rightarrow> inventory
    \<Rightarrow> (server_error, unit) result \<times> inventory" where
  "SetKey enc fault name key z =
     (case server_index name (zServers z) of
        None \<Rightarrow> (Inl ErrServerNotFound, z)
      | Some i \<Rightarrow>
          if fst (ActionStatusInProgressLocked z name)
          then (Inl (ErrActionInProgress (Some (snd (ActionStatusInProgressLocked z name)))), z)
          else (case SQLiteRepository_UpdateServerKey enc fault name key (zRows z) of
             Inl e \<Rightarrow> (Inl (ErrSave e), z)
           | Inr rows \<Rightarrow>
               let z' = z\<lparr>zRows := rows, zServers := (zServers z)[i := (zServers z ! i)\<lparr>svKey := key\<rparr>]\<rparr> in
               (Inr (), case status_at z' name of None \<Rightarrow> z'
                        | Some st \<Rightarrow> put_status name (st\<lparr>stHasKey := (key \<noteq> [])\<rparr>) z')))"

definition SetDisabled ::
  "(string \<Rightarrow> (string, string) result) \<Rightarrow> string option \<Rightarrow> string \<Rightarrow> bool \<Rightarrow> inventory
    \<Rightarrow> (server_error, server) result \<times> inventory" where
  "SetDisabled enc fault name disabled z =
     (case server_index name (zServers z) of
        None \<Rightarrow> (Inl ErrServerNotFound, z)
      | Some i \<Rightarrow>
          let s = zServers z ! i in
          if svDisabled s = disabled then (Inr s, z)
          else if fst (ActionStatusInProgressLocked z name)
          then (Inl (ErrActionInProgress (Some (snd (ActionStatusInProgressLocked z name)))), z)
          else let s' = s\<lparr>svDisabled := disabled\<rparr>;
                   z1 = UpdateStatusFromServer name s' (z\<lparr>zServers := (zServers z)[i := s']\<rparr>)
               in (case SaveOrRollbackLocked enc fault z z1 of
                     (Inl e, z2) \<Rightarrow> (Inl e, z2) | (Inr _, z2) \<Rightarrow> (Inr s', z2)))"

subsection \<open>Lemmas on the state\<close>

lemma status_at_put [simp]:
  "status_at (put_status name st z) n = (if n = name then Some st else status_at z n)"
  by (simp add: status_at_def put_status_def update_conv')

lemma status_at_delete [simp]:
  "status_at (delete_status name z) n = (if n = name then None else status_at z n)"
  by (simp add: status_at_def delete_status_def delete_conv')

lemma inventory_put [simp]:
  "zServers (put_status name st z) = zServers z" "zRows (put_status name st z) = zRows z"
  "zServers (delete_status name z) = zServers z" "zRows (delete_status name z) = zRows z"
  by (simp_all add: put_status_def delete_status_def)

lemma status_at_servers [simp]:
  "status_at (z\<lparr>zServers := ss\<rparr>) n = status_at z n" "status_at (z\<lparr>zRows := rs\<rparr>) n = status_at z n"
  by (simp_all add: status_at_def)

lemma put_status_servers:
  "put_status name st (z\<lparr>zServers := ss\<rparr>) = (put_status name st z)\<lparr>zServers := ss\<rparr>"
  "delete_status name (z\<lparr>zServers := ss\<rparr>) = (delete_status name z)\<lparr>zServers := ss\<rparr>"
  by (simp_all add: put_status_def delete_status_def)

definition status_names :: "inventory \<Rightarrow> string set" where
  "status_names z = fst ` set (zStatus z)"

lemma status_names_iff: "n \<in> status_names z \<longleftrightarrow> status_at z n \<noteq> None"
  by (simp add: status_names_def status_at_def map_of_eq_None_iff)

lemma status_names_put [simp]: "status_names (put_status name st z) = insert name (status_names z)"
  by (auto simp: status_names_iff split: if_splits)

lemma status_names_delete [simp]: "status_names (delete_status name z) = status_names z - {name}"
  by (auto simp: status_names_iff split: if_splits)

lemma status_names_servers [simp]:
  "status_names (z\<lparr>zServers := ss\<rparr>) = status_names z" "status_names (z\<lparr>zRows := rs\<rparr>) = status_names z"
  by (simp_all add: status_names_def)

lemma rolled_back: "zRows z1 = zRows (z :: inventory) \<Longrightarrow> z1\<lparr>zServers := zServers z, zStatus := zStatus z\<rparr> = z"
  by (rule inventory.equality) simp_all

lemma save_fault:
  "zRows z1 = zRows z \<Longrightarrow> SaveOrRollbackLocked enc (Some e) z z1 = (Inl (ErrSave e), z)"
  by (simp add: SaveOrRollbackLocked_def SQLiteRepository_Save_def rolled_back)

lemma save_cases:
  assumes "zRows z1 = zRows z"
  obtains e where "SaveOrRollbackLocked enc fault z z1 = (Inl e, z)"
  | rows where "insert_rows enc (zServers z1) [] = Inr rows"
      "SaveOrRollbackLocked enc fault z z1 = (Inr (), z1\<lparr>zRows := rows\<rparr>)"
proof (cases "SQLiteRepository_Save enc fault (zServers z1)")
  case (Inl e)
  then show ?thesis using that(1) [of "ErrSave e"] assms by (simp add: SaveOrRollbackLocked_def rolled_back)
next
  case (Inr rows)
  then show ?thesis using that(2) [of rows]
    by (simp add: SaveOrRollbackLocked_def SQLiteRepository_Save_def split: option.splits)
qed

lemma inventory_rows_edit [simp]:
  "zRows (UpdateStatusFromServer name s z) = zRows z" "zServers (UpdateStatusFromServer name s z) = zServers z"
  "zRows (renamed_status name s z) = zRows z" "zServers (renamed_status name s z) = zServers z"
  by (simp_all add: UpdateStatusFromServer_def renamed_status_def Let_def split: option.splits)

subsection \<open>Who owns an action\<close>

text \<open>
  A run of the operations on the shared state that changes no inventory entry, with the number of
  successful admissions of one server. A transient action (a probe or a refresh) ends by restoring
  the snapshot taken when it began; no action is admitted in between, so the snapshot has the
  current generation.
\<close>

inductive action_run :: "string \<Rightarrow> inventory \<Rightarrow> nat \<Rightarrow> inventory \<Rightarrow> bool" for name where
  run_refl: "action_run name z 0 z"
| run_admit: "action_run name z k z1 \<Longrightarrow> BeginActionWithOptions name st mut al z1 = (Inr r, z2)
    \<Longrightarrow> action_run name z (Suc k) z2"
| run_refused: "action_run name z k z1 \<Longrightarrow> BeginActionWithOptions name st mut al z1 = (Inl e, z2)
    \<Longrightarrow> action_run name z k z2"
| run_other: "action_run name z k z1 \<Longrightarrow> n \<noteq> name \<Longrightarrow> action_run name z k (snd (BeginActionWithOptions n st mut al z1))"
| run_restore: "action_run name z k z1 \<Longrightarrow> action_run name z k (RestoreAdmittedAction n g p z1)"
| run_transient: "action_run name z k z1 \<Longrightarrow> action_run name z k (snd (BeginTransientAction n st z1))"
| run_transient_end: "action_run name z k z1 \<Longrightarrow> status_at z1 n = Some cur
    \<Longrightarrow> stActionGeneration snap = stActionGeneration cur \<Longrightarrow> action_run name z k (RestoreStatusSnapshot n (Some snap) z1)"
| run_approve: "action_run name z k z1 \<Longrightarrow> action_run name z k (snd (ApprovePendingUpdateWithOptions n scope c z1))"
| run_cancel: "action_run name z k z1 \<Longrightarrow> action_run name z k (snd (CancelPendingUpdate n z1))"
| run_bind: "action_run name z k z1 \<Longrightarrow> action_run name z k (snd (BindActionJob n i g z1))"
| run_runner: "action_run name z k z1 \<Longrightarrow> action_run name z k (snd (BeginActionRunner n i z1))"
| run_finish: "action_run name z k z1 \<Longrightarrow> action_run name z k (FinishActionRunner n i g z1)"

definition generation_at :: "inventory \<Rightarrow> string \<Rightarrow> 64 word option" where
  "generation_at z name = map_option stActionGeneration (status_at z name)"

lemma generation_put [simp]:
  "generation_at (put_status n st z) name = (if name = n then Some (stActionGeneration st) else generation_at z name)"
  by (simp add: generation_at_def)

lemma generation_begin:
  "BeginActionWithOptions n st mut al z = (Inr r, z2) \<Longrightarrow>
     generation_at z2 name = (if name = n then map_option (\<lambda>g. g + 1) (generation_at z name) else generation_at z name)"
  "BeginActionWithOptions n st mut al z = (Inl e, z2) \<Longrightarrow> z2 = z"
  "n \<noteq> name \<Longrightarrow> generation_at (snd (BeginActionWithOptions n st mut al z)) name = generation_at z name"
  by (auto simp: BeginActionWithOptions_def begun_status_def generation_at_def split: option.splits if_splits)

lemma generation_kept:
  "generation_at (RestoreAdmittedAction n g p z) name = generation_at z name"
  "generation_at (snd (BeginTransientAction n st z)) name = generation_at z name"
  "generation_at (snd (ApprovePendingUpdateWithOptions n scope c z)) name = generation_at z name"
  "generation_at (snd (CancelPendingUpdate n z)) name = generation_at z name"
  "generation_at (snd (BindActionJob n i g z)) name = generation_at z name"
  "generation_at (snd (BeginActionRunner n i z)) name = generation_at z name"
  "generation_at (FinishActionRunner n i g z) name = generation_at z name"
  "status_at z n = Some cur \<Longrightarrow> stActionGeneration snap = stActionGeneration cur
    \<Longrightarrow> generation_at (RestoreStatusSnapshot n (Some snap) z) name = generation_at z name"
  by (auto simp: RestoreAdmittedAction_def BeginTransientAction_def ApprovePendingUpdateWithOptions_def
      CancelPendingUpdate_def cancelled_status_def BindActionJob_def BeginActionRunner_def FinishActionRunner_def
      RestoreStatusSnapshot_def generation_at_def split: option.splits)

lemma action_run_generation:
  "action_run name z k z' \<Longrightarrow> generation_at z' name = map_option (\<lambda>g. g + of_nat k) (generation_at z name)"
  by (induction rule: action_run.induct)
    (auto simp: generation_begin generation_kept option.map_comp comp_def add.assoc option.map_ident
      dest!: generation_begin(2), simp_all add: option.map_comp comp_def add.commute add.left_commute)

text \<open>C14: A late caller that still holds the generation of an earlier admission cannot touch a newer
  one: after between 1 and 2^64 - 1 further admissions of the server, its rollback, its attempt to
  attach a job and its end of the runner are all refused and change nothing.\<close>

theorem stale_owner_cannot_interfere:
  assumes "action_run name z k z'" and "status_at z name = Some st" and "0 < k" and "k < 2 ^ 64"
  shows "RestoreAdmittedAction name (stActionGeneration st) p z' = z'
     \<and> BindActionJob name i (stActionGeneration st) z' = (False, z')
     \<and> FinishActionRunner name i (stActionGeneration st) z' = z'"
proof -
  have "(of_nat k :: 64 word) \<noteq> 0"
    using assms(3,4) by (simp add: word_of_nat_eq_0_iff) (meson nat_dvd_not_less)
  moreover have "generation_at z' name = Some (stActionGeneration st + of_nat k)"
    using action_run_generation [OF assms(1)] assms(2) by (simp add: generation_at_def)
  then obtain st' where "status_at z' name = Some st'" "stActionGeneration st' = stActionGeneration st + of_nat k"
    by (auto simp: generation_at_def)
  ultimately show ?thesis
    by (simp add: RestoreAdmittedAction_def BindActionJob_def FinishActionRunner_def)
qed

subsection \<open>Tags\<close>

definition tidy_tags :: "string list \<Rightarrow> bool" where
  "tidy_tags tags \<longleftrightarrow> distinct tags \<and> list_all (\<lambda>t. t \<noteq> [] \<and> trim_space t = t \<and> CHR '','' \<notin> set t) tags"

lemma clean_tags_tidy:
  assumes "tidy_tags acc" and "list_all (\<lambda>t. CHR '','' \<notin> set t) tags"
  shows "tidy_tags (clean_tags tags acc)"
  using assms
proof (induction tags arbitrary: acc)
  case (Cons t tags)
  have "CHR '','' \<notin> set (trim_space t)" using Cons.prems(2) set_trim_space [of t] by auto
  then show ?case using Cons by (auto simp: tidy_tags_def Let_def)
qed simp

lemma clean_tags_id: "tidy_tags (acc @ tags) \<Longrightarrow> clean_tags tags acc = acc @ tags"
proof (induction tags arbitrary: acc)
  case (Cons t tags)
  have "tidy_tags ((acc @ [t]) @ tags)" using Cons.prems by simp
  from Cons.IH [OF this] show ?case using Cons.prems by (simp add: tidy_tags_def Let_def)
qed simp

lemma split_join_tags:
  "list_all (\<lambda>t. CHR '','' \<notin> set t) (t # ts) \<Longrightarrow>
     split_char CHR '','' (join '', '' (t # ts)) = t # map (\<lambda>u. CHR '' '' # u) ts"
proof (induction ts arbitrary: t)
  case Nil
  then show ?case by (simp add: split_char_none)
next
  case (Cons u us)
  have "split_char CHR '','' (t @ CHR '','' # (CHR '' '' # join '', '' (u # us)))
      = t # split_char CHR '','' (CHR '' '' # join '', '' (u # us))"
    using Cons.prems by (intro split_char_append) simp
  then show ?case using Cons.IH [of u] Cons.prems by simp
qed

lemma ParseTags_JoinTags: "tidy_tags tags \<Longrightarrow> ParseTags (JoinTags tags) = tags"
proof (cases tags)
  case Nil
  then show ?thesis by (simp add: JoinTags_def ParseTags_def)
next
  case (Cons t ts)
  assume tidy: "tidy_tags tags"
  have "JoinTags tags = join '', '' (t # ts)"
    using clean_tags_id [of "[]" tags] tidy by (simp add: JoinTags_def Cons)
  moreover have "list_all (\<lambda>t. CHR '','' \<notin> set t) (t # ts)"
    using tidy by (auto simp: tidy_tags_def Cons list_all_iff)
  ultimately have "ParseTags (JoinTags tags) = filter (\<lambda>u. u \<noteq> []) (map trim_space (t # map (\<lambda>u. CHR '' '' # u) ts))"
    unfolding ParseTags_def by (simp only: split_join_tags)
  also have "map trim_space (t # map (\<lambda>u. CHR '' '' # u) ts) = t # ts"
    using tidy by (auto simp: tidy_tags_def Cons list_all_iff trim_space_Cons_space ascii_space_def map_idI)
  finally show ?thesis using tidy by (simp add: Cons tidy_tags_def filter_id_conv list_all_iff)
qed

lemma normalized_tags_tidy:
  assumes "list_all (\<lambda>t. CHR '','' \<notin> set t) tags"
  shows "tidy_tags (ParseTags (JoinTags tags))"
proof -
  have tidy: "tidy_tags (clean_tags tags [])" by (rule clean_tags_tidy) (use assms in \<open>simp_all add: tidy_tags_def\<close>)
  have "JoinTags tags = JoinTags (clean_tags tags [])"
    using clean_tags_id [of "[]" "clean_tags tags []"] tidy by (simp add: JoinTags_def)
  then show ?thesis using ParseTags_JoinTags [OF tidy] tidy by simp
qed

subsection \<open>The invariant of the inventory\<close>

definition row_matches :: "(string \<Rightarrow> (string, string) result) \<Rightarrow> server_row \<Rightarrow> server \<Rightarrow> bool" where
  "row_matches dec r s \<longleftrightarrow> rwName r = svName s \<and> rwHost r = svHost s \<and> rwPort r = svPort s \<and> rwUser r = svUser s
     \<and> dec (rwPassEnc r) = Inr (svPass s) \<and> dec (rwKeyEnc r) = Inr (svKey s) \<and> rwTags r = JoinTags (svTags s)
     \<and> rwDisabled r = svDisabled s"

definition server_ok :: "server \<Rightarrow> bool" where
  "server_ok s \<longleftrightarrow> NormalizePort (svPort s) = svPort s \<and> tidy_tags (svTags s)"

definition servers_ok :: "(string \<Rightarrow> string) \<Rightarrow> (string \<Rightarrow> (string \<times> bool) option) \<Rightarrow> server list \<Rightarrow> bool" where
  "servers_ok lower addr ss \<longleftrightarrow>
     distinct (map (\<lambda>s. NormalizeServerName lower (svName s)) ss)
     \<and> distinct (map (\<lambda>s. NormalizeServerEndpoint lower addr (svHost s) (svPort s)) ss) \<and> list_all server_ok ss"

definition inventory_ok ::
  "(string \<Rightarrow> string) \<Rightarrow> (string \<Rightarrow> (string \<times> bool) option) \<Rightarrow> (string \<Rightarrow> (string, string) result) \<Rightarrow> inventory \<Rightarrow> bool" where
  "inventory_ok lower addr dec z \<longleftrightarrow> servers_ok lower addr (zServers z)
     \<and> status_names z = svName ` set (zServers z) \<and> list_all2 (row_matches dec) (zRows z) (zServers z)"

text \<open>What the encryption promises: decrypting gives the value back.\<close>

definition encrypts :: "(string \<Rightarrow> (string, string) result) \<Rightarrow> (string \<Rightarrow> (string, string) result) \<Rightarrow> bool" where
  "encrypts dec enc \<longleftrightarrow> (\<forall>x y. enc x = Inr y \<longrightarrow> dec y = Inr x)"

lemma NormalizePort_idem [simp]: "NormalizePort (NormalizePort p) = NormalizePort p"
  by (simp add: NormalizePort_def)

lemma insert_rows_matches:
  assumes "insert_rows enc ss rows = Inr rows'" and "encrypts dec enc" and "list_all server_ok ss"
    and "list_all2 (row_matches dec) rows ps"
  shows "list_all2 (row_matches dec) rows' (ps @ ss)"
  using assms(1,3,4)
proof (induction ss arbitrary: rows ps)
  case (Cons s ss)
  from Cons.prems(1) obtain p k where pk: "enc (svPass s) = Inr p" "enc (svKey s) = Inr k"
      "insert_rows enc ss (rows @ [server_row_of p k s]) = Inr rows'"
    by (auto simp: bind_result_Inr_iff split: if_splits)
  have "row_matches dec (server_row_of p k s) s"
    using pk(1,2) assms(2) Cons.prems(2) by (simp add: row_matches_def server_row_of_def encrypts_def server_ok_def)
  then have "list_all2 (row_matches dec) (rows @ [server_row_of p k s]) (ps @ [s])"
    using Cons.prems(3) by (simp add: list_all2_appendI)
  from Cons.IH [OF pk(3) _ this] show ?case using Cons.prems(2) by simp
qed simp

lemma saved_inventory_ok:
  assumes "inventory_ok lower addr dec z" and "encrypts dec enc" and "zRows z1 = zRows z"
    and "servers_ok lower addr (zServers z1)" and "status_names z1 = svName ` set (zServers z1)"
  shows "inventory_ok lower addr dec (snd (SaveOrRollbackLocked enc fault z z1))"
  using assms(3)
proof (cases rule: save_cases [where enc = enc and fault = fault])
  case (2 rows)
  have "list_all2 (row_matches dec) rows ([] @ zServers z1)"
    by (rule insert_rows_matches [OF 2(1) assms(2)]) (use assms(4) in \<open>simp_all add: servers_ok_def\<close>)
  then show ?thesis using 2(2) assms(4,5) by (simp add: inventory_ok_def)
qed (simp add: assms(1))

lemma server_index_Some:
  "server_index name ss = Some i \<Longrightarrow> i < length ss \<and> svName (ss ! i) = name"
  by (induction ss arbitrary: i) (auto split: if_splits)

lemma set_list_update_distinct:
  assumes "i < length xs" and "distinct (map f xs)"
  shows "f ` set (xs[i := y]) = insert (f y) (f ` set xs - {f (xs ! i)})"
proof -
  have "f ` set (xs[i := y]) = set ((map f xs)[i := f y])" by (simp flip: map_update)
  also have "\<dots> = insert (f y) (set (map f xs) - {map f xs ! i})"
    by (rule set_update_distinct) (use assms in simp_all)
  finally show ?thesis using assms(1) by simp
qed

lemma distinct_map_update:
  assumes "distinct (map f xs)" and "i < length xs" and "\<not> list_ex (\<lambda>x. f x = f y) (skip_index (Some i) xs)"
  shows "distinct (map f (xs[i := y]))"
proof -
  let ?as = "map f (take i xs)" and ?bs = "map f (drop (Suc i) xs)"
  have "map f xs = ?as @ f (xs ! i) # ?bs" using id_take_nth_drop [OF assms(2)] by (metis list.simps(9) map_append)
  then have "distinct (?as @ f (xs ! i) # ?bs)" using assms(1) by metis
  moreover have "f y \<notin> set ?as \<union> set ?bs" using assms(3) by (auto simp: skip_index_def list_ex_iff)
  ultimately have "distinct (?as @ f y # ?bs)" by (simp only: distinct_append distinct.simps set_simps) blast
  then show ?thesis by (simp only: upd_conv_take_nth_drop [OF assms(2)] map_append list.simps)
qed

lemma snd_save_case [simp]:
  "snd (case p of (Inl e, z) \<Rightarrow> (Inl e, z) | (Inr u, z) \<Rightarrow> (Inr s, z)) = snd p"
  by (cases p) (auto split: sum.split)

lemma snd_case_pair: "snd (case c of (h, p) \<Rightarrow> (f h p, z)) = z"
  by (cases c) simp

lemma normalized_names_inj:
  "servers_ok lower addr ss \<Longrightarrow> distinct (map svName ss)"
  by (auto simp: servers_ok_def distinct_map inj_on_def)

lemma Create_ok:
  assumes "inventory_ok lower addr dec z" and "encrypts dec enc"
    and "list_all (\<lambda>t. CHR '','' \<notin> set t) (svTags input)"
  shows "inventory_ok lower addr dec (snd (Create lower addr enc fault input z))"
proof -
  let ?s0 = "trimmed_server input"
  let ?s = "?s0\<lparr>svPort := NormalizePort (svPort ?s0), svTags := ParseTags (JoinTags (svTags ?s0))\<rparr>"
  let ?z1 = "put_status (svName ?s) (NewIdleStatus ?s) (z\<lparr>zServers := zServers z @ [?s]\<rparr>)"
  have ok: "server_ok ?s" using normalized_tags_tidy [OF assms(3)] by (simp add: server_ok_def trimmed_server_def)
  show ?thesis
  proof (cases "ServerNameExists lower (zServers z) (svName ?s) None
      \<or> ServerEndpointExists lower addr (zServers z) (svHost ?s) (svPort ?s) None")
    case True
    then show ?thesis using assms(1) by (auto simp: Create_def Let_def simp del: server.simps)
  next
    case False
    have "inventory_ok lower addr dec (snd (SaveOrRollbackLocked enc fault z ?z1))"
    proof (rule saved_inventory_ok [OF assms(1,2)])
      show "servers_ok lower addr (zServers ?z1)"
        using assms(1) False ok
        by (auto simp: inventory_ok_def servers_ok_def ServerNameExists_def ServerEndpointExists_def skip_index_def
            list_ex_iff simp del: server.simps)
      show "status_names ?z1 = svName ` set (zServers ?z1)" using assms(1) by (simp add: inventory_ok_def)
    qed simp
    then show ?thesis using assms(1) by (simp add: Create_def Let_def del: server.simps)
  qed
qed

lemma edit_status_names:
  assumes "status_names z = svName ` set (zServers z)" and "distinct (map svName (zServers z))"
    and "server_index name (zServers z) = Some i"
  shows "name \<noteq> svName s \<Longrightarrow> status_names (renamed_status name s (z\<lparr>zServers := (zServers z)[i := s]\<rparr>))
      = svName ` set ((zServers z)[i := s])"
    and "name = svName s \<Longrightarrow> status_names (UpdateStatusFromServer name s (z\<lparr>zServers := (zServers z)[i := s]\<rparr>))
      = svName ` set ((zServers z)[i := s])"
proof -
  note i = server_index_Some [OF assms(3)]
  have set: "svName ` set ((zServers z)[i := s]) = insert (svName s) (svName ` set (zServers z) - {name})"
    using set_list_update_distinct [OF _ assms(2), of i s] i by simp
  show "name \<noteq> svName s \<Longrightarrow> status_names (renamed_status name s (z\<lparr>zServers := (zServers z)[i := s]\<rparr>))
      = svName ` set ((zServers z)[i := s])"
    unfolding set using assms(1) i
    by (auto simp: renamed_status_def Let_def UpdateStatusFromServer_def split: option.splits)
  have "name \<in> svName ` set (zServers z)" using i nth_mem by (metis image_eqI)
  then show "name = svName s \<Longrightarrow> status_names (UpdateStatusFromServer name s (z\<lparr>zServers := (zServers z)[i := s]\<rparr>))
      = svName ` set ((zServers z)[i := s])"
    unfolding set using assms(1) by (auto simp: UpdateStatusFromServer_def)
qed

lemma servers_ok_update:
  assumes "servers_ok lower addr ss" and "i < length ss" and "server_ok s"
    and "\<not> ServerNameExists lower ss (svName s) (Some i)"
    and "\<not> ServerEndpointExists lower addr ss (svHost s) (svPort s) (Some i)"
  shows "servers_ok lower addr (ss[i := s])"
  unfolding servers_ok_def
proof (intro conjI)
  show "distinct (map (\<lambda>s. NormalizeServerName lower (svName s)) (ss[i := s]))"
    by (rule distinct_map_update) (use assms in \<open>simp_all add: servers_ok_def ServerNameExists_def\<close>)
  show "distinct (map (\<lambda>s. NormalizeServerEndpoint lower addr (svHost s) (svPort s)) (ss[i := s]))"
    by (rule distinct_map_update) (use assms in \<open>simp_all add: servers_ok_def ServerEndpointExists_def\<close>)
  show "list_all server_ok (ss[i := s])"
    using assms(1,3) by (auto simp: servers_ok_def list_all_iff dest: set_update_subset_insert [THEN subsetD])
qed

text \<open>An edit that changes neither the name nor the endpoint of a server.\<close>

lemma servers_ok_replace:
  assumes "servers_ok lower addr ss" and "i < length ss" and "server_ok s"
    and "svName s = svName (ss ! i)" "svHost s = svHost (ss ! i)" "svPort s = svPort (ss ! i)"
  shows "servers_ok lower addr (ss[i := s])"
proof -
  have "map f (ss[i := s]) = map f ss" if "f s = f (ss ! i)" for f :: "server \<Rightarrow> 'b"
    using that assms(2) by (simp add: map_update list_update_same_conv)
  from this [of "\<lambda>s. NormalizeServerName lower (svName s)"]
    this [of "\<lambda>s. NormalizeServerEndpoint lower addr (svHost s) (svPort s)"]
  show ?thesis using assms
    by (auto simp: servers_ok_def list_all_iff dest: set_update_subset_insert [THEN subsetD])
qed

lemma merged_server_ok:
  assumes "server_ok existing" and "tagsNil \<or> list_all (\<lambda>t. CHR '','' \<notin> set t) (svTags input)"
  shows "server_ok (merged_server lower addr tagsNil existing input)"
proof -
  have "list_all (\<lambda>t. CHR '','' \<notin> set t) (svTags existing)"
    using assms(1) by (auto simp: server_ok_def tidy_tags_def list_all_iff)
  then show ?thesis using assms(2) by (auto simp: server_ok_def merged_server_def intro!: normalized_tags_tidy)
qed

lemma Update_ok:
  assumes "inventory_ok lower addr dec z" and "encrypts dec enc"
    and "tagsNil \<or> list_all (\<lambda>t. CHR '','' \<notin> set t) (svTags input)"
  shows "inventory_ok lower addr dec (snd (Update lower addr enc fault name tagsNil input z))"
proof (cases "server_index name (zServers z)")
  case None
  then show ?thesis using assms(1) by (simp add: Update_def Let_def)
next
  case (Some i)
  let ?e = "zServers z ! i"
  let ?s = "merged_server lower addr tagsNil ?e (trimmed_server input)"
  let ?z1 = "z\<lparr>zServers := (zServers z)[i := ?s]\<rparr>"
  let ?z2 = "if svName ?s \<noteq> name then renamed_status name ?s ?z1 else UpdateStatusFromServer name ?s ?z1"
  let ?z3 = "if NormalizeServerEndpoint lower addr (svHost ?e) (svPort ?e) \<noteq> NormalizeServerEndpoint lower addr (svHost ?s) (svPort ?s)
             then put_status (svName ?s) (moved_status (status_at z name) ?s) ?z2 else ?z2"
  note i = server_index_Some [OF Some]
  note inv = assms(1) [unfolded inventory_ok_def]
  have e: "server_ok ?e" using inv i by (auto simp: servers_ok_def list_all_iff)
  have "tagsNil \<or> list_all (\<lambda>t. CHR '','' \<notin> set t) (svTags (trimmed_server input))"
    using assms(3) by (simp add: trimmed_server_def)
  then have s: "server_ok ?s" by (rule merged_server_ok [OF e])
  show ?thesis
  proof (cases "ServerNameExists lower (zServers z) (svName ?s) (Some i)
      \<or> ServerEndpointExists lower addr (zServers z) (svHost ?s) (svPort ?s) (Some i)")
    case True
    then show ?thesis using assms(1) Some by (auto simp: Update_def Let_def)
  next
    case False
    have names: "status_names ?z2 = svName ` set ((zServers z)[i := ?s])"
      using edit_status_names [OF _ normalized_names_inj Some] inv by (cases "svName ?s = name") auto
    have "svName ?s \<in> svName ` set ((zServers z)[i := ?s])" using i by (simp add: set_update_memI)
    then have names3: "status_names ?z3 = svName ` set ((zServers z)[i := ?s])" using names by auto
    have zs: "zServers ?z3 = (zServers z)[i := ?s]" "zRows ?z3 = zRows z" by simp_all
    have "inventory_ok lower addr dec (snd (SaveOrRollbackLocked enc fault z ?z3))"
    proof (rule saved_inventory_ok [OF assms(1,2) zs(2)])
      show "servers_ok lower addr (zServers ?z3)"
        unfolding zs using inv i s False by (intro servers_ok_update) auto
      show "status_names ?z3 = svName ` set (zServers ?z3)" unfolding zs names3 ..
    qed
    then show ?thesis using assms(1) Some unfolding Update_def Let_def by (simp split: prod.split)
  qed
qed

lemma remove_nth:
  assumes "distinct (map f xs)" and "i < length xs"
  shows "distinct (map f (take i xs @ drop (Suc i) xs))"
    and "f ` set (take i xs @ drop (Suc i) xs) = f ` set xs - {f (xs ! i)}"
proof -
  obtain as b bs where xs: "xs = as @ b # bs" "take i xs = as" "drop (Suc i) xs = bs" "xs ! i = b"
    using id_take_nth_drop [OF assms(2)] by metis
  have d: "distinct (map f as @ f b # map f bs)" using assms(1) by (simp add: xs(1))
  then show "distinct (map f (take i xs @ drop (Suc i) xs))" unfolding xs(2,3) by simp
  have "f b \<notin> f ` set as \<union> f ` set bs" using d by simp
  moreover have "f ` set xs = insert (f b) (f ` set as \<union> f ` set bs)" by (simp add: xs(1) image_Un)
  ultimately show "f ` set (take i xs @ drop (Suc i) xs) = f ` set xs - {f (xs ! i)}"
    unfolding xs(2,3,4) by (simp add: image_Un)
qed

lemma Delete_ok:
  assumes "inventory_ok lower addr dec z" and "encrypts dec enc"
  shows "inventory_ok lower addr dec (snd (Delete enc fault name z))"
proof (cases "server_index name (zServers z)")
  case None
  then show ?thesis using assms(1) by (simp add: Delete_def)
next
  case (Some i)
  let ?ss = "take i (zServers z) @ drop (Suc i) (zServers z)"
  let ?z1 = "delete_status name (z\<lparr>zServers := ?ss\<rparr>)"
  note i = server_index_Some [OF Some]
  note inv = assms(1) [unfolded inventory_ok_def]
  have "set ?ss \<subseteq> set (zServers z)" by (auto dest: in_set_takeD in_set_dropD)
  then have ok: "servers_ok lower addr ?ss"
    unfolding servers_ok_def list_all_iff
    by (intro conjI remove_nth(1)) (use inv i in \<open>auto simp only: servers_ok_def list_all_iff\<close>)
  have "svName ` set ?ss = svName ` set (zServers z) - {name}"
    using remove_nth(2) [OF normalized_names_inj, of lower addr "zServers z" i] inv i by simp
  then have "status_names ?z1 = svName ` set (zServers ?z1)" using inv by simp
  then have "inventory_ok lower addr dec (snd (SaveOrRollbackLocked enc fault z ?z1))"
    using ok by (intro saved_inventory_ok [OF assms]) simp_all
  then show ?thesis using assms(1) Some by (simp add: Delete_def split: option.split)
qed

lemma status_touch_ok:
  assumes "inventory_ok lower addr dec z" and "status_at z name \<noteq> None"
  shows "inventory_ok lower addr dec (put_status name st z)"
proof -
  have "insert name (status_names z) = status_names z" by (rule insert_absorb) (use assms(2) status_names_iff in blast)
  then show ?thesis using assms(1) by (simp add: inventory_ok_def)
qed

lemma status_fix_ok:
  assumes "inventory_ok lower addr dec z"
  shows "inventory_ok lower addr dec (case status_at z name of None \<Rightarrow> z | Some st \<Rightarrow> put_status name (f st) z)"
  using assms status_touch_ok [OF assms] by (simp split: option.split)

lemma replaced_ok:
  assumes "inventory_ok lower addr dec z" and "server_index name (zServers z) = Some i" and "server_ok s"
    and "svName s = name" "svHost s = svHost (zServers z ! i)" "svPort s = svPort (zServers z ! i)"
  shows "servers_ok lower addr ((zServers z)[i := s])" "svName ` set ((zServers z)[i := s]) = svName ` set (zServers z)"
proof -
  note i = server_index_Some [OF assms(2)]
  have inv: "servers_ok lower addr (zServers z)" using assms(1) by (simp add: inventory_ok_def)
  show "servers_ok lower addr ((zServers z)[i := s])"
    by (rule servers_ok_replace [OF inv]) (use i assms(3-6) in simp_all)
  have "map svName ((zServers z)[i := s]) = map svName (zServers z)"
    using i assms(4) by (simp add: map_update list_update_same_conv)
  then show "svName ` set ((zServers z)[i := s]) = svName ` set (zServers z)" by (metis list.set_map)
qed

lemma indexed_server_ok: "inventory_ok lower addr dec z \<Longrightarrow> server_index name (zServers z) = Some i \<Longrightarrow> server_ok (zServers z ! i)"
  by (auto simp: inventory_ok_def servers_ok_def list_all_iff dest!: server_index_Some)

lemma ClearPassword_ok:
  assumes "inventory_ok lower addr dec z" and "encrypts dec enc"
  shows "inventory_ok lower addr dec (snd (ClearPassword enc fault name z))"
proof (cases "server_index name (zServers z)")
  case None
  then show ?thesis using assms(1) by (simp add: ClearPassword_def)
next
  case (Some i)
  let ?s = "(zServers z ! i)\<lparr>svPass := []\<rparr>" and ?z1 = "z\<lparr>zServers := (zServers z)[i := (zServers z ! i)\<lparr>svPass := []\<rparr>]\<rparr>"
  have ok: "server_ok ?s" using indexed_server_ok [OF assms(1) Some] by (simp add: server_ok_def)
  note r = replaced_ok [OF assms(1) Some ok]
  have "inventory_ok lower addr dec (snd (SaveOrRollbackLocked enc fault z ?z1))"
    by (rule saved_inventory_ok [OF assms])
      (use r server_index_Some [OF Some] assms(1) in \<open>simp_all add: inventory_ok_def\<close>)
  then show ?thesis using assms(1) Some
    by (auto simp: ClearPassword_def intro: status_fix_ok split: prod.split sum.split)
qed

lemma SetDisabled_ok:
  assumes "inventory_ok lower addr dec z" and "encrypts dec enc"
  shows "inventory_ok lower addr dec (snd (SetDisabled enc fault name disabled z))"
proof (cases "server_index name (zServers z)")
  case None
  then show ?thesis using assms(1) by (simp add: SetDisabled_def)
next
  case (Some i)
  let ?s = "(zServers z ! i)\<lparr>svDisabled := disabled\<rparr>"
  let ?z1 = "UpdateStatusFromServer name ?s (z\<lparr>zServers := (zServers z)[i := ?s]\<rparr>)"
  have ok: "server_ok ?s" using indexed_server_ok [OF assms(1) Some] by (simp add: server_ok_def)
  note r = replaced_ok [OF assms(1) Some ok]
  note i = server_index_Some [OF Some]
  have "name \<in> svName ` set (zServers z)" using i nth_mem by (metis image_eqI)
  then have "status_names ?z1 = svName ` set (zServers ?z1)"
    using r i assms(1) by (auto simp: inventory_ok_def UpdateStatusFromServer_def)
  then have "inventory_ok lower addr dec (snd (SaveOrRollbackLocked enc fault z ?z1))"
    using r i by (intro saved_inventory_ok [OF assms]) simp_all
  then show ?thesis using assms(1) Some by (simp add: SetDisabled_def Let_def)
qed

lemma key_rows_match:
  assumes "list_all2 (row_matches dec) rows ss" and "distinct (map svName ss)" and "i < length ss"
    and "dec k = Inr key"
  shows "list_all2 (row_matches dec) (map (\<lambda>r. if rwName r = svName (ss ! i) then r\<lparr>rwKeyEnc := k\<rparr> else r) rows)
    (ss[i := (ss ! i)\<lparr>svKey := key\<rparr>])"
proof (rule list_all2_all_nthI)
  note len = list_all2_lengthD [OF assms(1)]
  show "length (map (\<lambda>r. if rwName r = svName (ss ! i) then r\<lparr>rwKeyEnc := k\<rparr> else r) rows)
      = length (ss[i := (ss ! i)\<lparr>svKey := key\<rparr>])" using len by simp
  fix n assume n: "n < length (map (\<lambda>r. if rwName r = svName (ss ! i) then r\<lparr>rwKeyEnc := k\<rparr> else r) rows)"
  then have m: "row_matches dec (rows ! n) (ss ! n)" "n < length ss"
    using assms(1) len by (simp_all add: list_all2_conv_all_nth)
  have "svName (ss ! n) = svName (ss ! i) \<longleftrightarrow> n = i"
    using nth_eq_iff_index_eq [OF assms(2), of n i] m(2) assms(3) by simp
  then show "row_matches dec (map (\<lambda>r. if rwName r = svName (ss ! i) then r\<lparr>rwKeyEnc := k\<rparr> else r) rows ! n)
      (ss[i := (ss ! i)\<lparr>svKey := key\<rparr>] ! n)"
    using m n assms(4) by (auto simp: row_matches_def)
qed

lemma SetKey_ok:
  assumes "inventory_ok lower addr dec z" and "encrypts dec enc"
  shows "inventory_ok lower addr dec (snd (SetKey enc fault name key z))"
proof (cases "server_index name (zServers z)")
  case None
  then show ?thesis using assms(1) by (simp add: SetKey_def)
next
  case (Some i)
  let ?s = "(zServers z ! i)\<lparr>svKey := key\<rparr>"
  note i = server_index_Some [OF Some]
  note inv = assms(1) [unfolded inventory_ok_def]
  have ok: "server_ok ?s" using indexed_server_ok [OF assms(1) Some] by (simp add: server_ok_def)
  note r = replaced_ok [OF assms(1) Some ok]
  have "inventory_ok lower addr dec (z\<lparr>zRows := rows, zServers := (zServers z)[i := ?s]\<rparr>)"
    if upd: "SQLiteRepository_UpdateServerKey enc fault name key (zRows z) = Inr rows" for rows
  proof -
    obtain k where k: "enc key = Inr k" "rows = map (\<lambda>r. if rwName r = name then r\<lparr>rwKeyEnc := k\<rparr> else r) (zRows z)"
      using upd by (cases fault; cases "enc key") (auto simp: SQLiteRepository_UpdateServerKey_def)
    have "dec k = Inr key" using k(1) assms(2) by (simp add: encrypts_def)
    then have "list_all2 (row_matches dec) rows ((zServers z)[i := ?s])"
      using key_rows_match [of dec "zRows z" "zServers z" i k key] inv i normalized_names_inj k(2) by blast
    then show ?thesis using r i inv by (simp add: inventory_ok_def status_names_def)
  qed
  then show ?thesis using assms(1) Some
    by (auto simp: SetKey_def Let_def split: sum.split option.split intro!: status_touch_ok)
qed

subsection \<open>Reachable inventories\<close>

text \<open>
  The operations on the inventory and on the statuses in any order, with any outcome of encryption
  and of the database. Tags with a comma are excluded: such a tag is split when the server is
  created but its parts are only made distinct the next time the list is stored. A status snapshot
  is restored while the server still exists, since the transient action that took it keeps
  deletions out.
\<close>

inductive inventory_step ::
  "(string \<Rightarrow> string) \<Rightarrow> (string \<Rightarrow> (string \<times> bool) option) \<Rightarrow> (string \<Rightarrow> (string, string) result) \<Rightarrow> inventory \<Rightarrow> inventory \<Rightarrow> bool"
  for lower addr dec where
  inv_create: "encrypts dec enc \<Longrightarrow> list_all (\<lambda>t. CHR '','' \<notin> set t) (svTags s)
    \<Longrightarrow> inventory_step lower addr dec z (snd (Create lower addr enc fault s z))"
| inv_update: "encrypts dec enc \<Longrightarrow> tagsNil \<or> list_all (\<lambda>t. CHR '','' \<notin> set t) (svTags s)
    \<Longrightarrow> inventory_step lower addr dec z (snd (Update lower addr enc fault name tagsNil s z))"
| inv_delete: "encrypts dec enc \<Longrightarrow> inventory_step lower addr dec z (snd (Delete enc fault name z))"
| inv_clear: "encrypts dec enc \<Longrightarrow> inventory_step lower addr dec z (snd (ClearPassword enc fault name z))"
| inv_key: "encrypts dec enc \<Longrightarrow> inventory_step lower addr dec z (snd (SetKey enc fault name key z))"
| inv_disable: "encrypts dec enc \<Longrightarrow> inventory_step lower addr dec z (snd (SetDisabled enc fault name d z))"
| inv_begin: "inventory_step lower addr dec z (snd (BeginActionWithOptions name st mut al z))"
| inv_transient: "inventory_step lower addr dec z (snd (BeginTransientAction name st z))"
| inv_restore: "inventory_step lower addr dec z (RestoreAdmittedAction name g p z)"
| inv_snapshot: "status_at z name \<noteq> None \<Longrightarrow> inventory_step lower addr dec z (RestoreStatusSnapshot name (Some p) z)"
| inv_approve: "inventory_step lower addr dec z (snd (ApprovePendingUpdateWithOptions name scope c z))"
| inv_cancel: "inventory_step lower addr dec z (snd (CancelPendingUpdate name z))"
| inv_bind: "inventory_step lower addr dec z (snd (BindActionJob name i g z))"
| inv_runner: "inventory_step lower addr dec z (snd (BeginActionRunner name i z))"
| inv_finish: "inventory_step lower addr dec z (FinishActionRunner name i g z)"

definition empty_inventory :: inventory where
  "empty_inventory = \<lparr>zServers = [], zStatus = [], zRows = []\<rparr>"

lemma status_ops_ok:
  assumes "inventory_ok lower addr dec z"
  shows "inventory_ok lower addr dec (snd (BeginActionWithOptions name st mut al z))"
    "inventory_ok lower addr dec (snd (BeginTransientAction name st z))"
    "inventory_ok lower addr dec (RestoreAdmittedAction name g p z)"
    "status_at z name \<noteq> None \<Longrightarrow> inventory_ok lower addr dec (RestoreStatusSnapshot name (Some p) z)"
    "inventory_ok lower addr dec (snd (ApprovePendingUpdateWithOptions name scope c z))"
    "inventory_ok lower addr dec (snd (CancelPendingUpdate name z))"
    "inventory_ok lower addr dec (snd (BindActionJob name i g z))"
    "inventory_ok lower addr dec (snd (BeginActionRunner name i z))"
    "inventory_ok lower addr dec (FinishActionRunner name i g z)"
  using assms status_touch_ok [OF assms]
  by (simp_all add: BeginActionWithOptions_def BeginTransientAction_def RestoreAdmittedAction_def
      RestoreStatusSnapshot_def ApprovePendingUpdateWithOptions_def CancelPendingUpdate_def BindActionJob_def
      BeginActionRunner_def FinishActionRunner_def split: option.split)

lemma reachable_inventory_ok:
  assumes "(inventory_step lower addr dec)\<^sup>*\<^sup>* empty_inventory z"
  shows "inventory_ok lower addr dec z"
  using assms
proof (induction rule: rtranclp_induct)
  case base
  show ?case by (simp add: inventory_ok_def empty_inventory_def servers_ok_def status_names_def)
next
  case (step y z)
  from step.hyps(2) step.IH show ?case
    by (cases rule: inventory_step.cases)
      (auto intro: Create_ok Update_ok Delete_ok ClearPassword_ok SetKey_ok SetDisabled_ok status_ops_ok)
qed

lemma list_all2_insort:
  assumes "list_all2 P xs ys" and "P a b" and "\<And>x y. P x y \<Longrightarrow> f x = g y"
  shows "list_all2 P (insort_key f a xs) (insort_key g b ys)"
  using assms(1)
proof (induction xs ys rule: list_all2_induct)
  case (Cons x xs y ys)
  then show ?case using assms(2) assms(3) [of a b] assms(3) [of x y] by simp
qed (simp add: assms(2))

lemma list_all2_sort:
  assumes "list_all2 P xs ys" and "\<And>x y. P x y \<Longrightarrow> f x = g y"
  shows "list_all2 P (sort_key f xs) (sort_key g ys)"
  using assms(1) by (induction xs ys rule: list_all2_induct) (auto intro: list_all2_insort assms(2))

lemma load_rows_matches:
  assumes "list_all2 (row_matches dec) rows ss" and "list_all server_ok ss"
  shows "load_rows dec rows = Inr ss"
  using assms
  by (induction rows ss rule: list_all2_induct)
    (auto simp: row_matches_def server_ok_def ParseTags_JoinTags)


definition sample_server :: server where
  "sample_server = \<lparr>svDisabled = False, svName = ''web'', svHost = ''10.0.0.1'', svPort = 0, svUser = ''root'',
     svPass = ''pw'', svKey = [], svTags = ['' prod'', ''eu'', ''prod'']\<rparr>"

definition sample_inventory :: inventory where
  "sample_inventory = snd (Create id (\<lambda>_. None) Inr None sample_server empty_inventory)"

lemma sample_inventory_reachable: "(inventory_step id (\<lambda>_. None) Inr)\<^sup>*\<^sup>* empty_inventory sample_inventory"
  unfolding sample_inventory_def
  by (rule r_into_rtranclp, rule inv_create) (simp_all add: encrypts_def sample_server_def)


definition sample_begun :: inventory where
  "sample_begun = snd (BeginActionWithOptions ''web'' StatusUpdating True [] sample_inventory)"

theorem stale_owner_cannot_interfere_witness:
  "RestoreAdmittedAction ''web'' 0 (NewIdleStatus sample_server) sample_begun = sample_begun
     \<and> fst (BindActionJob ''web'' ''j'' 0 sample_begun) = False"
proof -
  let ?st = "NewIdleStatus (hd (zServers sample_inventory))"
  have "\<exists>r. BeginActionWithOptions ''web'' StatusUpdating True [] sample_inventory = (Inr r, sample_begun)"
    unfolding sample_begun_def by (rule exI [of _ "(hd (zServers sample_inventory), ?st)"]) code_simp
  then have "action_run ''web'' sample_inventory (Suc 0) sample_begun" by (blast intro: action_run.intros)
  moreover have "status_at sample_inventory ''web'' = Some ?st" by code_simp
  ultimately show ?thesis
    using stale_owner_cannot_interfere [of "''web''" sample_inventory "Suc 0" sample_begun ?st "NewIdleStatus sample_server" "''j''"]
    by (simp add: NewIdleStatus_def)
qed

text \<open>C36: When storing an inventory change fails, the operation leaves the servers, their statuses and the
  table exactly as they were, for every operation of the inventory.\<close>

theorem failed_save_changes_nothing:
  "snd (Create lower addr enc (Some e) s z) = z
   \<and> snd (Update lower addr enc (Some e) name tagsNil s z) = z
   \<and> snd (Delete enc (Some e) name z) = z
   \<and> snd (ClearPassword enc (Some e) name z) = z
   \<and> snd (SetKey enc (Some e) name key z) = z
   \<and> snd (SetDisabled enc (Some e) name disabled z) = z"
proof (intro conjI)
  show "snd (Create lower addr enc (Some e) s z) = z"
    by (simp add: Create_def Let_def save_fault)
  show "snd (Update lower addr enc (Some e) name tagsNil s z) = z"
    by (simp add: Update_def Let_def save_fault split: option.split)
  show "snd (Delete enc (Some e) name z) = z"
    by (simp add: Delete_def save_fault split: option.split)
  show "snd (ClearPassword enc (Some e) name z) = z"
    by (simp add: ClearPassword_def save_fault split: option.split)
  show "snd (SetKey enc (Some e) name key z) = z"
    by (cases "enc key") (simp_all add: SetKey_def SQLiteRepository_UpdateServerKey_def split: option.split)
  show "snd (SetDisabled enc (Some e) name disabled z) = z"
    by (simp add: SetDisabled_def Let_def save_fault split: option.split)
qed

lemma needs_reconciliation_folds: "equal_fold_ascii (trim_space StatusNeedsReconciliation) StatusNeedsReconciliation"
  by code_simp

lemma edited_status_keeps_block:
  assumes "status_at z name = Some st" and "stStatus st = StatusNeedsReconciliation"
  shows "\<exists>st'. status_at (if svName s \<noteq> name then renamed_status name s z else UpdateStatusFromServer name s z) (svName s)
      = Some st' \<and> stStatus st' = StatusNeedsReconciliation"
    and "stStatus (moved_status (status_at z name) s) = StatusNeedsReconciliation"
  using assms needs_reconciliation_folds
  by (simp_all add: renamed_status_def Let_def UpdateStatusFromServer_def refresh_status_def moved_status_def)

text \<open>A server that needs reconciliation cannot lose that state by being edited: deleting it is
  refused, and renaming it, moving it to another endpoint or both leaves the renamed server in the
  state, so package changes stay blocked.\<close>

lemma reconciliation_survives_edits:
  assumes "status_at z name = Some st" and "stStatus st = StatusNeedsReconciliation"
  shows "snd (Delete enc fault name z) = z
     \<and> (case Update lower addr enc fault name tagsNil s z of
          (Inl _, z') \<Rightarrow> z' = z
        | (Inr s', z') \<Rightarrow> \<exists>st'. status_at z' (svName s') = Some st' \<and> BlocksPackageMutation (stStatus st'))"
proof
  show "snd (Delete enc fault name z) = z"
    using assms needs_reconciliation_folds by (simp add: Delete_def split: option.split)
  show "case Update lower addr enc fault name tagsNil s z of
          (Inl _, z') \<Rightarrow> z' = z
        | (Inr s', z') \<Rightarrow> \<exists>st'. status_at z' (svName s') = Some st' \<and> BlocksPackageMutation (stStatus st')"
  proof (cases "server_index name (zServers z)")
    case None
    then show ?thesis by (simp add: Update_def Let_def)
  next
    case (Some i)
    let ?e = "zServers z ! i"
    let ?s = "merged_server lower addr tagsNil ?e (trimmed_server s)"
    let ?z1 = "z\<lparr>zServers := (zServers z)[i := ?s]\<rparr>"
    let ?z2 = "if svName ?s \<noteq> name then renamed_status name ?s ?z1 else UpdateStatusFromServer name ?s ?z1"
    let ?moved = "NormalizeServerEndpoint lower addr (svHost ?e) (svPort ?e) \<noteq> NormalizeServerEndpoint lower addr (svHost ?s) (svPort ?s)"
    let ?z3 = "if ?moved then put_status (svName ?s) (moved_status (status_at z name) ?s) ?z2 else ?z2"
    have keeps: "\<exists>st'. status_at ?z3 (svName ?s) = Some st' \<and> stStatus st' = StatusNeedsReconciliation"
      using edited_status_keeps_block [of ?z1 name st ?s] assms by simp
    have rows: "zRows ?z3 = zRows z" by simp
    show ?thesis
      using rows
    proof (cases rule: save_cases [where enc = enc and fault = fault])
      case (1 e)
      then show ?thesis using Some unfolding Update_def Let_def by (simp split: prod.split)
    next
      case (2 rows)
      from keeps obtain st' where "status_at (?z3\<lparr>zRows := rows\<rparr>) (svName ?s) = Some st'"
        "stStatus st' = StatusNeedsReconciliation" by auto
      then show ?thesis using 2(2) Some unfolding Update_def Let_def by (simp split: prod.split)
    qed
  qed
qed

definition sample_blocked :: inventory where
  "sample_blocked = put_status ''web'' ((NewIdleStatus sample_server)\<lparr>stStatus := StatusNeedsReconciliation\<rparr>) sample_inventory"

end
