(* ===== verification/DeferralPlan.thy ===== *)
theory DeferralPlan
  imports Disk Commands
begin

section \<open>DeferralPlan: transactions that keep deferred packages\<close>

text \<open>
  The model of \<open>internal/updates/package_deferrals.go\<close>: the simulated transaction of every
  approval scope when package deferrals are active, and the guarded command that executes one.
  \<open>run\<close> is the host session: it takes the name of the operation and the command and returns an
  error or the output of the command on both streams. \<open>parse\<close> is the parser of expiration times.
  The regular expressions are written out as functions; each is anchored, and the classes of
  adjacent parts are disjoint, so a match is unique.
\<close>

subsection \<open>Selectors of updates\<close>

record package_selector =
  psSelector :: string
  psBase :: string
  psArch :: string

definition no_selector :: package_selector where
  "no_selector = \<lparr>psSelector = [], psBase = [], psArch = []\<rparr>"

definition packageSelectorFromPackage :: "string \<Rightarrow> package_selector" where
  "packageSelectorFromPackage entry =
     (case go_fields (trim_space entry) of
        [] \<Rightarrow> no_selector
      | field # _ \<Rightarrow>
          let (before, _, slash) = cut_at field CHR ''/'';
              pkg = trim_space (if slash \<and> before \<noteq> [] then before else field)
          in if pkg = [] then no_selector
             else let (base, arch, colon) = cut_at pkg CHR '':'' in
               if colon \<and> base \<noteq> [] then
                 (let base' = trim_space base; arch' = trim_space arch in
                  if base' = [] \<or> arch' = [] then no_selector
                  else \<lparr>psSelector = base' @ '':'' @ arch', psBase = base', psArch = arch'\<rparr>)
               else \<lparr>psSelector = pkg, psBase = pkg, psArch = []\<rparr>)"

definition aptListMetadataArch :: "string \<Rightarrow> string" where
  "aptListMetadataArch raw =
     (let fields = go_fields (trim_space raw) in
      if length fields < 3 then []
      else let arch = trim_space (fields ! 2) in
        if arch = [] \<or> list_ex (\<lambda>c. c \<in> set ''/[]'') arch then [] else arch)"

definition aptListMetadataSelector :: "pending_update \<Rightarrow> package_selector" where
  "aptListMetadataSelector u =
     (let sel = packageSelectorFromPackage (uPackage u) in
      if psBase sel = [] \<or> psArch sel \<noteq> [] then sel
      else let arch = aptListMetadataArch (uRaw u) in
        if arch = [] then sel
        else sel\<lparr>psArch := arch, psSelector := psBase sel @ '':'' @ arch\<rparr>)"

subsection \<open>Lines of a simulation\<close>

definition pkg_char :: "char \<Rightarrow> bool" where
  "pkg_char c \<longleftrightarrow> is_lower c \<or> is_digit c \<or> c \<in> set ''+.:_-''"

definition pkg_name :: "string \<Rightarrow> bool" where
  "pkg_name s \<longleftrightarrow> s \<noteq> [] \<and> alnum (hd s) \<and> list_all pkg_char s"

text \<open>\<open>[version] \<close> with its space, the version not empty and without a bracket.\<close>

definition bracketed :: "string \<Rightarrow> (string \<times> string) option" where
  "bracketed s =
     (if s \<noteq> [] \<and> hd s = CHR ''['' then
        (let (v, rest, found) = cut_at (tl s) CHR '']'' in if found \<and> v \<noteq> [] then Some (v, rest) else None)
      else None)"

definition trailing_arch :: "string \<Rightarrow> string option" where
  "trailing_arch s =
     (if suffix ''])'' s then
        (let t = rev (take (length s - 2) s); arch = takeWhile arch_char t; rest = dropWhile arch_char t
         in if arch \<noteq> [] \<and> rest \<noteq> [] \<and> hd rest = CHR ''['' then Some (rev arch) else None)
      else None)"

text \<open>The groups of \<open>deferralInstallLine\<close>: package, installed version (empty when the optional part is
  absent), candidate version and architecture.\<close>

definition deferralInstallLine :: "string \<Rightarrow> (string \<times> string \<times> string \<times> string) option" where
  "deferralInstallLine line =
     (if \<not> prefix ''Inst '' line then None
      else let (name, rest, found) = cut_at (drop 5 line) CHR '' '' in
        if \<not> found \<or> \<not> pkg_name name then None
        else
          let (current, rest') =
                (case bracketed rest of
                   Some (v, r) \<Rightarrow> if r \<noteq> [] \<and> hd r = CHR '' '' then (v, tl r) else ([], rest)
                 | None \<Rightarrow> ([], rest))
          in if rest' = [] \<or> hd rest' \<noteq> CHR ''('' then None
             else let (version, tail, found') = cut_at (tl rest') CHR '' '' in
               if \<not> found' \<or> version = [] then None
               else map_option (\<lambda>arch. (name, current, version, arch)) (trailing_arch tail))"

definition deferralRemoveLine :: "string \<Rightarrow> string option" where
  "deferralRemoveLine line =
     (if \<not> prefix ''Remv '' line then None
      else let (name, rest, found) = cut_at (drop 5 line) CHR '' '' in
        if \<not> found \<or> \<not> pkg_name name then None
        else case bracketed rest of
          Some (_, r) \<Rightarrow> if r = [] \<or> hd r = CHR '' '' then Some name else None
        | None \<Rightarrow> None)"

definition debianVersion :: "string \<Rightarrow> bool" where
  "debianVersion s \<longleftrightarrow> s \<noteq> [] \<and> list_all (\<lambda>c. is_lower c \<or> is_upper c \<or> is_digit c \<or> c \<in> set ''.+:~_-'') s"

definition with_arch :: "string \<Rightarrow> string \<Rightarrow> string" where
  "with_arch selector arch = (if CHR '':'' \<in> set selector then selector else selector @ '':'' @ arch)"

subsection \<open>Transactions\<close>

type_synonym transaction = "string list \<times> string list \<times> string list"

fun installed_archs :: "string list \<Rightarrow> (string \<times> string) list \<Rightarrow> (string \<times> string) list" where
  "installed_archs [] archs = archs"
| "installed_archs (line # lines) archs =
     installed_archs lines
       (case go_fields line of
          [tag, name, arch] \<Rightarrow> if tag = ''SLU_INSTALLED_ARCH'' then AList.update name arch archs else archs
        | _ \<Rightarrow> archs)"

definition transaction_line :: "(string \<times> string) list \<Rightarrow> string \<Rightarrow> transaction \<Rightarrow> (string, transaction) result" where
  "transaction_line archs rawLine tr =
     (case tr of (changes, newPackages, removals) \<Rightarrow>
      let line = trim_space rawLine in
      if prefix ''Inst '' line then
        (case deferralInstallLine line of
           None \<Rightarrow> Inl ''APT transaction architecture/version unavailable; cannot prove a safe deferred plan''
         | Some (name, current, version, arch) \<Rightarrow>
             if \<not> debianVersion version
             then Inl ''APT transaction architecture/version unavailable; cannot prove a safe deferred plan''
             else let selector = with_arch name arch in
               if \<not> ValidSelector selector then Inl ''invalid APT transaction selector''
               else Inr (changes @ [selector @ ''='' @ version],
                         newPackages @ (if current = [] then [selector] else []), removals))
      else if prefix ''Remv '' line then
        (case deferralRemoveLine line of
           None \<Rightarrow> Inl ''APT removal identity unavailable''
         | Some name \<Rightarrow>
             let arch = (case map_of archs name of Some a \<Rightarrow> a | None \<Rightarrow> []) in
             if CHR '':'' \<notin> set name \<and> arch = [] then Inl ''APT removal architecture unavailable''
             else let selector = with_arch name arch in
               if \<not> ValidSelector selector then Inl ''invalid APT removal selector''
               else Inr (changes @ [selector @ ''=-''], newPackages, removals @ [selector]))
      else Inr tr)"

fun transaction_lines :: "(string \<times> string) list \<Rightarrow> string list \<Rightarrow> transaction \<Rightarrow> (string, transaction) result" where
  "transaction_lines archs [] tr = Inr tr"
| "transaction_lines archs (line # lines) tr =
     bind_result (transaction_line archs line tr) (transaction_lines archs lines)"

definition parseDeferralTransaction :: "string \<Rightarrow> (string, transaction) result" where
  "parseDeferralTransaction output =
     (let lines = split_char CHR 0x0A output in
      bind_result (transaction_lines (installed_archs lines []) lines ([], [], []))
        (\<lambda>(changes, newPackages, removals). Inr (sort changes, sort newPackages, sort removals)))"

subsection \<open>The plan\<close>

record discovery_outcome =
  doAvailableUpdatesComplete :: bool
  doPendingPackageCount :: int
  doSecurityPackageCount :: int
  doUpgradable :: "string list"
  doPendingUpdates :: "pending_update list"
  doUpgradePlan :: upgrade_plan

definition deferralInstallOptions :: "string \<Rightarrow> bool \<Rightarrow> string" where
  "deferralInstallOptions scope confirmed =
     (if scope = ApprovalScopeAll \<or> scope = ApprovalScopeSecurity then ''--only-upgrade --no-remove''
      else if \<not> confirmed then ''--no-remove'' else [])"

definition update_selector :: "pending_update \<Rightarrow> string" where
  "update_selector u =
     (let selector =
        (if uInstallPackage u \<noteq> [] then uInstallPackage u
         else if CHR ''/'' \<in> set (fst (cut_at (uRaw u) CHR '' '')) then psSelector (aptListMetadataSelector u)
         else case deferralInstallLine (''Inst '' @ uRaw u) of
           Some (_, _, _, arch) \<Rightarrow> with_arch (uPackage u) arch
         | None \<Rightarrow> [])
      in if selector = [] then uPackage u else selector)"

definition marked_update :: "deferral_snapshot \<Rightarrow> pending_update \<Rightarrow> pending_update" where
  "marked_update rules u =
     u\<lparr>uPackage := update_selector u, uDeferred := Snapshot_Matches rules (update_selector u)\<rparr>"

definition plan_command :: "string \<Rightarrow> string list \<Rightarrow> string" where
  "plan_command scope args =
     ''dpkg-query -W -f='' @ [CHR 0x27] @ ''SLU_INSTALLED_ARCH ${binary:Package} ${Architecture}'' @ [CHR 0x5C] @ ''n''
     @ [CHR 0x27] @ '' && ''
     @ ReadOnlyAptCommand (''apt-get -s -o APT::Ignore-Hold=false -o APT::Get::allow-change-held-packages=false -o APT::Get::allow-downgrades=false ''
         @ deferralInstallOptions scope True @ '' install -- '' @ join '' '' args)"

definition empty_scope_plan :: "string list \<Rightarrow> deferral_scope_plan" where
  "empty_scope_plan selected =
     \<lparr>sAvailable = False, sBlockReason = [], sSelectedPackages = selected, sTransaction = [], sNewPackages = [],
      sRemovedPackages = [], sDependencyImpacts = []\<rparr>"

text \<open>A failed parse leaves the three lists nil.\<close>

definition judged_plan :: "deferral_snapshot \<Rightarrow> deferral_scope_plan \<Rightarrow> string \<Rightarrow> deferral_scope_plan" where
  "judged_plan rules p output =
     (case parseDeferralTransaction output of
        Inl e \<Rightarrow> p\<lparr>sBlockReason := e\<rparr>
      | Inr (changes, newPackages, removals) \<Rightarrow>
          let impacts = filter (Snapshot_Matches rules) (map (\<lambda>change. fst (cut_at change CHR ''='')) changes);
              p' = p\<lparr>sTransaction := changes, sNewPackages := newPackages, sRemovedPackages := removals,
                     sDependencyImpacts := impacts\<rparr>
          in if changes = []
             then p'\<lparr>sBlockReason := ''APT found no executable transaction; review administrator holds/pins and rescan.''\<rparr>
             else if impacts \<noteq> []
             then p'\<lparr>sBlockReason := ''Dependency conflict: APT would change deferred package(s): '' @ join '', '' impacts
                    @ ''. Remove or wait for the deferral, or resolve dependencies before rescanning.''\<rparr>
             else p'\<lparr>sAvailable := True\<rparr>)"

definition scope_plan ::
  "(string \<Rightarrow> string \<Rightarrow> (string, string \<times> string) result) \<Rightarrow> deferral_snapshot \<Rightarrow> pending_update list \<Rightarrow> string
    \<Rightarrow> (string, deferral_scope_plan) result" where
  "scope_plan run rules pending scope =
     (let selected = PackagesForApprovalScope scope pending; p = empty_scope_plan selected in
      if selected = [] then Inr (p\<lparr>sAvailable := True\<rparr>)
      else let args = validatedShellEscapedPackageArgs selected in
        if args = [] then Inl ''invalid package selector in deferral plan''
        else case run (''update.deferral_plan.'' @ scope) (plan_command scope args) of
          Inl _ \<Rightarrow> Inr (p\<lparr>sBlockReason := ''APT cannot demonstrate a safe transaction with these package deferrals. Review dependencies and rescan.''\<rparr>)
        | Inr (stdout, stderr) \<Rightarrow> Inr (judged_plan rules p (stdout @ [CHR 0x0A] @ stderr)))"

fun scope_plans ::
  "(string \<Rightarrow> string \<Rightarrow> (string, string \<times> string) result) \<Rightarrow> deferral_snapshot \<Rightarrow> pending_update list \<Rightarrow> string list
    \<Rightarrow> (string, (string \<times> deferral_scope_plan) list) result" where
  "scope_plans run rules pending [] = Inr []"
| "scope_plans run rules pending (scope # scopes) =
     bind_result (scope_plan run rules pending scope)
       (\<lambda>p. bind_result (scope_plans run rules pending scopes) (\<lambda>ps. Inr ((scope, p) # ps)))"

definition plan_of :: "(string \<times> deferral_scope_plan) list \<Rightarrow> string \<Rightarrow> deferral_scope_plan" where
  "plan_of plans scope = (case map_of plans scope of Some p \<Rightarrow> p | None \<Rightarrow> empty_scope_plan [])"

definition PlanPackageDeferrals ::
  "(string \<Rightarrow> string \<Rightarrow> (string, string \<times> string) result) \<Rightarrow> discovery_outcome \<Rightarrow> deferral_snapshot
    \<Rightarrow> (string, discovery_outcome) result" where
  "PlanPackageDeferrals run outcome rules =
     (let plan = (doUpgradePlan outcome)\<lparr>PackageDeferrals := rules\<rparr> in
      if snRules rules = [] then Inr (outcome\<lparr>doUpgradePlan := plan\<rparr>)
      else
        let pending = map (marked_update rules) (doPendingUpdates outcome);
            deferred = filter uDeferred pending;
            plan1 = plan\<lparr>DeferredPackages := DeferredPackages plan @ map uPackage deferred,
              DeferredSecurityPackages := DeferredSecurityPackages plan @ map uPackage (filter uSecurity deferred)\<rparr>
        in bind_result (scope_plans run rules pending
               [ApprovalScopeAll, ApprovalScopeSecurity, ApprovalScopeSecurityKeptBack, ApprovalScopeFullUpgrade])
             (\<lambda>plans.
                let kept = plan_of plans ApprovalScopeSecurityKeptBack; full = plan_of plans ApprovalScopeFullUpgrade;
                    plan2 = plan1\<lparr>DeferralScopes := plans,
                      StandardPackageCount := int (length (sSelectedPackages (plan_of plans ApprovalScopeAll))),
                      StandardSecurityCount := int (length (sSelectedPackages (plan_of plans ApprovalScopeSecurity))),
                      KeptBackSecurityPlanAvailable := sAvailable kept,
                      KeptBackSecurityPackageCount := int (length (sSelectedPackages kept)),
                      KeptBackSecurityNewPackages := sNewPackages kept,
                      KeptBackSecurityRemovedPackages := sRemovedPackages kept,
                      FullUpgradePlanAvailable := sAvailable full,
                      FullUpgradePackageCount := int (length (sTransaction full)),
                      FullUpgradeNewPackages := sNewPackages full,
                      FullUpgradeRemovedPackages := sRemovedPackages full,
                      FullUpgradeDiskFactsAvailable := False,
                      KeptBackDiskFactsAvailable := False\<rparr>
                in Inr (outcome\<lparr>doPendingUpdates := pending, doUpgradePlan := applyPlanDiskEstimate plan2\<rparr>)))"

definition guarded_arguments :: "(string \<Rightarrow> int option) \<Rightarrow> string \<Rightarrow> upgrade_plan \<Rightarrow> deferral_scope_plan \<Rightarrow> bool \<Rightarrow> string list" where
  "guarded_arguments parse scope plan p confirmRemovals =
     (let selectors = Selectors (PackageDeferrals plan) in
      [scope, itoa (Deadline parse (PackageDeferrals plan)), itoa (int (length selectors))] @ selectors
      @ [itoa (int (length (sTransaction p)))] @ sTransaction p
      @ [if confirmRemovals \<and> sRemovedPackages p \<noteq> [] then ''allow-removals'' else ''no-remove'']
      @ sSelectedPackages p)"

definition BuildDeferredUpgradeCommand :: "(string \<Rightarrow> int option) \<Rightarrow> string \<Rightarrow> upgrade_plan \<Rightarrow> bool \<Rightarrow> string" where
  "BuildDeferredUpgradeCommand parse scope plan confirmRemovals =
     (case map_of (DeferralScopes plan) (NormalizeApprovalScope scope) of
        None \<Rightarrow> []
      | Some p \<Rightarrow>
          if \<not> sAvailable p \<or> sSelectedPackages p = [] then []
          else guarded_command (guarded_arguments parse (NormalizeApprovalScope scope) plan p confirmRemovals))"

subsection \<open>Lemmas\<close>

definition change_ok :: "string \<Rightarrow> bool" where
  "change_ok change \<longleftrightarrow> (\<exists>selector version. change = selector @ ''='' @ version \<and> ValidSelector selector
     \<and> (debianVersion version \<or> version = ''-''))"

definition action_line :: "string \<Rightarrow> bool" where
  "action_line l \<longleftrightarrow> prefix ''Inst '' (trim_space l) \<or> prefix ''Remv '' (trim_space l)"

lemma cut_change:
  assumes "ValidSelector sel"
  shows "fst (cut_at (sel @ ''='' @ v) CHR ''='') = sel"
proof -
  have "\<not> (name_char CHR ''='' \<or> CHR ''='' = CHR '':'')" by code_simp
  then have "CHR ''='' \<notin> set sel" using ValidSelector_shape [OF assms] unfolding list_all_iff by blast
  then have "takeWhile (\<lambda>x. x \<noteq> CHR ''='') (sel @ CHR ''='' # v) = sel" by (subst takeWhile_append2) auto
  then show ?thesis by (simp add: cut_at_def)
qed

text \<open>What one line adds to a transaction.\<close>

lemma transaction_line_adds:
  assumes "transaction_line archs l (c, n, r) = Inr (c', n', r')"
  shows "\<exists>cs ns rs. c' = c @ cs \<and> n' = n @ ns \<and> r' = r @ rs \<and> length cs = (if action_line l then 1 else 0)
    \<and> list_all change_ok cs \<and> set rs \<subseteq> {s. s @ ''=-'' \<in> set cs} \<and> set ns \<subseteq> (\<lambda>ch. fst (cut_at ch CHR ''='')) ` set cs"
proof -
  consider (inst) "prefix ''Inst '' (trim_space l)" | (remv) "\<not> prefix ''Inst '' (trim_space l)" "prefix ''Remv '' (trim_space l)"
    | (other) "\<not> action_line l" by (auto simp: action_line_def)
  then show ?thesis
  proof cases
    case inst
    then obtain name current version arch where "deferralInstallLine (trim_space l) = Some (name, current, version, arch)"
      using assms by (cases "deferralInstallLine (trim_space l)") (auto simp: transaction_line_def)
    then have
      c': "c' = c @ [with_arch name arch @ ''='' @ version]" "n' = n @ (if current = [] then [with_arch name arch] else [])" "r' = r"
      and ok: "ValidSelector (with_arch name arch)" "debianVersion version"
      using assms inst by (auto simp: transaction_line_def Let_def split: if_splits)
    show ?thesis using c' ok inst cut_change [OF ok(1)]
      by (intro exI [of _ "[with_arch name arch @ ''='' @ version]"] exI [of _ "if current = [] then [with_arch name arch] else []"]
          exI [of _ "[]"]) (auto simp: change_ok_def action_line_def)
  next
    case remv
    then obtain sel where c': "c' = c @ [sel @ ''=-'']" "n' = n" "r' = r @ [sel]" and ok: "ValidSelector sel"
      using assms by (auto simp: transaction_line_def Let_def split: option.splits if_splits)
    show ?thesis using c' ok remv
      by (intro exI [of _ "[sel @ ''=-'']"] exI [of _ "[]"] exI [of _ "[sel]"]) (auto simp: change_ok_def action_line_def)
  next
    case other
    then show ?thesis using assms by (auto simp: transaction_line_def Let_def action_line_def)
  qed
qed

lemma transaction_lines_add:
  assumes "transaction_lines archs ls (c, n, r) = Inr (c', n', r')"
  shows "\<exists>cs ns rs. c' = c @ cs \<and> n' = n @ ns \<and> r' = r @ rs \<and> length cs = length (filter action_line ls)
    \<and> list_all change_ok cs \<and> set rs \<subseteq> {s. s @ ''=-'' \<in> set cs} \<and> set ns \<subseteq> (\<lambda>ch. fst (cut_at ch CHR ''='')) ` set cs"
  using assms
proof (induction ls arbitrary: c n r)
  case (Cons l ls)
  obtain c1 n1 r1 where l: "transaction_line archs l (c, n, r) = Inr (c1, n1, r1)"
    and ls: "transaction_lines archs ls (c1, n1, r1) = Inr (c', n', r')"
    using Cons.prems by (auto simp: bind_result_Inr_iff)
  obtain cs ns rs where 1: "c1 = c @ cs" "n1 = n @ ns" "r1 = r @ rs" "length cs = (if action_line l then 1 else 0)"
    "list_all change_ok cs" "set rs \<subseteq> {s. s @ ''=-'' \<in> set cs}" "set ns \<subseteq> (\<lambda>ch. fst (cut_at ch CHR ''='')) ` set cs"
    using transaction_line_adds [OF l] by blast
  obtain cs' ns' rs' where 2: "c' = c1 @ cs'" "n' = n1 @ ns'" "r' = r1 @ rs'" "length cs' = length (filter action_line ls)"
    "list_all change_ok cs'" "set rs' \<subseteq> {s. s @ ''=-'' \<in> set cs'}" "set ns' \<subseteq> (\<lambda>ch. fst (cut_at ch CHR ''='')) ` set cs'"
    using Cons.IH [OF ls] by blast
  show ?case using 1 2
    by (intro exI [of _ "cs @ cs'"] exI [of _ "ns @ ns'"] exI [of _ "rs @ rs'"]) auto
qed simp

lemma parsed_transaction:
  assumes "parseDeferralTransaction output = Inr (changes, newPackages, removals)"
  shows "length changes = length (filter action_line (split_char CHR 0x0A output))" "list_all change_ok changes"
    "list_all (\<lambda>s. s @ ''=-'' \<in> set changes) removals"
    "set newPackages \<subseteq> (\<lambda>ch. fst (cut_at ch CHR ''='')) ` set changes"
proof -
  obtain c n r where tr: "transaction_lines (installed_archs (split_char CHR 0x0A output) []) (split_char CHR 0x0A output) ([], [], [])
      = Inr (c, n, r)" and s: "changes = sort c" "newPackages = sort n" "removals = sort r"
    using assms by (auto simp: parseDeferralTransaction_def Let_def bind_result_Inr_iff)
  from transaction_lines_add [OF tr]
  show "length changes = length (filter action_line (split_char CHR 0x0A output))" "list_all change_ok changes"
    "list_all (\<lambda>s. s @ ''=-'' \<in> set changes) removals"
    "set newPackages \<subseteq> (\<lambda>ch. fst (cut_at ch CHR ''='')) ` set changes"
    by (auto simp: s list_all_iff)
qed

lemma scope_plans_map:
  assumes "scope_plans run rules pending scopes = Inr plans" and "map_of plans scope = Some p"
  shows "scope_plan run rules pending scope = Inr p"
  using assms
  by (induction scopes arbitrary: plans) (auto simp: bind_result_Inr_iff split: if_splits)

lemma judged_plan_available:
  assumes "sAvailable (judged_plan rules p output)" and "\<not> sAvailable p"
  shows "\<exists>changes newPackages removals. parseDeferralTransaction output = Inr (changes, newPackages, removals)
    \<and> changes \<noteq> [] \<and> list_all (\<lambda>ch. \<not> Snapshot_Matches rules (fst (cut_at ch CHR ''=''))) changes
    \<and> sTransaction (judged_plan rules p output) = changes \<and> sRemovedPackages (judged_plan rules p output) = removals"
  using assms
  by (auto simp: judged_plan_def Let_def list_all_iff filter_empty_conv split: sum.splits if_splits)

lemma applyPlanDiskEstimate_keeps [simp]:
  "DeferralScopes (applyPlanDiskEstimate plan) = DeferralScopes plan"
  "PackageDeferrals (applyPlanDiskEstimate plan) = PackageDeferrals plan"
  by (simp_all add: applyPlanDiskEstimate_def Let_def)

lemma planned_scopes:
  assumes "PlanPackageDeferrals run outcome rules = Inr out" and "snRules rules \<noteq> []"
  shows "scope_plans run rules (map (marked_update rules) (doPendingUpdates outcome))
      [ApprovalScopeAll, ApprovalScopeSecurity, ApprovalScopeSecurityKeptBack, ApprovalScopeFullUpgrade]
      = Inr (DeferralScopes (doUpgradePlan out))"
  using assms unfolding PlanPackageDeferrals_def Let_def by (auto simp: bind_result_Inr_iff simp del: scope_plans.simps)

lemma available_scope_plan:
  assumes "scope_plan run rules pending scope = Inr p" and "sAvailable p"
  shows "(if PackagesForApprovalScope scope pending = [] then sTransaction p = [] \<and> sRemovedPackages p = [] else sTransaction p \<noteq> [])
    \<and> list_all (\<lambda>ch. change_ok ch \<and> \<not> Snapshot_Matches rules (fst (cut_at ch CHR ''=''))) (sTransaction p)
    \<and> list_all (\<lambda>s. s @ ''=-'' \<in> set (sTransaction p)) (sRemovedPackages p)"
proof (cases "PackagesForApprovalScope scope pending = []")
  case True
  then show ?thesis using assms by (auto simp: scope_plan_def Let_def empty_scope_plan_def)
next
  case False
  then obtain out where p: "p = judged_plan rules (empty_scope_plan (PackagesForApprovalScope scope pending)) out"
    using assms by (auto simp: scope_plan_def Let_def empty_scope_plan_def split: if_splits sum.splits)
  have "sAvailable (judged_plan rules (empty_scope_plan (PackagesForApprovalScope scope pending)) out)"
    using assms(2) p by simp
  from judged_plan_available [OF this] obtain changes ns rs where
    tr: "parseDeferralTransaction out = Inr (changes, ns, rs)" "changes \<noteq> []"
      "list_all (\<lambda>ch. \<not> Snapshot_Matches rules (fst (cut_at ch CHR ''=''))) changes"
      "sTransaction p = changes" "sRemovedPackages p = rs"
    unfolding p by (auto simp: empty_scope_plan_def)
  then show ?thesis using parsed_transaction [OF tr(1)] False by (auto simp: list_all_iff)
qed

subsection \<open>Properties\<close>


text \<open>A simulated transaction is read completely or not at all: when parsing succeeds, every
  \<open>Inst\<close> and \<open>Remv\<close> line of the output is one change of a valid selector with a Debian version or a
  removal mark, and the new and removed packages are among the changes.\<close>

lemma transaction_is_complete:
  assumes "parseDeferralTransaction output = Inr (changes, newPackages, removals)"
  shows "length changes = length (filter action_line (split_char CHR 0x0A output))
     \<and> list_all (\<lambda>change. \<exists>selector version. change = selector @ ''='' @ version \<and> ValidSelector selector
         \<and> (debianVersion version \<or> version = ''-'')) changes
     \<and> list_all (\<lambda>s. s @ ''=-'' \<in> set changes) removals
     \<and> set newPackages \<subseteq> (\<lambda>change. fst (cut_at change CHR ''='')) ` set changes"
  using parsed_transaction [OF assms] by (simp add: change_ok_def [abs_def])

definition sample_output :: string where
  "sample_output = ''SLU_INSTALLED_ARCH oldlib amd64'' @ [CHR 0x0A] @ ''Inst curl [7.88.1-10] (7.88.1-10+deb12u5 Debian:12 [amd64])''
     @ [CHR 0x0A] @ ''Inst libnew (1.0-1 Debian:12 [amd64])'' @ [CHR 0x0A] @ ''Remv oldlib [0.9-2]''"

definition sample_update :: pending_update where
  "sample_update = \<lparr>uDeferred = False, uPackage = ''curl'', uInstallPackage = [], uCurrentVersion = ''7.88.1-10'',
     uCandidateVersion = ''7.88.1-10+deb12u5'', uSource = [], uSourcePackage = [], uInstalledSourceVersion = [],
     uCandidateSourceVersion = [], uSecurity = True, uKeptBack = False, uRequiresFull = False, uCVEs = [], uCVEState = [],
     uCVECoverage = [], uCVESource = [], uCVEScannedAt = [], uRaw = ''curl [7.88.1-10] (7.88.1-10+deb12u5 Debian:12 [amd64])''\<rparr>"

definition sample_outcome :: discovery_outcome where
  "sample_outcome = \<lparr>doAvailableUpdatesComplete = True, doPendingPackageCount = 1, doSecurityPackageCount = 1,
     doUpgradable = [], doPendingUpdates = [sample_update], doUpgradePlan = empty_plan\<rparr>"

definition sample_rules :: deferral_snapshot where
  "sample_rules = \<lparr>snRevision = ''r'', snRules = [sample_rule\<lparr>dSelector := ''vim''\<rparr>]\<rparr>"

definition sample_planned :: "(string, discovery_outcome) result" where
  "sample_planned = PlanPackageDeferrals (\<lambda>_ _. Inr (sample_output, [])) sample_outcome sample_rules"


end
