(* ===== verification/Approval.thy ===== *)
theory Approval
  imports Servers DeferralPlan
begin

section \<open>Approval: scopes, decisions and their execution\<close>

text \<open>
  The model of \<open>internal/updates/approval_scope.go\<close> and of the comparison functions of
  \<open>approval_revalidation.go\<close>. A scope is approved by an operator (\<open>EvaluateManualApproval\<close>) or by a
  policy (\<open>EvaluateAutoApproval\<close>), and later interpreted by the runner that executes it
  (\<open>InterpretApprovedScope\<close>). \<open>parse\<close> is the parser of expiration times.
\<close>

subsection \<open>Data\<close>

datatype meta_value = MetaText string | MetaList "string list" | MetaDeferrals deferral_snapshot | MetaInt int | MetaBool bool

record approval_state_options =
  soApproveStatus :: string
  soClearPending :: bool
  soConfirmRemovals :: bool

record approval_interpretation =
  aScope :: string
  aSelectedPackages :: "string list"
  aCommandMode :: string
  aCommand :: string
  aAllowed :: bool
  aBlocked :: bool
  aSkipped :: bool
  aReasonCode :: string
  aMessage :: string
  aBodyMessage :: string
  aRemovedPackages :: "string list"
  aAuditStatus :: string
  aAuditMessage :: string
  aAuditMeta :: "(string \<times> meta_value) list"
  aJobSummary :: string
  aSuccessMessage :: string
  aRunnerApprovalLog :: string
  aRunnerCommandLog :: string
  aRunnerErrorLog :: string
  aSkipUpgrade :: bool
  aStateOptions :: approval_state_options

text \<open>The zero value of \<open>ApprovalScopeInterpretation\<close>.\<close>

definition no_interpretation :: approval_interpretation where
  "no_interpretation = \<lparr>aScope = [], aSelectedPackages = [], aCommandMode = [], aCommand = [], aAllowed = False,
     aBlocked = False, aSkipped = False, aReasonCode = [], aMessage = [], aBodyMessage = [], aRemovedPackages = [],
     aAuditStatus = [], aAuditMessage = [], aAuditMeta = [], aJobSummary = [], aSuccessMessage = [],
     aRunnerApprovalLog = [], aRunnerCommandLog = [], aRunnerErrorLog = [], aSkipUpgrade = False,
     aStateOptions = \<lparr>soApproveStatus = [], soClearPending = False, soConfirmRemovals = False\<rparr>\<rparr>"

definition approvalSuccessMessage :: "string \<Rightarrow> string" where
  "approvalSuccessMessage scope =
     (if scope = ApprovalScopeSecurity then ''Security updates approved''
      else if scope = ApprovalScopeSecurityKeptBack then ''Kept-back security updates approved''
      else if scope = ApprovalScopeFullUpgrade then ''Full upgrade approved''
      else ''All pending updates approved'')"

definition approvalJobSummary :: "string \<Rightarrow> string" where
  "approvalJobSummary scope =
     (if scope = ApprovalScopeSecurity then ''Security updates approved''
      else if scope = ApprovalScopeSecurityKeptBack then ''Kept-back security updates approved''
      else if scope = ApprovalScopeFullUpgrade then ''Full upgrade approved''
      else ''All pending updates approved'')"

definition deferral_meta :: "upgrade_plan \<Rightarrow> (string \<times> meta_value) list \<Rightarrow> (string \<times> meta_value) list" where
  "deferral_meta plan meta =
     AList.update ''deferred_packages'' (MetaList (DeferredPackages plan))
       (AList.update ''package_deferrals'' (MetaDeferrals (PackageDeferrals plan)) meta)"

definition allowedManualApproval :: "server_status option \<Rightarrow> string \<Rightarrow> bool \<Rightarrow> approval_interpretation" where
  "allowedManualApproval status scope confirmRemovals =
     (let result = no_interpretation\<lparr>aScope := scope, aAllowed := True, aReasonCode := ''allowed'', aAuditStatus := ''success'',
            aAuditMeta := [(''scope'', MetaText scope)],
            aStateOptions := \<lparr>soApproveStatus = ''approved'', soClearPending = False, soConfirmRemovals = confirmRemovals\<rparr>,
            aSuccessMessage := approvalSuccessMessage scope, aJobSummary := approvalJobSummary scope,
            aAuditMessage := approvalSuccessMessage scope, aMessage := approvalSuccessMessage scope,
            aBodyMessage := approvalSuccessMessage scope\<rparr>
      in case status of None \<Rightarrow> result
         | Some st \<Rightarrow> result\<lparr>aAuditMeta := deferral_meta (stUpgradePlan st) (aAuditMeta result)\<rparr>)"

definition blockedApproval :: "string \<Rightarrow> string \<Rightarrow> string \<Rightarrow> string \<Rightarrow> string \<Rightarrow> string list \<Rightarrow> approval_interpretation" where
  "blockedApproval scope reason auditStatus auditMessage bodyMessage removed =
     no_interpretation\<lparr>aScope := scope, aAllowed := False, aBlocked := (auditStatus = ''blocked''), aReasonCode := reason,
       aMessage := auditMessage, aBodyMessage := bodyMessage, aRemovedPackages := removed, aAuditStatus := auditStatus,
       aAuditMessage := auditMessage,
       aAuditMeta := (''scope'', MetaText scope) # (if removed \<noteq> [] then [(''removed_packages'', MetaList removed)] else [])\<rparr>"

definition blockedRunner :: "approval_interpretation \<Rightarrow> string \<Rightarrow> string \<Rightarrow> approval_interpretation" where
  "blockedRunner result reason message =
     result\<lparr>aAllowed := False, aBlocked := True, aReasonCode := reason, aMessage := message,
       aRunnerErrorLog := [CHR 0x0A] @ ''Error: '' @ message, aCommand := []\<rparr>"

definition manualAutoApproval :: "string \<Rightarrow> string \<Rightarrow> string \<Rightarrow> approval_interpretation" where
  "manualAutoApproval scope reason logMessage =
     no_interpretation\<lparr>aScope := scope, aAllowed := False, aReasonCode := reason, aRunnerCommandLog := logMessage\<rparr>"

text \<open>The test that every decision starts with when deferrals are active. A missing entry of the map
  reads as the zero plan.\<close>

definition deferral_conflict :: "upgrade_plan \<Rightarrow> string \<Rightarrow> string option" where
  "deferral_conflict plan scope =
     (if snRules (PackageDeferrals plan) = [] then None
      else case map_of (DeferralScopes plan) scope of
        None \<Rightarrow> Some []
      | Some p \<Rightarrow> if sAvailable p then None else Some (sBlockReason p))"

subsection \<open>Decisions\<close>

definition EvaluateManualApproval :: "server_status option \<Rightarrow> string \<Rightarrow> bool \<Rightarrow> approval_interpretation" where
  "EvaluateManualApproval status scope confirmRemovals =
     (let normalized = NormalizeApprovalScope scope;
          result = allowedManualApproval status normalized confirmRemovals in
      case status of None \<Rightarrow> result
      | Some st \<Rightarrow>
          let plan = stUpgradePlan st; pending = stPendingUpdates st in
          case deferral_conflict plan normalized of
            Some reason \<Rightarrow> blockedApproval normalized ''package_deferral_conflict'' ''blocked'' reason reason []
          | None \<Rightarrow>
              if normalized = ApprovalScopeSecurityKeptBack then
                (let packages = KeptBackSecurityPackagesFromPendingUpdates pending in
                 if packages = []
                 then blockedApproval normalized ''no_kept_back_security_updates'' ''ignored''
                        ''No kept-back security updates pending'' ''No kept-back security updates pending'' []
                 else if \<not> KeptBackSecurityPlanAvailable plan
                 then blockedApproval normalized ''kept_back_security_simulation_required'' ''blocked''
                        ''Kept-back security upgrade requires a fresh targeted simulation''
                        ''Kept-back security upgrade requires a fresh package scan'' []
                 else if KeptBackSecurityRemovedPackages plan \<noteq> [] \<and> \<not> confirmRemovals
                 then blockedApproval normalized ''kept_back_security_removals_unconfirmed'' ''blocked''
                        ''Kept-back security upgrade requires package removal confirmation''
                        ''Kept-back security upgrade may remove packages; confirmation required''
                        (KeptBackSecurityRemovedPackages plan)
                 else result\<lparr>aSelectedPackages := packages,
                        aAuditMeta := deferral_meta plan
                          [(''scope'', MetaText normalized), (''approved_packages'', MetaList packages),
                           (''new_packages'', MetaList (KeptBackSecurityNewPackages plan)),
                           (''removed_packages'', MetaList (KeptBackSecurityRemovedPackages plan))]\<rparr>)
              else if normalized = ApprovalScopeFullUpgrade then
                (if \<not> FullUpgradePlanAvailable plan
                 then blockedApproval normalized ''full_upgrade_simulation_required'' ''blocked''
                        ''Full upgrade requires a fresh full-upgrade simulation''
                        ''Full upgrade requires a fresh package scan'' []
                 else if FullUpgradeRemovedPackages plan \<noteq> [] \<and> \<not> confirmRemovals
                 then blockedApproval normalized ''full_upgrade_removals_unconfirmed'' ''blocked''
                        ''Full upgrade requires package removal confirmation''
                        ''Full upgrade would remove packages; confirmation required'' (FullUpgradeRemovedPackages plan)
                 else result\<lparr>aSelectedPackages := FullUpgradePackagesFromPendingUpdates pending,
                        aAuditMeta := deferral_meta plan
                          [(''scope'', MetaText normalized),
                           (''removed_packages'', MetaList (FullUpgradeRemovedPackages plan))]\<rparr>)
              else result\<lparr>aSelectedPackages :=
                      (if normalized = ApprovalScopeSecurity then SecurityPackagesFromPendingUpdates pending
                       else PackageNamesFromPendingUpdates pending),
                     aAuditMeta := deferral_meta plan (aAuditMeta result)\<rparr>)"

definition approved_base :: "string \<Rightarrow> pending_update list \<Rightarrow> bool \<Rightarrow> approval_interpretation" where
  "approved_base normalized pending confirmRemovals =
     no_interpretation\<lparr>aScope := normalized, aSelectedPackages := PackagesForApprovalScope normalized pending,
       aAllowed := True, aReasonCode := ''allowed'',
       aStateOptions := \<lparr>soApproveStatus = [], soClearPending = True, soConfirmRemovals = confirmRemovals\<rparr>\<rparr>"

definition skippedRunner :: "approval_interpretation \<Rightarrow> string \<Rightarrow> string \<Rightarrow> approval_interpretation" where
  "skippedRunner result reason log =
     result\<lparr>aAllowed := False, aSkipped := True, aSkipUpgrade := True, aCommandMode := ''no_upgrade_skipped'',
       aReasonCode := reason, aRunnerApprovalLog := log\<rparr>"

abbreviation newline :: string where "newline \<equiv> [CHR 0x0A]"

text \<open>The \<open>switch\<close> over the scopes that have something to do: the command, or a block.\<close>

definition scope_command ::
  "string \<Rightarrow> upgrade_plan \<Rightarrow> bool \<Rightarrow> approval_interpretation \<Rightarrow> approval_interpretation" where
  "scope_command normalized plan confirmRemovals result =
     (let selected = aSelectedPackages result; count = itoa (int (length selected)) in
      if normalized = ApprovalScopeSecurity then
        (let r = result\<lparr>aRunnerApprovalLog := newline @ ''Approval received: security-only upgrade ('' @ count @ '' package(s)).'',
               aCommand := BuildSelectedUpgradeCmd selected, aCommandMode := ''security_upgrade'',
               aRunnerCommandLog := newline @ ''Running security-only apt upgrade...''\<rparr>
         in if aCommand r = [] then blockedRunner r ''security_command_unavailable''
              ''could not build security-only apt command from approved package set'' else r)
      else if normalized = ApprovalScopeSecurityKeptBack then
        (let r = result\<lparr>aRunnerApprovalLog := newline @ ''Approval received: kept-back security upgrade ('' @ count @ '' package(s)).''\<rparr> in
         if \<not> KeptBackSecurityPlanAvailable plan
         then blockedRunner r ''kept_back_security_simulation_required''
                ''kept-back security upgrade requires a fresh targeted simulation''
         else if KeptBackSecurityRemovedPackages plan \<noteq> [] \<and> \<not> confirmRemovals
         then blockedRunner r ''kept_back_security_removals_unconfirmed''
                ''kept-back security upgrade would remove packages but removal confirmation was not recorded''
         else let r' = r\<lparr>aCommand := buildSelectedInstallCmd selected False
                            (\<not> confirmRemovals \<or> KeptBackSecurityRemovedPackages plan = []),
                          aCommandMode := ''kept_back_security_install'',
                          aRunnerCommandLog := newline @ ''Running kept-back security apt install...''\<rparr>
              in if aCommand r' = [] then blockedRunner r' ''kept_back_security_command_unavailable''
                   ''could not build kept-back security apt command from approved package set'' else r')
      else if normalized = ApprovalScopeFullUpgrade then
        (let r = result\<lparr>aRunnerApprovalLog := newline @ ''Approval received: full upgrade ('' @ count @ '' package(s), ''
               @ itoa (int (length (FullUpgradeNewPackages plan))) @ '' new, ''
               @ itoa (int (length (FullUpgradeRemovedPackages plan))) @ '' remove).''\<rparr> in
         if \<not> FullUpgradePlanAvailable plan
         then blockedRunner r ''full_upgrade_simulation_required'' ''full upgrade requires a successful full-upgrade simulation''
         else if FullUpgradeRemovedPackages plan \<noteq> [] \<and> \<not> confirmRemovals
         then blockedRunner r ''full_upgrade_removals_unconfirmed''
                ''full upgrade would remove packages but removal confirmation was not recorded''
         else r\<lparr>aCommand := (if \<not> confirmRemovals \<or> FullUpgradeRemovedPackages plan = []
                             then AptFullUpgradeNoRemoveCmd else AptFullUpgradeCmd),
                aCommandMode := ''apt_full_upgrade'', aRunnerCommandLog := newline @ ''Running apt full-upgrade...''\<rparr>)
      else result\<lparr>aRunnerApprovalLog := newline @ ''Approval received: all pending upgrades.'', aCommand := AptUpgradeCmd,
             aCommandMode := ''apt_upgrade'', aRunnerCommandLog := newline @ ''Running apt upgrade...''\<rparr>)"

definition InterpretApprovedScope ::
  "(string \<Rightarrow> int option) \<Rightarrow> string \<Rightarrow> pending_update list \<Rightarrow> upgrade_plan \<Rightarrow> bool \<Rightarrow> approval_interpretation" where
  "InterpretApprovedScope parse scope pending plan confirmRemovals =
     (let normalized = NormalizeApprovalScope scope;
          result = approved_base normalized pending confirmRemovals;
          selected = aSelectedPackages result;
          deferring = (snRules (PackageDeferrals plan) \<noteq> []) in
      case deferral_conflict plan normalized of
        Some reason \<Rightarrow> blockedRunner result ''package_deferral_conflict'' reason
      | None \<Rightarrow>
          if deferring \<and> selected = [] then
            skippedRunner result ''all_packages_deferred''
              (newline @ ''All packages in this scope are deferred; no package mutation performed.'')
          else if normalized = ApprovalScopeSecurity \<and> selected = [] then
            skippedRunner result ''no_security_updates''
              (newline @ ''Approval received: security-only upgrade.'' @ newline
               @ ''No security upgrades detected in pending package set; skipped upgrade.'')
          else if normalized = ApprovalScopeSecurityKeptBack \<and> selected = [] then
            skippedRunner result ''no_kept_back_security_upgrades''
              (newline @ ''Approval received: kept-back security upgrade.'' @ newline
               @ ''No kept-back security upgrades detected in pending package set; skipped upgrade.'')
          else
            let r = scope_command normalized plan confirmRemovals result in
            if aBlocked r then r
            else if deferring then
              (let r' = r\<lparr>aCommand := BuildDeferredUpgradeCommand parse normalized plan confirmRemovals\<rparr> in
               if aCommand r' = [] then blockedRunner r' ''package_deferral_guard_unavailable''
                 ''Protected APT command unavailable; update the managed helper and rescan'' else r')
            else r)"

definition EvaluateAutoApproval :: "string \<Rightarrow> pending_update list \<Rightarrow> upgrade_plan \<Rightarrow> approval_interpretation" where
  "EvaluateAutoApproval scope pending plan =
     (if trim_space scope = [] then no_interpretation\<lparr>aReasonCode := ''no_auto_approval_scope''\<rparr>
      else let normalized = NormalizeApprovalScope scope in
        case deferral_conflict plan normalized of
          Some reason \<Rightarrow> manualAutoApproval normalized ''package_deferral_conflict'' (newline @ reason)
        | None \<Rightarrow>
            if normalized = ApprovalScopeSecurityKeptBack then
              manualAutoApproval normalized ''manual_approval_required''
                (newline @ ''Kept-back security updates require manual approval after targeted simulation.'')
            else if normalized = ApprovalScopeFullUpgrade \<and> \<not> FullUpgradePlanAvailable plan then
              manualAutoApproval normalized ''full_upgrade_simulation_required''
                (newline @ ''Scheduled full-upgrade requires a successful full-upgrade simulation before it can run.'')
            else if normalized = ApprovalScopeFullUpgrade \<and> FullUpgradeRemovedPackages plan \<noteq> [] then
              manualAutoApproval normalized ''full_upgrade_removals_unconfirmed''
                (newline @ ''Scheduled full-upgrade requires manual confirmation because package removals were detected.'')
            else no_interpretation\<lparr>aScope := normalized, aSelectedPackages := PackagesForApprovalScope normalized pending,
                   aAllowed := True, aReasonCode := ''allowed'',
                   aStateOptions := \<lparr>soApproveStatus = ''approved'', soClearPending = False, soConfirmRemovals = False\<rparr>\<rparr>)"

record approval_availability =
  CanApproveAll :: bool
  CanApproveSecurity :: bool
  CanApproveKeptBackSecurity :: bool
  CanApproveFull :: bool

definition ApprovalAvailability :: "server_status option \<Rightarrow> approval_availability" where
  "ApprovalAvailability status =
     (let nothing = \<lparr>CanApproveAll = False, CanApproveSecurity = False, CanApproveKeptBackSecurity = False, CanApproveFull = False\<rparr> in
      case status of None \<Rightarrow> nothing
      | Some st \<Rightarrow>
          if to_lower (trim_space (stStatus st)) \<noteq> StatusPendingApproval then nothing
          else let plan = stUpgradePlan st in
            if snRules (PackageDeferrals plan) \<noteq> [] then
              (let ready = (\<lambda>scope. case map_of (DeferralScopes plan) scope of
                     None \<Rightarrow> False | Some p \<Rightarrow> sAvailable p \<and> sSelectedPackages p \<noteq> [])
               in \<lparr>CanApproveAll = ready ApprovalScopeAll, CanApproveSecurity = ready ApprovalScopeSecurity,
                   CanApproveKeptBackSecurity = ready ApprovalScopeSecurityKeptBack,
                   CanApproveFull = ready ApprovalScopeFullUpgrade\<rparr>)
            else if 0 < StandardPackageCount plan \<or> 0 < KeptBackPackageCount plan \<or> 0 < FullUpgradePackageCount plan then
              \<lparr>CanApproveAll = (0 < StandardPackageCount plan), CanApproveSecurity = (0 < StandardSecurityCount plan),
               CanApproveKeptBackSecurity =
                 (0 < TotalSecurityCount plan - StandardSecurityCount plan \<and> KeptBackSecurityPlanAvailable plan),
               CanApproveFull = (FullUpgradePlanAvailable plan \<and> (0 < KeptBackPackageCount plan
                 \<or> FullUpgradeNewPackages plan \<noteq> [] \<or> FullUpgradeRemovedPackages plan \<noteq> []))\<rparr>
            else let standard = filter (\<lambda>u. \<not> (uRequiresFull u \<or> uKeptBack u)) (stPendingUpdates st)
              in nothing\<lparr>CanApproveAll := (standard \<noteq> []), CanApproveSecurity := list_ex uSecurity standard\<rparr>)"

subsection \<open>Revalidation\<close>

definition approvalPackageSetsEqual :: "string list \<Rightarrow> string list \<Rightarrow> bool" where
  "approvalPackageSetsEqual a b \<longleftrightarrow> remdups_adj (sort a) = remdups_adj (sort b)"

definition approvalRemovals :: "string \<Rightarrow> upgrade_plan \<Rightarrow> string list" where
  "approvalRemovals scope plan =
     (if scope = ApprovalScopeFullUpgrade then FullUpgradeRemovedPackages plan
      else if scope = ApprovalScopeSecurityKeptBack then KeptBackSecurityRemovedPackages plan else [])"

definition approvalNewPackages :: "string \<Rightarrow> upgrade_plan \<Rightarrow> string list" where
  "approvalNewPackages scope plan =
     (if scope = ApprovalScopeFullUpgrade then FullUpgradeNewPackages plan
      else if scope = ApprovalScopeSecurityKeptBack then KeptBackSecurityNewPackages plan else [])"

record approval_identity =
  iPackage :: string
  iInstallPackage :: string
  iCurrentVersion :: string
  iCandidateVersion :: string
  iSource :: string
  iRaw :: string
  iSourcePackage :: string
  iInstalledSourceVersion :: string
  iCandidateSourceVersion :: string
  iSecurity :: bool
  iKeptBack :: bool
  iRequiresFull :: bool

definition identity_of :: "pending_update \<Rightarrow> approval_identity" where
  "identity_of u = \<lparr>iPackage = uPackage u, iInstallPackage = uInstallPackage u, iCurrentVersion = uCurrentVersion u,
     iCandidateVersion = uCandidateVersion u, iSource = uSource u, iRaw = uRaw u, iSourcePackage = uSourcePackage u,
     iInstalledSourceVersion = uInstalledSourceVersion u, iCandidateSourceVersion = uCandidateSourceVersion u,
     iSecurity = uSecurity u, iKeptBack = uKeptBack u, iRequiresFull = uRequiresFull u\<rparr>"

definition identity_selector :: "string \<Rightarrow> pending_update \<Rightarrow> string" where
  "identity_selector scope u =
     (if NormalizeApprovalScope scope = ApprovalScopeSecurityKeptBack \<and> trim_space (uInstallPackage u) \<noteq> []
      then trim_space (uInstallPackage u) else uPackage u)"

definition selected_identities :: "string \<Rightarrow> pending_update list \<Rightarrow> string list \<Rightarrow> approval_identity list" where
  "selected_identities scope updates selected =
     map identity_of (filter (\<lambda>u. identity_selector scope u \<in> set selected) updates)"

text \<open>\<open>slices.SortFunc\<close> compares six of the fields and is not stable, so \<open>srt\<close> is a parameter: some
  rearrangement of its argument.\<close>

definition approvalSelectedPackagesEqual ::
  "(approval_identity list \<Rightarrow> approval_identity list) \<Rightarrow> string \<Rightarrow> pending_update list \<Rightarrow> pending_update list \<Rightarrow> bool" where
  "approvalSelectedPackagesEqual srt scope previous fresh =
     (let selectedBefore = PackagesForApprovalScope scope previous; selectedAfter = PackagesForApprovalScope scope fresh in
      approvalPackageSetsEqual selectedBefore selectedAfter
      \<and> srt (selected_identities scope previous selectedBefore) = srt (selected_identities scope fresh selectedAfter))"

text \<open>\<open>reflect.DeepEqual\<close> of the two maps.\<close>

definition same_scopes :: "(string \<times> deferral_scope_plan) list \<Rightarrow> (string \<times> deferral_scope_plan) list \<Rightarrow> bool" where
  "same_scopes a b \<longleftrightarrow> list_all (\<lambda>k. map_of a k = map_of b k) (map fst a @ map fst b)"

text \<open>The comparison at the end of \<open>revalidateApproval\<close>: whether the plan changed since it was approved.\<close>

definition approval_changed ::
  "(approval_identity list \<Rightarrow> approval_identity list) \<Rightarrow> string \<Rightarrow> discovery_outcome \<Rightarrow> discovery_outcome \<Rightarrow> bool" where
  "approval_changed srt scope previous fresh \<longleftrightarrow>
     snRevision (PackageDeferrals (doUpgradePlan previous)) \<noteq> snRevision (PackageDeferrals (doUpgradePlan fresh))
   \<or> \<not> same_scopes (DeferralScopes (doUpgradePlan previous)) (DeferralScopes (doUpgradePlan fresh))
   \<or> \<not> approvalPackageSetsEqual (approvalRemovals scope (doUpgradePlan previous)) (approvalRemovals scope (doUpgradePlan fresh))
   \<or> \<not> approvalPackageSetsEqual (approvalNewPackages scope (doUpgradePlan previous)) (approvalNewPackages scope (doUpgradePlan fresh))
   \<or> \<not> approvalSelectedPackagesEqual srt scope (doPendingUpdates previous) (doPendingUpdates fresh)"

definition remediationDiscoveryEqual ::
  "(approval_identity list \<Rightarrow> approval_identity list) \<Rightarrow> discovery_outcome \<Rightarrow> discovery_outcome \<Rightarrow> bool" where
  "remediationDiscoveryEqual srt a b =
     (let ap = doUpgradePlan a; bp = doUpgradePlan b in
      approvalSelectedPackagesEqual srt ApprovalScopeFullUpgrade (doPendingUpdates a) (doPendingUpdates b)
      \<and> FullUpgradeSimulationDigest ap = FullUpgradeSimulationDigest bp
      \<and> KeptBackSecuritySimulationDigest ap = KeptBackSecuritySimulationDigest bp
      \<and> snRevision (PackageDeferrals ap) = snRevision (PackageDeferrals bp)
      \<and> same_scopes (DeferralScopes ap) (DeferralScopes bp)
      \<and> FullUpgradePlanAvailable ap = FullUpgradePlanAvailable bp
      \<and> KeptBackSecurityPlanAvailable ap = KeptBackSecurityPlanAvailable bp
      \<and> approvalPackageSetsEqual (FullUpgradeNewPackages ap) (FullUpgradeNewPackages bp)
      \<and> approvalPackageSetsEqual (FullUpgradeRemovedPackages ap) (FullUpgradeRemovedPackages bp)
      \<and> approvalPackageSetsEqual (KeptBackSecurityNewPackages ap) (KeptBackSecurityNewPackages bp)
      \<and> approvalPackageSetsEqual (KeptBackSecurityRemovedPackages ap) (KeptBackSecurityRemovedPackages bp))"

subsection \<open>Lemmas\<close>

lemma normalized_scope:
  "NormalizeApprovalScope scope = ApprovalScopeSecurity \<or> NormalizeApprovalScope scope = ApprovalScopeSecurityKeptBack
   \<or> NormalizeApprovalScope scope = ApprovalScopeFullUpgrade \<or> NormalizeApprovalScope scope = ApprovalScopeAll"
  by (simp add: NormalizeApprovalScope_def Let_def)

lemma normalized_constants [simp]:
  "NormalizeApprovalScope ApprovalScopeSecurity = ApprovalScopeSecurity"
  "NormalizeApprovalScope ApprovalScopeSecurityKeptBack = ApprovalScopeSecurityKeptBack"
  "NormalizeApprovalScope ApprovalScopeFullUpgrade = ApprovalScopeFullUpgrade"
  "NormalizeApprovalScope ApprovalScopeAll = ApprovalScopeAll"
  by code_simp+

lemma normalize_idem [simp]: "NormalizeApprovalScope (NormalizeApprovalScope scope) = NormalizeApprovalScope scope"
  using normalized_scope [of scope] by auto

lemma normalized_selection [simp]:
  "PackagesForApprovalScope (NormalizeApprovalScope scope) pending = PackagesForApprovalScope scope pending"
  by (simp add: PackagesForApprovalScope_def)

text \<open>Consent: the removals of the scope are confirmed or there are none, and the plan of the scope was
  simulated.\<close>

definition scope_consented :: "string \<Rightarrow> upgrade_plan \<Rightarrow> bool \<Rightarrow> bool" where
  "scope_consented normalized plan confirmRemovals \<longleftrightarrow>
     (approvalRemovals normalized plan = [] \<or> confirmRemovals)
     \<and> (normalized = ApprovalScopeSecurityKeptBack \<longrightarrow> KeptBackSecurityPlanAvailable plan)
     \<and> (normalized = ApprovalScopeFullUpgrade \<longrightarrow> FullUpgradePlanAvailable plan)"

lemma manual_allowed_iff:
  "aAllowed (EvaluateManualApproval (Some st) scope c) \<longleftrightarrow>
     deferral_conflict (stUpgradePlan st) (NormalizeApprovalScope scope) = None
     \<and> scope_consented (NormalizeApprovalScope scope) (stUpgradePlan st) c
     \<and> (NormalizeApprovalScope scope = ApprovalScopeSecurityKeptBack \<longrightarrow> PackagesForApprovalScope scope (stPendingUpdates st) \<noteq> [])"
  using normalized_scope [of scope]
  by (elim disjE)
    (auto simp: EvaluateManualApproval_def Let_def blockedApproval_def no_interpretation_def allowedManualApproval_def
      scope_consented_def approvalRemovals_def PackagesForApprovalScope_def split: option.splits)

lemma manual_selection:
  "aAllowed (EvaluateManualApproval (Some st) scope c) \<Longrightarrow>
     aSelectedPackages (EvaluateManualApproval (Some st) scope c) = PackagesForApprovalScope scope (stPendingUpdates st)"
  using normalized_scope [of scope]
  by (elim disjE)
    (auto simp: EvaluateManualApproval_def Let_def blockedApproval_def no_interpretation_def PackagesForApprovalScope_def
      split: option.splits if_splits)

lemma auto_allowed_iff:
  "aAllowed (EvaluateAutoApproval scope pending plan) \<longleftrightarrow>
     trim_space scope \<noteq> [] \<and> deferral_conflict plan (NormalizeApprovalScope scope) = None
     \<and> NormalizeApprovalScope scope \<noteq> ApprovalScopeSecurityKeptBack
     \<and> scope_consented (NormalizeApprovalScope scope) plan False"
  using normalized_scope [of scope]
  by (elim disjE)
    (auto simp: EvaluateAutoApproval_def Let_def manualAutoApproval_def no_interpretation_def scope_consented_def
      approvalRemovals_def split: option.splits)

lemma auto_selection:
  "aAllowed (EvaluateAutoApproval scope pending plan) \<Longrightarrow>
     aSelectedPackages (EvaluateAutoApproval scope pending plan) = PackagesForApprovalScope scope pending"
  by (auto simp: EvaluateAutoApproval_def Let_def manualAutoApproval_def no_interpretation_def split: option.splits if_splits)

text \<open>The command of a scope without deferrals.\<close>

definition plain_command :: "string \<Rightarrow> upgrade_plan \<Rightarrow> bool \<Rightarrow> string list \<Rightarrow> string" where
  "plain_command normalized plan c selected =
     (let noRemove = (\<not> c \<or> approvalRemovals normalized plan = []) in
      if normalized = ApprovalScopeSecurity then buildSelectedInstallCmd selected True True
      else if normalized = ApprovalScopeSecurityKeptBack then buildSelectedInstallCmd selected False noRemove
      else if normalized = ApprovalScopeFullUpgrade then (if noRemove then AptFullUpgradeNoRemoveCmd else AptFullUpgradeCmd)
      else AptUpgradeCmd)"

lemma scope_command_blocked:
  assumes "\<not> aBlocked r" and "n = ApprovalScopeSecurity \<or> n = ApprovalScopeSecurityKeptBack \<or> n = ApprovalScopeFullUpgrade \<or> n = ApprovalScopeAll"
  shows "aBlocked (scope_command n plan c r) \<longleftrightarrow>
     \<not> scope_consented n plan c \<or> (n \<in> {ApprovalScopeSecurity, ApprovalScopeSecurityKeptBack} \<and> plain_command n plan c (aSelectedPackages r) = [])"
  using assms
  by (elim disjE) (auto simp: scope_command_def Let_def blockedRunner_def scope_consented_def approvalRemovals_def
      plain_command_def BuildSelectedUpgradeCmd_def)

lemma scope_command_free:
  assumes "\<not> aBlocked (scope_command n plan c r)"
    and "n = ApprovalScopeSecurity \<or> n = ApprovalScopeSecurityKeptBack \<or> n = ApprovalScopeFullUpgrade \<or> n = ApprovalScopeAll"
  shows "aCommand (scope_command n plan c r) = plain_command n plan c (aSelectedPackages r)"
    "aAllowed (scope_command n plan c r) = aAllowed r" "aSelectedPackages (scope_command n plan c r) = aSelectedPackages r"
    "aSkipped (scope_command n plan c r) = aSkipped r"
  using assms
  by (elim disjE; auto simp: scope_command_def Let_def blockedRunner_def approvalRemovals_def
      plain_command_def BuildSelectedUpgradeCmd_def split: if_splits)+

lemma approved_base_simps [simp]:
  "aAllowed (approved_base n pending c)" "\<not> aBlocked (approved_base n pending c)" "\<not> aSkipped (approved_base n pending c)"
  "aSelectedPackages (approved_base n pending c) = PackagesForApprovalScope n pending"
  by (simp_all add: approved_base_def no_interpretation_def)

definition executed_command :: "(string \<Rightarrow> int option) \<Rightarrow> string \<Rightarrow> upgrade_plan \<Rightarrow> bool \<Rightarrow> string list \<Rightarrow> string" where
  "executed_command parse n plan c selected =
     (if snRules (PackageDeferrals plan) = [] then plain_command n plan c selected else BuildDeferredUpgradeCommand parse n plan c)"

lemma first_three_rejected:
  assumes "P (if a then x else if b then y else if c then z else w)" and "\<not> P x" and "\<not> P y" and "\<not> P z"
  shows "\<not> a \<and> \<not> b \<and> \<not> c"
  using assms by (auto split: if_splits)

lemma apt_commands_nonempty: "AptUpgradeCmd \<noteq> []" "AptFullUpgradeNoRemoveCmd \<noteq> []" "AptFullUpgradeCmd \<noteq> []"
  by code_simp+

text \<open>The approval is interpreted as an upgrade exactly when nothing stands against it, and then with the
  command of its scope.\<close>

lemma runner_allowed_form:
  assumes "aAllowed (InterpretApprovedScope parse scope pending plan c)"
  shows "deferral_conflict plan (NormalizeApprovalScope scope) = None"
    "NormalizeApprovalScope scope = ApprovalScopeSecurityKeptBack \<Longrightarrow> PackagesForApprovalScope scope pending \<noteq> []"
    "\<exists>r command. r = scope_command (NormalizeApprovalScope scope) plan c (approved_base (NormalizeApprovalScope scope) pending c)
       \<and> \<not> aBlocked r \<and> command = (if snRules (PackageDeferrals plan) = [] then aCommand r
            else BuildDeferredUpgradeCommand parse (NormalizeApprovalScope scope) plan c)
       \<and> InterpretApprovedScope parse scope pending plan c = r\<lparr>aCommand := command\<rparr>"
    "snRules (PackageDeferrals plan) \<noteq> [] \<Longrightarrow> BuildDeferredUpgradeCommand parse (NormalizeApprovalScope scope) plan c \<noteq> []"
proof -
  let ?n = "NormalizeApprovalScope scope"
  let ?r = "scope_command ?n plan c (approved_base ?n pending c)"
  show conflict: "deferral_conflict plan ?n = None"
    using assms by (cases "deferral_conflict plan ?n") (simp_all add: InterpretApprovedScope_def Let_def blockedRunner_def)
  have skipped: "\<not> aAllowed (skippedRunner r reason log)" for r reason log by (simp add: skippedRunner_def)
  have "\<not> (snRules (PackageDeferrals plan) \<noteq> [] \<and> PackagesForApprovalScope scope pending = [])
      \<and> \<not> (?n = ApprovalScopeSecurity \<and> PackagesForApprovalScope scope pending = [])
      \<and> \<not> (?n = ApprovalScopeSecurityKeptBack \<and> PackagesForApprovalScope scope pending = [])"
    by (rule first_three_rejected [where P = aAllowed, OF _ skipped skipped skipped],
        rule assms [unfolded InterpretApprovedScope_def Let_def approved_base_simps normalized_selection conflict option.case(1)])
  then have work: "\<not> (snRules (PackageDeferrals plan) \<noteq> [] \<and> PackagesForApprovalScope scope pending = [])"
    "\<not> (?n = ApprovalScopeSecurity \<and> PackagesForApprovalScope scope pending = [])"
    "\<not> (?n = ApprovalScopeSecurityKeptBack \<and> PackagesForApprovalScope scope pending = [])"
    by blast+
  then show "PackagesForApprovalScope scope pending \<noteq> []" if "?n = ApprovalScopeSecurityKeptBack" using that by blast
  have go: "InterpretApprovedScope parse scope pending plan c =
      (if aBlocked ?r then ?r else if snRules (PackageDeferrals plan) = [] then ?r
       else if BuildDeferredUpgradeCommand parse ?n plan c = []
         then blockedRunner (?r\<lparr>aCommand := BuildDeferredUpgradeCommand parse ?n plan c\<rparr>) ''package_deferral_guard_unavailable''
                 ''Protected APT command unavailable; update the managed helper and rescan''
         else ?r\<lparr>aCommand := BuildDeferredUpgradeCommand parse ?n plan c\<rparr>)"
    using conflict unfolding InterpretApprovedScope_def Let_def approved_base_simps normalized_selection
      if_not_P [OF work(1)] if_not_P [OF work(2)] if_not_P [OF work(3)] by simp
  have "aBlocked ?r \<Longrightarrow> \<not> aAllowed ?r"
    using normalized_scope [of scope] by (elim disjE) (auto simp: scope_command_def Let_def blockedRunner_def split: if_splits)
  then have "\<not> aBlocked ?r" using assms go by auto
  then show "\<exists>r command. r = ?r \<and> \<not> aBlocked r \<and> command = (if snRules (PackageDeferrals plan) = [] then aCommand r
            else BuildDeferredUpgradeCommand parse ?n plan c) \<and> InterpretApprovedScope parse scope pending plan c = r\<lparr>aCommand := command\<rparr>"
    using assms go by (auto simp: blockedRunner_def split: if_splits)
  show "BuildDeferredUpgradeCommand parse ?n plan c \<noteq> []" if "snRules (PackageDeferrals plan) \<noteq> []"
    using that assms go \<open>\<not> aBlocked ?r\<close> by (auto simp: blockedRunner_def)
qed

lemma runner_allowed:
  assumes "aAllowed (InterpretApprovedScope parse scope pending plan c)"
  shows "scope_consented (NormalizeApprovalScope scope) plan c"
    "aSelectedPackages (InterpretApprovedScope parse scope pending plan c) = PackagesForApprovalScope scope pending"
    "aCommand (InterpretApprovedScope parse scope pending plan c)
       = executed_command parse (NormalizeApprovalScope scope) plan c (PackagesForApprovalScope scope pending)"
    "executed_command parse (NormalizeApprovalScope scope) plan c (PackagesForApprovalScope scope pending) \<noteq> []"
proof -
  let ?n = "NormalizeApprovalScope scope"
  let ?b = "approved_base ?n pending c"
  note n = normalized_scope [of scope]
  obtain r where r: "r = scope_command ?n plan c ?b" "\<not> aBlocked r"
    "InterpretApprovedScope parse scope pending plan c = r\<lparr>aCommand :=
      (if snRules (PackageDeferrals plan) = [] then aCommand r else BuildDeferredUpgradeCommand parse ?n plan c)\<rparr>"
    using runner_allowed_form(3) [OF assms] by blast
  note free = scope_command_free [OF r(2) [unfolded r(1)] n, folded r(1)]
  show "scope_consented ?n plan c" using r(2) scope_command_blocked [of ?b ?n plan c, OF _ n] by (simp add: r(1))
  show "aSelectedPackages (InterpretApprovedScope parse scope pending plan c) = PackagesForApprovalScope scope pending"
    "aCommand (InterpretApprovedScope parse scope pending plan c)
       = executed_command parse ?n plan c (PackagesForApprovalScope scope pending)"
    unfolding r(3) by (simp_all add: free executed_command_def)
  have "plain_command ?n plan c (PackagesForApprovalScope scope pending) \<noteq> []"
    using r(2) n scope_command_blocked [of ?b ?n plan c, OF _ n] apt_commands_nonempty normalized_selection [of scope pending]
    by (elim disjE) (simp_all add: r(1) plain_command_def del: normalized_selection)
  then show "executed_command parse ?n plan c (PackagesForApprovalScope scope pending) \<noteq> []"
    using runner_allowed_form(4) [OF assms] by (simp add: executed_command_def)
qed

lemma scope_command_reason:
  assumes "scope_consented n plan c" and "\<not> aBlocked r" and "aBlocked (scope_command n plan c r)"
  shows "aReasonCode (scope_command n plan c r) \<in> {''security_command_unavailable'', ''kept_back_security_command_unavailable''}"
proof -
  consider "n = ApprovalScopeSecurity" | "n = ApprovalScopeSecurityKeptBack" | "n = ApprovalScopeFullUpgrade"
    | "n \<noteq> ApprovalScopeSecurity" "n \<noteq> ApprovalScopeSecurityKeptBack" "n \<noteq> ApprovalScopeFullUpgrade" by blast
  then show ?thesis using assms
    by cases (auto simp: scope_command_def Let_def blockedRunner_def scope_consented_def approvalRemovals_def split: if_splits)
qed

lemma runner_not_blocked:
  assumes "deferral_conflict plan (NormalizeApprovalScope scope) = None"
    and "scope_consented (NormalizeApprovalScope scope) plan c"
  shows "aAllowed (InterpretApprovedScope parse scope pending plan c)
     \<or> aSkipped (InterpretApprovedScope parse scope pending plan c) \<and> PackagesForApprovalScope scope pending = []
     \<or> aReasonCode (InterpretApprovedScope parse scope pending plan c)
         \<in> {''security_command_unavailable'', ''kept_back_security_command_unavailable'', ''package_deferral_guard_unavailable''}"
proof -
  let ?n = "NormalizeApprovalScope scope"
  let ?b = "approved_base ?n pending c"
  have "aAllowed (scope_command ?n plan c ?b)" if "\<not> aBlocked (scope_command ?n plan c ?b)"
    using scope_command_free [OF that normalized_scope] by simp
  then show ?thesis using assms(1) scope_command_reason [OF assms(2), of ?b]
    unfolding InterpretApprovedScope_def Let_def approved_base_simps normalized_selection
    by (auto simp: skippedRunner_def blockedRunner_def)
qed

text \<open>The commands that let APT remove packages are the full upgrade, the install without \<open>--no-remove\<close>
  and the guarded install with \<open>allow-removals\<close>.\<close>

definition forbids_removals :: "(string \<Rightarrow> int option) \<Rightarrow> string \<Rightarrow> upgrade_plan \<Rightarrow> string list \<Rightarrow> string \<Rightarrow> bool" where
  "forbids_removals parse n plan selected command \<longleftrightarrow>
     command \<in> {AptUpgradeCmd, AptFullUpgradeNoRemoveCmd, buildSelectedInstallCmd selected True True,
                buildSelectedInstallCmd selected False True}
     \<or> (\<exists>p. map_of (DeferralScopes plan) n = Some p \<and> sAvailable p
            \<and> command = guarded_command (
                [n, itoa (Deadline parse (PackageDeferrals plan)), itoa (int (length (Selectors (PackageDeferrals plan))))]
                @ Selectors (PackageDeferrals plan) @ [itoa (int (length (sTransaction p)))] @ sTransaction p
                @ [''no-remove''] @ sSelectedPackages p))"

text \<open>The removals of the simulated transaction that a scope executes.\<close>

definition scope_removals :: "string \<Rightarrow> upgrade_plan \<Rightarrow> string list" where
  "scope_removals n plan = (if snRules (PackageDeferrals plan) = [] then approvalRemovals n plan
     else case map_of (DeferralScopes plan) n of Some p \<Rightarrow> sRemovedPackages p | None \<Rightarrow> [])"

lemma guarded_unconfirmed:
  "\<not> c \<or> sRemovedPackages p = [] \<Longrightarrow> guarded_arguments parse n plan p c =
     [n, itoa (Deadline parse (PackageDeferrals plan)), itoa (int (length (Selectors (PackageDeferrals plan))))]
     @ Selectors (PackageDeferrals plan) @ [itoa (int (length (sTransaction p)))] @ sTransaction p
     @ [''no-remove''] @ sSelectedPackages p"
  by (auto simp: guarded_arguments_def Let_def)

lemma plain_command_forbids:
  "\<not> c \<or> approvalRemovals n plan = [] \<Longrightarrow> forbids_removals parse n plan selected (plain_command n plan c selected)"
  by (auto simp: forbids_removals_def plain_command_def Let_def)

lemma deferred_command_forbids:
  assumes "BuildDeferredUpgradeCommand parse n plan c \<noteq> []" and "NormalizeApprovalScope n = n"
    and "\<not> c \<or> (\<forall>p. map_of (DeferralScopes plan) n = Some p \<longrightarrow> sRemovedPackages p = [])"
  shows "forbids_removals parse n plan selected (BuildDeferredUpgradeCommand parse n plan c)"
proof -
  obtain p where p: "map_of (DeferralScopes plan) n = Some p" "sAvailable p"
    "BuildDeferredUpgradeCommand parse n plan c = guarded_command (guarded_arguments parse n plan p c)"
    using assms(1,2) by (auto simp: BuildDeferredUpgradeCommand_def split: option.splits if_splits)
  then have "\<not> c \<or> sRemovedPackages p = []" using assms(3) by blast
  then show ?thesis unfolding p(3) forbids_removals_def guarded_unconfirmed [OF \<open>\<not> c \<or> sRemovedPackages p = []\<close>] using p by blast
qed

lemma distinct_remdups_adj: "sorted xs \<Longrightarrow> distinct (remdups_adj xs)"
  by (induction xs rule: remdups_adj.induct) (auto simp: order.strict_iff_order)

lemma identical_sets:
  "approvalPackageSetsEqual a b \<longleftrightarrow> set a = set b"
proof
  assume "approvalPackageSetsEqual a b"
  then have "set (remdups_adj (sort a)) = set (remdups_adj (sort b))" by (simp add: approvalPackageSetsEqual_def)
  then show "set a = set b" by simp
next
  assume "set a = set b"
  moreover have "distinct (remdups_adj (sort xs))" "sorted (remdups_adj (sort xs))" for xs :: "string list"
    by (simp_all add: distinct_remdups_adj sorted_remdups_adj)
  ultimately show "approvalPackageSetsEqual a b"
    unfolding approvalPackageSetsEqual_def by (intro sorted_distinct_set_unique) simp_all
qed

lemma executed_command_forbids:
  assumes "executed_command parse n plan c selected \<noteq> []" and "NormalizeApprovalScope n = n"
    and "\<not> c \<or> scope_removals n plan = []"
  shows "forbids_removals parse n plan selected (executed_command parse n plan c selected)"
proof (cases "snRules (PackageDeferrals plan) = []")
  case True
  then show ?thesis using assms plain_command_forbids by (auto simp: executed_command_def scope_removals_def)
next
  case False
  then show ?thesis using assms deferred_command_forbids [of parse n plan c selected]
    by (auto simp: executed_command_def scope_removals_def split: option.splits)
qed

text \<open>An update that a scope selects, whose name carries no padding, is compared by its identity.\<close>

lemma selected_identity:
  assumes "u \<in> set updates" and "scope_covers (NormalizeApprovalScope scope) u" and "trim_space (uPackage u) = uPackage u"
    and "scope_name (NormalizeApprovalScope scope) u \<noteq> []"
  shows "identity_of u \<in> set (selected_identities scope updates (PackagesForApprovalScope scope updates))"
proof -
  have "identity_selector scope u = scope_name (NormalizeApprovalScope scope) u"
    using assms(3) by (simp add: identity_selector_def scope_name_def)
  then show ?thesis using assms unfolding selected_identities_def set_PackagesForApprovalScope by auto
qed

lemma same_scopes_map_of:
  assumes "same_scopes a b"
  shows "map_of a = map_of b"
proof
  fix k
  show "map_of a k = map_of b k"
  proof (cases "k \<in> set (map fst a @ map fst b)")
    case True
    then show ?thesis using assms unfolding same_scopes_def list_all_iff by blast
  next
    case False
    then have "map_of a k = None" "map_of b k = None" by (simp_all add: map_of_eq_None_iff)
    then show ?thesis by simp
  qed
qed

subsection \<open>Properties\<close>


text \<open>The decision shown to the operator and the one taken by the runner agree. What the runner
  executes would also be approved now, with the same packages; and an approval of the current plan is
  executed, or skipped because its scope selects nothing, or stopped because no safe command can be
  built from the package names. In particular it is not stopped for missing consent or simulation.\<close>

lemma approval_and_runner_agree:
  "(aAllowed (InterpretApprovedScope parse scope (stPendingUpdates st) (stUpgradePlan st) c)
     \<longrightarrow> aAllowed (EvaluateManualApproval (Some st) scope c))
   \<and> (aAllowed (EvaluateManualApproval (Some st) scope c)
     \<longrightarrow> aSelectedPackages (EvaluateManualApproval (Some st) scope c) = PackagesForApprovalScope scope (stPendingUpdates st)
       \<and> (aAllowed (InterpretApprovedScope parse scope (stPendingUpdates st) (stUpgradePlan st) c)
             \<and> aSelectedPackages (InterpretApprovedScope parse scope (stPendingUpdates st) (stUpgradePlan st) c)
               = aSelectedPackages (EvaluateManualApproval (Some st) scope c)
          \<or> aSkipped (InterpretApprovedScope parse scope (stPendingUpdates st) (stUpgradePlan st) c)
             \<and> aSelectedPackages (EvaluateManualApproval (Some st) scope c) = []
          \<or> aReasonCode (InterpretApprovedScope parse scope (stPendingUpdates st) (stUpgradePlan st) c)
             \<in> {''security_command_unavailable'', ''kept_back_security_command_unavailable'',
                ''package_deferral_guard_unavailable''}))"
proof (intro conjI impI)
  let ?run = "InterpretApprovedScope parse scope (stPendingUpdates st) (stUpgradePlan st) c"
  show "aAllowed (EvaluateManualApproval (Some st) scope c)" if "aAllowed ?run"
    using runner_allowed_form(1,2) [OF that] runner_allowed(1) [OF that] by (simp add: manual_allowed_iff)
next
  let ?run = "InterpretApprovedScope parse scope (stPendingUpdates st) (stUpgradePlan st) c"
  assume man: "aAllowed (EvaluateManualApproval (Some st) scope c)"
  then show sel: "aSelectedPackages (EvaluateManualApproval (Some st) scope c) = PackagesForApprovalScope scope (stPendingUpdates st)"
    by (rule manual_selection)
  have "deferral_conflict (stUpgradePlan st) (NormalizeApprovalScope scope) = None"
    "scope_consented (NormalizeApprovalScope scope) (stUpgradePlan st) c"
    using man by (simp_all add: manual_allowed_iff)
  from runner_not_blocked [OF this, of parse "stPendingUpdates st"]
  show "aAllowed ?run \<and> aSelectedPackages ?run = aSelectedPackages (EvaluateManualApproval (Some st) scope c)
      \<or> aSkipped ?run \<and> aSelectedPackages (EvaluateManualApproval (Some st) scope c) = []
      \<or> aReasonCode ?run \<in> {''security_command_unavailable'', ''kept_back_security_command_unavailable'', ''package_deferral_guard_unavailable''}"
    unfolding sel using runner_allowed(2) [of parse scope "stPendingUpdates st" "stUpgradePlan st" c] by blast
qed

text \<open>C29: Unattended approval is conservative: whatever a policy approves automatically, an operator could
  approve without confirming any removal and with the same packages; it is never the kept-back
  security scope, its plan removes nothing, and if the runner executes it, the command forbids
  removals.\<close>

theorem auto_approval_is_conservative:
  assumes "aAllowed (EvaluateAutoApproval scope (stPendingUpdates st) (stUpgradePlan st))"
  shows "aAllowed (EvaluateManualApproval (Some st) scope False)
     \<and> aSelectedPackages (EvaluateManualApproval (Some st) scope False)
       = aSelectedPackages (EvaluateAutoApproval scope (stPendingUpdates st) (stUpgradePlan st))
     \<and> NormalizeApprovalScope scope \<noteq> ApprovalScopeSecurityKeptBack
     \<and> approvalRemovals (NormalizeApprovalScope scope) (stUpgradePlan st) = []
     \<and> (aAllowed (InterpretApprovedScope parse scope (stPendingUpdates st) (stUpgradePlan st) False)
        \<longrightarrow> forbids_removals parse (NormalizeApprovalScope scope) (stUpgradePlan st) (PackagesForApprovalScope scope (stPendingUpdates st))
             (aCommand (InterpretApprovedScope parse scope (stPendingUpdates st) (stUpgradePlan st) False)))"
proof -
  have man: "aAllowed (EvaluateManualApproval (Some st) scope False)"
    using assms by (simp add: auto_allowed_iff manual_allowed_iff)
  have "forbids_removals parse (NormalizeApprovalScope scope) (stUpgradePlan st) (PackagesForApprovalScope scope (stPendingUpdates st))
      (aCommand (InterpretApprovedScope parse scope (stPendingUpdates st) (stUpgradePlan st) False))"
    if run: "aAllowed (InterpretApprovedScope parse scope (stPendingUpdates st) (stUpgradePlan st) False)"
    unfolding runner_allowed(3) [OF run]
    by (rule executed_command_forbids [OF runner_allowed(4) [OF run] normalize_idem]) simp
  then show ?thesis using assms man manual_selection [OF man] auto_selection [OF assms]
    by (auto simp: auto_allowed_iff scope_consented_def)
qed


subsection \<open>Witnesses\<close>

definition sample_approval :: server_status where
  "sample_approval = (NewIdleStatus sample_server)\<lparr>stStatus := StatusPendingApproval, stPendingUpdates := [sample_update],
     stUpgradePlan := empty_plan\<lparr>FullUpgradePlanAvailable := True, FullUpgradePackageCount := 1, StandardPackageCount := 1\<rparr>\<rparr>"


theorem auto_approval_is_conservative_witness:
  "aAllowed (EvaluateManualApproval (Some sample_approval) ApprovalScopeFullUpgrade False)
   \<and> approvalRemovals ApprovalScopeFullUpgrade (stUpgradePlan sample_approval) = []"
proof -
  have "aAllowed (EvaluateAutoApproval ApprovalScopeFullUpgrade (stPendingUpdates sample_approval) (stUpgradePlan sample_approval))"
    by code_simp
  from auto_approval_is_conservative [OF this] show ?thesis by simp
qed

definition sample_identity_key :: "approval_identity \<Rightarrow> string list" where
  "sample_identity_key i = [iPackage i, iInstallPackage i, iCurrentVersion i, iCandidateVersion i, iSource i, iRaw i]"


end
