(* ===== verification/Actions.thy ===== *)
theory Actions
  imports Approval
begin

section \<open>Actions: starting, approving and cancelling\<close>

text \<open>
  The model of \<open>server_action_lifecycle.go\<close> and \<open>server_action_approval.go\<close>: the operations that
  tie the shared server state, the job table and the approval decisions together, and of the
  functions of \<open>jobs.go\<close> and \<open>webserver.go\<close> that publish job records into the server state. The
  job manager and the update service are always present here. Parameters: \<open>cfg\<close>, \<open>now\<close> and
  \<open>newID\<close> of the job manager; \<open>load\<close> reads the current deferral rules of a server; \<open>validate\<close> is the
  check of a remediation plan (an error text or nothing); \<open>readiness\<close> is the check of the SSH
  credentials; \<open>errText\<close> and \<open>marshal\<close> print errors and retry policies.

  \<open>approve\<close> reads the deferral rules before it takes the state lock. The part under the lock,
  \<open>approve_locked\<close>, is a function of its own, so that the properties hold for whatever happens in
  between.
\<close>

subsection \<open>Data\<close>

record approval_id =
  aiRemediationDigest :: string
  aiJobID :: string
  aiDeferralRevision :: string
  aiGeneration :: "64 word"

record retry_policy =
  rpMaxAttempts :: int
  rpBaseDelay :: int
  rpMaxDelay :: int
  rpJitterPct :: int

datatype body_value = BodyText string | BodyList "string list"

record action_result =
  resCode :: int
  resBody :: "(string \<times> body_value) list"

record audit_entry =
  auAction :: string
  auTarget :: string
  auStatus :: string
  auMessage :: string
  auMeta :: "(string \<times> meta_value) list"

record world =
  wInv :: inventory
  wJobs :: job_table
  wEvents :: "job_event list"
  wAudit :: "audit_entry list"

record start_spec =
  ssStatus :: string
  ssJobKind :: string
  ssAuditAction :: string
  ssStartFailure :: string
  ssCreateFailure :: string
  ssSuccessMessage :: string
  ssMissingPasswordOK :: bool
  ssAllowedStatuses :: "string list"
  ssInvalidStatus :: string
  ssPackageMutation :: bool
  ssPreserveReconciliation :: bool

record maintenance_readiness =
  mrReady :: bool
  mrCode :: string
  mrMessage :: string

definition jsonResult :: "int \<Rightarrow> string \<Rightarrow> action_result" where
  "jsonResult status err = \<lparr>resCode = status, resBody = [(''error'', BodyText err)]\<rparr>"

text \<open>The type assertion \<open>result.body["error"].(string)\<close>, which gives the empty string when it fails.\<close>

definition body_error :: "action_result \<Rightarrow> string" where
  "body_error r = (case map_of (resBody r) ''error'' of Some (BodyText s) \<Rightarrow> s | _ \<Rightarrow> [])"

definition recordAudit :: "string \<Rightarrow> string \<Rightarrow> string \<Rightarrow> string \<Rightarrow> (string \<times> meta_value) list \<Rightarrow> world \<Rightarrow> world" where
  "recordAudit action name status message meta w =
     w\<lparr>wAudit := wAudit w @ [\<lparr>auAction = action, auTarget = name, auStatus = status, auMessage = message, auMeta = meta\<rparr>]\<rparr>"

definition milliseconds :: "int \<Rightarrow> int" where
  "milliseconds d = (if 0 \<le> d then d div 1000000 else - (- d div 1000000))"

definition retryPolicyMeta :: "retry_policy \<Rightarrow> (string \<times> meta_value) list" where
  "retryPolicyMeta p =
     [(''max_attempts'', MetaInt (rpMaxAttempts p)), (''base_delay_ms'', MetaInt (milliseconds (rpBaseDelay p))),
      (''max_delay_ms'', MetaInt (milliseconds (rpMaxDelay p))), (''jitter_pct'', MetaInt (rpJitterPct p)),
      (''total_attempts_used'', MetaInt 0), (''retry_exhausted'', MetaBool False)]"

subsection \<open>Publication of job records\<close>

definition emptied_plan :: "server_status \<Rightarrow> server_status" where
  "emptied_plan st = st\<lparr>stApprovalScope := [], stApprovalConfirmRemovals := False, stUpgradable := [],
     stPendingUpdates := [], stUpgradePlan := empty_plan\<rparr>"

definition published_status :: "job_record \<Rightarrow> server_status \<Rightarrow> server_status" where
  "published_status rec st =
     (let st1 = st\<lparr>stJobRevision := jRevision rec, stStatus := RuntimeStatusFromJob rec, stJobID := jID rec,
            stLogs := (if jLogsText rec \<noteq> [] then jLogsText rec else stLogs st)\<rparr>
      in if jStatus rec = StatusInterrupted then emptied_plan st1 else st1)"

definition syncServerStateFromJobRecord :: "job_record \<Rightarrow> inventory \<Rightarrow> inventory" where
  "syncServerStateFromJobRecord rec z =
     (if trim_space (jServerName rec) = [] then z
      else if RuntimeStatusFromJob rec = [] then z
      else case status_at z (jServerName rec) of
        None \<Rightarrow> z
      | Some st \<Rightarrow>
          if stJobID st \<noteq> jID rec \<and> (stJobID st \<noteq> [] \<or> stActionGeneration st \<noteq> 0) then z
          else if stJobID st = jID rec \<and> jRevision rec \<le> stJobRevision st then z
          else put_status (jServerName rec) (published_status rec st) z)"

fun markInterruptedServerStateIdle :: "string list \<Rightarrow> inventory \<Rightarrow> inventory" where
  "markInterruptedServerStateIdle [] z = z"
| "markInterruptedServerStateIdle (name # names) z =
     markInterruptedServerStateIdle names
       (case status_at z name of
          None \<Rightarrow> z
        | Some st \<Rightarrow> put_status name (emptied_plan (st\<lparr>stStatus := StatusIdle\<rparr>)) z)"

text \<open>The callbacks of the job manager.\<close>

fun publish :: "job_event list \<Rightarrow> inventory \<Rightarrow> inventory" where
  "publish [] z = z"
| "publish (SyncRuntime rec # evs) z = publish evs (syncServerStateFromJobRecord rec z)"
| "publish (SyncInterruptedServer names # evs) z = publish evs (markInterruptedServerStateIdle names z)"
| "publish (_ # evs) z = publish evs z"

subsection \<open>Approvals\<close>

abbreviation (input) staleApprovalMessage :: string where
  "staleApprovalMessage \<equiv> ''The pending update changed. Refresh the package plan and confirm again.''"

definition shown_plan :: "approval_id \<Rightarrow> server_status \<Rightarrow> bool" where
  "shown_plan ident st \<longleftrightarrow>
     (stRemediationDigest st = [] \<or> aiRemediationDigest ident = stRemediationDigest st)
     \<and> aiJobID ident \<noteq> [] \<and> aiGeneration ident \<noteq> 0 \<and> stJobID st = aiJobID ident
     \<and> stApprovalGeneration st = aiGeneration ident
     \<and> snRevision (PackageDeferrals (stUpgradePlan st)) = aiDeferralRevision ident"

definition withPendingApproval ::
  "string \<Rightarrow> approval_id \<Rightarrow> (server_status \<Rightarrow> action_result \<times> 'a) \<Rightarrow> 'a \<Rightarrow> world \<Rightarrow> action_result \<times> 'a" where
  "withPendingApproval name ident apply unchanged w =
     (case status_at (wInv w) name of
        None \<Rightarrow> (jsonResult 404 ''Server not found'', unchanged)
      | Some st \<Rightarrow>
          if stStatus st \<noteq> StatusPendingApproval then (jsonResult 409 ''Server not pending approval'', unchanged)
          else if \<not> shown_plan ident st then (jsonResult 409 staleApprovalMessage, unchanged)
          else apply st)"

definition persistPendingDecision ::
  "log_config \<Rightarrow> string \<Rightarrow> server_status \<Rightarrow> bool \<Rightarrow> string \<Rightarrow> job_table
    \<Rightarrow> (job_error, int) result \<times> job_table \<times> job_event list" where
  "persistPendingDecision cfg now st cancelled summary t =
     (case repo_Get t (stJobID st) of
        Inl e \<Rightarrow> (Inl e, t, [])
      | Inr job \<Rightarrow>
          if jServerName job \<noteq> stName st \<or> jKind job \<noteq> KindUpdate \<or> jStatus job \<noteq> StatusWaitingApproval
          then (Inl transition_conflict, t, [])
          else case ResolvePendingApproval cfg now (jID job) (jRevision job) cancelled summary t of
            (Inl e, t', evs) \<Rightarrow> (Inl e, t', evs)
          | (Inr committed, t', evs) \<Rightarrow> (Inr (jRevision committed), t', evs))"

definition persist_failure :: "string \<Rightarrow> job_error \<Rightarrow> action_result" where
  "persist_failure message e =
     (case e of ErrTransitionConflict _ \<Rightarrow> jsonResult 409 staleApprovalMessage | _ \<Rightarrow> jsonResult 500 message)"

text \<open>What the locked part leaves: the interpretation (for the audit row), the persistence error and
  the state.\<close>

type_synonym decided = "approval_interpretation \<times> job_error option \<times> world"

definition approve_pending ::
  "log_config \<Rightarrow> string \<Rightarrow> (server_status \<Rightarrow> server option \<Rightarrow> string \<Rightarrow> bool \<Rightarrow> string option) \<Rightarrow> server option
    \<Rightarrow> string \<Rightarrow> string \<Rightarrow> string \<Rightarrow> bool \<Rightarrow> world \<Rightarrow> server_status \<Rightarrow> action_result \<times> decided" where
  "approve_pending cfg now validate srv freshRevision name scope confirmRemovals w st =
     (if snRevision (PackageDeferrals (stUpgradePlan st)) \<noteq> freshRevision
      then (jsonResult 409 staleApprovalMessage, no_interpretation, None, w)
      else case validate st srv scope confirmRemovals of
        Some err \<Rightarrow>
          (jsonResult 409 (''Remediation evidence changed; prepare and approve again: '' @ err), no_interpretation, None, w)
      | None \<Rightarrow>
          let approval = EvaluateManualApproval (Some st) scope confirmRemovals in
          if \<not> aAllowed approval
          then (\<lparr>resCode = 409, resBody = (''error'', BodyText (aBodyMessage approval)) #
                   (if aRemovedPackages approval \<noteq> [] then [(''removed_packages'', BodyList (aRemovedPackages approval))] else [])\<rparr>,
                approval, None, w)
          else case persistPendingDecision cfg now st False (aJobSummary approval) (wJobs w) of
            (Inl e, t', evs) \<Rightarrow>
              (persist_failure ''Failed to persist approval'' e, approval, Some e,
               w\<lparr>wJobs := t', wEvents := wEvents w @ evs\<rparr>)
          | (Inr revision, t', evs) \<Rightarrow>
              (\<lparr>resCode = 200, resBody = [(''message'', BodyText (aSuccessMessage approval))]\<rparr>, approval, None,
               w\<lparr>wJobs := t', wEvents := wEvents w @ evs,
                 wInv := put_status name (st\<lparr>stJobRevision := revision, stApprovalScope := scope,
                   stApprovalConfirmRemovals := soConfirmRemovals (aStateOptions approval), stStatus := StatusApproved\<rparr>) (wInv w)\<rparr>))"

definition approve_locked ::
  "log_config \<Rightarrow> string \<Rightarrow> (server_status \<Rightarrow> server option \<Rightarrow> string \<Rightarrow> bool \<Rightarrow> string option) \<Rightarrow> server option
    \<Rightarrow> string \<Rightarrow> string \<Rightarrow> approval_id \<Rightarrow> string \<Rightarrow> bool \<Rightarrow> world \<Rightarrow> action_result \<times> decided" where
  "approve_locked cfg now validate srv freshRevision name ident scope confirmRemovals w =
     withPendingApproval name ident (approve_pending cfg now validate srv freshRevision name scope confirmRemovals w)
       (no_interpretation, None, w) w"

definition audit_outcome :: "action_result \<Rightarrow> string" where
  "audit_outcome r = (if 500 \<le> resCode r \<or> resCode r = 404 then ''failure'' else ''ignored'')"

definition approve ::
  "log_config \<Rightarrow> string \<Rightarrow> (job_error \<Rightarrow> string) \<Rightarrow> (server \<Rightarrow> string \<Rightarrow> (string, deferral_snapshot) result)
    \<Rightarrow> (server_status \<Rightarrow> server option \<Rightarrow> string \<Rightarrow> bool \<Rightarrow> string option)
    \<Rightarrow> string \<Rightarrow> approval_id \<Rightarrow> string \<Rightarrow> bool \<Rightarrow> world \<Rightarrow> action_result \<times> world" where
  "approve cfg now errText load validate name ident scope confirmRemovals w =
     (let srv = FindByNameLocked (wInv w) name;
          fresh = (case (srv, status_at (wInv w) name) of
              (Some s, Some st) \<Rightarrow>
                if stStatus st = StatusPendingApproval \<and> stJobID st = aiJobID ident
                  \<and> stApprovalGeneration st = aiGeneration ident
                  \<and> snRevision (PackageDeferrals (stUpgradePlan st)) = aiDeferralRevision ident
                then (case load s (aiJobID ident) of Inl e \<Rightarrow> Inl e | Inr snapshot \<Rightarrow> Inr (snRevision snapshot))
                else Inr []
            | _ \<Rightarrow> Inr []) in
      case fresh of
        Inl _ \<Rightarrow>
          (jsonResult 500 ''Package deferrals unavailable; rescan before approving'',
           recordAudit ''update.approve'' name ''blocked'' ''Package deferrals unavailable; rescan before approving''
             [(''scope'', MetaText scope), (''job_id'', MetaText (aiJobID ident)),
              (''deferral_revision'', MetaText (aiDeferralRevision ident))] w)
      | Inr freshRevision \<Rightarrow>
          (case approve_locked cfg now validate srv freshRevision name ident scope confirmRemovals w of
             (result, approval, persistErr, w') \<Rightarrow>
               let meta = AList.update ''reason_code'' (MetaText (aReasonCode approval))
                     (AList.update ''deferral_revision'' (MetaText (aiDeferralRevision ident))
                     (AList.update ''approval_generation'' (MetaInt (uint (aiGeneration ident)))
                     (AList.update ''job_id'' (MetaText (aiJobID ident))
                       (if aAuditMeta approval = [] then [(''scope'', MetaText scope)] else aAuditMeta approval))));
                   meta' = (case persistErr of None \<Rightarrow> meta | Some e \<Rightarrow> AList.update ''error'' (MetaText (errText e)) meta);
                   overridden = (resCode result \<noteq> 200 \<and> (aAllowed approval \<or> aAuditMessage approval = []))
               in (result,
                   recordAudit ''update.approve'' name
                     (if overridden then audit_outcome result else aAuditStatus approval)
                     (if overridden then body_error result else aAuditMessage approval) meta' w')))"

definition cancel_pending :: "log_config \<Rightarrow> string \<Rightarrow> string \<Rightarrow> world \<Rightarrow> server_status \<Rightarrow> action_result \<times> job_error option \<times> world" where
  "cancel_pending cfg now name w st =
     (case persistPendingDecision cfg now st True ''Update cancelled'' (wJobs w) of
        (Inl e, t', evs) \<Rightarrow>
          (persist_failure ''Failed to persist cancelled update'' e, Some e, w\<lparr>wJobs := t', wEvents := wEvents w @ evs\<rparr>)
      | (Inr revision, t', evs) \<Rightarrow>
          (\<lparr>resCode = 200, resBody = [(''message'', BodyText ''Upgrade cancelled'')]\<rparr>, None,
           w\<lparr>wJobs := t', wEvents := wEvents w @ evs,
             wInv := put_status name (cancelled_status (st\<lparr>stJobRevision := revision\<rparr>)) (wInv w)\<rparr>))"

definition Cancel :: "log_config \<Rightarrow> string \<Rightarrow> (job_error \<Rightarrow> string) \<Rightarrow> string \<Rightarrow> approval_id \<Rightarrow> world \<Rightarrow> action_result \<times> world" where
  "Cancel cfg now errText name ident w =
     (case withPendingApproval name ident (cancel_pending cfg now name w) (None, w) w of
        (result, persistErr, w') \<Rightarrow>
          let meta = [(''job_id'', MetaText (aiJobID ident)), (''approval_generation'', MetaInt (uint (aiGeneration ident)))];
              meta' = (case persistErr of None \<Rightarrow> meta | Some e \<Rightarrow> AList.update ''error'' (MetaText (errText e)) meta)
          in (result,
              if resCode result \<noteq> 200
              then recordAudit ''update.cancel'' name (audit_outcome result) (body_error result) meta' w'
              else recordAudit ''update.cancel'' name ''success'' ''Upgrade cancelled'' meta' w'))"

subsection \<open>Starting an action\<close>

definition createServerActionJob ::
  "log_config \<Rightarrow> string \<Rightarrow> string \<Rightarrow> (job_error \<Rightarrow> string) \<Rightarrow> (retry_policy \<Rightarrow> string) \<Rightarrow> string \<Rightarrow> string \<Rightarrow> string
    \<Rightarrow> string \<Rightarrow> retry_policy \<Rightarrow> world \<Rightarrow> (string, job_record) result \<times> world" where
  "createServerActionJob cfg now newID errText marshal kind serverName actor clientIP policy w =
     (let snapshot = status_at (wInv w) serverName;
          params = \<lparr>pKind = kind, pParentJobID = [], pServerName = serverName, pActor = actor, pClientIP = clientIP,
            pStatus = StatusQueued, pPhase = [], pSummary = [],
            pLogsText = (case snapshot of None \<Rightarrow> [] | Some st \<Rightarrow> stLogs st),
            pErrorClass = [], pRetryPolicyJSON = marshal policy, pMetaJSON = ''{}''\<rparr> in
      case CreateJob cfg now newID params (wJobs w) of
        (Inl e, t', evs) \<Rightarrow> (Inl (errText e), w\<lparr>wJobs := t', wEvents := wEvents w @ evs\<rparr>)
      | (Inr rec, t', evs) \<Rightarrow>
          let w1 = w\<lparr>wJobs := t', wEvents := wEvents w @ evs\<rparr> in
          (case snapshot of
             None \<Rightarrow> (Inr rec, w1)
           | Some st \<Rightarrow>
               (case BindActionJob serverName (jID rec) (stActionGeneration st) (wInv w1) of
                  (False, z) \<Rightarrow> (Inl ''server action admission changed while creating job'', w1\<lparr>wInv := z\<rparr>)
                | (True, z) \<Rightarrow> (Inr rec, w1\<lparr>wInv := z\<rparr>))))"

text \<open>The checks before the admission, on a snapshot of the status: the response and its audit status
  and message.\<close>

definition start_refusal ::
  "(server \<Rightarrow> maintenance_readiness) \<Rightarrow> string \<Rightarrow> start_spec \<Rightarrow> string \<Rightarrow> inventory
    \<Rightarrow> (action_result \<times> string \<times> string \<times> (string \<times> meta_value) list) option" where
  "start_refusal readiness name spec sudoPassword z =
     (if \<not> ssMissingPasswordOK spec \<and> contains (ssAuditAction spec) ''sudoers.'' \<and> trim_space sudoPassword = []
      then Some (jsonResult 400 ''missing sudo password'', ''failure'', ''Missing sudo password'', [])
      else case status_at z name of
        None \<Rightarrow> Some (jsonResult 404 ''Server not found'', ''failure'', ''Server not found'', [])
      | Some st \<Rightarrow>
          let current = [(''current_status'', MetaText (stStatus st))];
              message = (if trim_space (ssInvalidStatus spec) = [] then ''Action is not available for the current server status''
                         else trim_space (ssInvalidStatus spec)) in
          if ssPackageMutation spec \<and> equal_fold_ascii (trim_space (stStatus st)) StatusNeedsReconciliation
          then Some (jsonResult 409 ''APT reconciliation is required before another package mutation'', ''ignored'',
                     ''APT reconciliation is required before another package mutation'', current)
          else if ssAllowedStatuses spec \<noteq> [] \<and> to_lower (trim_space (stStatus st)) \<notin> set (ssAllowedStatuses spec)
          then Some (jsonResult 409 message, ''ignored'', message, current)
          else if StatusInProgress (stStatus st)
          then Some (jsonResult 409 ''Update already in progress'', ''failure'', ''Action already in progress'', current)
          else case FindByNameLocked z name of
            None \<Rightarrow> Some (jsonResult 404 ''Server not found'', ''failure'', ''Server not found'', [])
          | Some s \<Rightarrow>
              if mrReady (readiness s) then None
              else Some (jsonResult 409 (mrMessage (readiness s)), ''ignored'', mrMessage (readiness s),
                         [(''reason_code'', MetaText (mrCode (readiness s)))]))"

abbreviation (input) disabledMessage :: string where
  "disabledMessage \<equiv> ''server is disabled; enable it in Manage Servers before starting maintenance''"

text \<open>\<^const>\<open>BeginActionWithOptions\<close> has no other error than the first four.\<close>

definition admission_refusal :: "start_spec \<Rightarrow> server_error \<Rightarrow> action_result \<times> string \<times> string \<times> (string \<times> meta_value) list" where
  "admission_refusal spec e =
     (case e of
        ErrDisabled \<Rightarrow> (jsonResult 409 disabledMessage, ''ignored'', disabledMessage,
                        [(''reason_code'', MetaText ''server_disabled'')])
      | ErrActionNotAllowed \<Rightarrow> (jsonResult 409 (ssInvalidStatus spec), ''ignored'', ssInvalidStatus spec, [])
      | Servers.ErrNoRows \<Rightarrow> (jsonResult 404 ''Server not found'', ''failure'', ''Server not found'', [])
      | ErrActionInProgress _ \<Rightarrow> (jsonResult 409 ''Update already in progress'', ''failure'', ''Action already in progress'', [])
      | _ \<Rightarrow> (jsonResult 500 (ssStartFailure spec), ''failure'', ssStartFailure spec, []))"

text \<open>What the runner gets: the server, the job, the generation of the admission, the status to restore
  and whether it is restored after the run.\<close>

record admitted =
  adServer :: server
  adJobID :: string
  adGeneration :: "64 word"
  adPrevious :: server_status
  adPreserve :: bool

definition startAction ::
  "log_config \<Rightarrow> string \<Rightarrow> string \<Rightarrow> (job_error \<Rightarrow> string) \<Rightarrow> (retry_policy \<Rightarrow> string) \<Rightarrow> (server \<Rightarrow> maintenance_readiness) \<Rightarrow> retry_policy
    \<Rightarrow> string \<Rightarrow> string \<Rightarrow> string \<Rightarrow> string \<Rightarrow> start_spec \<Rightarrow> world \<Rightarrow> (action_result \<times> admitted option) \<times> world" where
  "startAction cfg now newID errText marshal readiness policy name actor clientIP sudoPassword spec w =
     (let meta = retryPolicyMeta policy;
          audit = (\<lambda>status message extra. recordAudit (ssAuditAction spec) name status message (meta @ extra)) in
      case start_refusal readiness name spec sudoPassword (wInv w) of
        Some (result, status, message, extra) \<Rightarrow> ((result, None), audit status message extra w)
      | None \<Rightarrow>
          (case BeginActionWithOptions name (ssStatus spec) (ssPackageMutation spec) (ssAllowedStatuses spec) (wInv w) of
             (Inl e, z) \<Rightarrow>
               (case admission_refusal spec e of
                  (result, status, message, extra) \<Rightarrow> ((result, None), audit status message extra (w\<lparr>wInv := z\<rparr>)))
           | (Inr (s, previous), z) \<Rightarrow>
               let generation = stActionGeneration previous + 1 in
               (case createServerActionJob cfg now newID errText marshal (ssJobKind spec) name actor clientIP policy (w\<lparr>wInv := z\<rparr>) of
                  (Inl e, w1) \<Rightarrow>
                    ((jsonResult 500 (ssCreateFailure spec), None),
                     audit ''failure'' ''Failed to create job'' [(''error'', MetaText e)]
                       (w1\<lparr>wInv := RestoreAdmittedAction name generation previous (wInv w1)\<rparr>))
                | (Inr job, w1) \<Rightarrow>
                    ((\<lparr>resCode = 200, resBody = [(''message'', BodyText (ssSuccessMessage spec)), (''job_id'', BodyText (jID job))]\<rparr>,
                      Some \<lparr>adServer = s, adJobID = jID job, adGeneration = generation, adPrevious = previous,
                        adPreserve = (ssPreserveReconciliation spec
                          \<and> equal_fold_ascii (trim_space (stStatus previous)) StatusNeedsReconciliation)\<rparr>),
                     audit ''started'' (ssSuccessMessage spec) [] w1))))"

text \<open>The beginning of the runner goroutine: the job becomes running, or is failed and the status restored.
  The first component tells whether the run starts.\<close>

definition startJobRunner :: "log_config \<Rightarrow> string \<Rightarrow> string \<Rightarrow> admitted \<Rightarrow> world \<Rightarrow> bool \<times> world" where
  "startJobRunner cfg now name a w =
     (if trim_space (adJobID a) = [] then (True, w)
      else case Jobs.transition cfg now (adJobID a) (no_intent\<lparr>iStatus := Some StatusRunning\<rparr>) False (wJobs w) of
        (Inr _, t', evs) \<Rightarrow> (True, w\<lparr>wJobs := t', wEvents := wEvents w @ evs, wInv := publish evs (wInv w)\<rparr>)
      | (Inl _, t', evs) \<Rightarrow>
          (case Jobs.transition cfg now (adJobID a)
                  (no_intent\<lparr>iStatus := Some StatusFailed, iPhase := Some PhaseComplete,
                     iSummary := Some ''Runner admission failed'', iErrorClass := Some ''persistence''\<rparr>) False t' of
             (_, t2, evs2) \<Rightarrow>
               (False, w\<lparr>wJobs := t2, wEvents := wEvents w @ evs @ evs2,
                  wInv := RestoreAdmittedAction name (adGeneration a) (adPrevious a) (publish (evs @ evs2) (wInv w))\<rparr>)))"

definition StartUpdate_spec :: start_spec where
  "StartUpdate_spec = \<lparr>ssStatus = StatusUpdating, ssJobKind = KindUpdate, ssAuditAction = ''update.start'',
     ssStartFailure = ''Failed to start update'', ssCreateFailure = ''Failed to create update job'',
     ssSuccessMessage = ''Update started'', ssMissingPasswordOK = False, ssAllowedStatuses = [], ssInvalidStatus = [],
     ssPackageMutation = True, ssPreserveReconciliation = False\<rparr>"

definition StartAutoremove_spec :: start_spec where
  "StartAutoremove_spec = \<lparr>ssStatus = StatusAutoremove, ssJobKind = KindAutoremove, ssAuditAction = ''autoremove.start'',
     ssStartFailure = ''Failed to start autoremove'', ssCreateFailure = ''Failed to create autoremove job'',
     ssSuccessMessage = ''Autoremove started'', ssMissingPasswordOK = False, ssAllowedStatuses = [], ssInvalidStatus = [],
     ssPackageMutation = True, ssPreserveReconciliation = False\<rparr>"

definition StartAptRepair_spec :: start_spec where
  "StartAptRepair_spec = \<lparr>ssStatus = StatusRepairing, ssJobKind = KindAptRepair, ssAuditAction = ''apt_repair.start'',
     ssStartFailure = ''Failed to start APT repair'', ssCreateFailure = ''Failed to create APT repair job'',
     ssSuccessMessage = ''APT repair started'', ssMissingPasswordOK = False,
     ssAllowedStatuses = [StatusNeedsReconciliation], ssInvalidStatus = ''Server does not require APT repair'',
     ssPackageMutation = False, ssPreserveReconciliation = False\<rparr>"

definition StartReboot_spec :: start_spec where
  "StartReboot_spec = \<lparr>ssStatus = StatusRebooting, ssJobKind = KindReboot, ssAuditAction = ''reboot.start'',
     ssStartFailure = ''Failed to start reboot'', ssCreateFailure = ''Failed to create reboot job'',
     ssSuccessMessage = ''Reboot started'', ssMissingPasswordOK = False,
     ssAllowedStatuses = [StatusIdle, StatusDone, StatusError, StatusCancelled],
     ssInvalidStatus = ''Server is not ready for a controlled reboot'', ssPackageMutation = False,
     ssPreserveReconciliation = False\<rparr>"

definition StartSudoersEnable_spec :: start_spec where
  "StartSudoersEnable_spec = \<lparr>ssStatus = StatusSudoers, ssJobKind = KindSudoersEnable, ssAuditAction = ''sudoers.enable.start'',
     ssStartFailure = ''Failed to start sudoers setup'', ssCreateFailure = ''Failed to create sudoers job'',
     ssSuccessMessage = ''Sudoers setup started'', ssMissingPasswordOK = False, ssAllowedStatuses = [], ssInvalidStatus = [],
     ssPackageMutation = False, ssPreserveReconciliation = True\<rparr>"

definition StartSudoersDisable_spec :: start_spec where
  "StartSudoersDisable_spec = \<lparr>ssStatus = StatusSudoers, ssJobKind = KindSudoersDisable, ssAuditAction = ''sudoers.disable.start'',
     ssStartFailure = ''Failed to start sudoers disable'', ssCreateFailure = ''Failed to create sudoers disable job'',
     ssSuccessMessage = ''Sudoers disable started'', ssMissingPasswordOK = False, ssAllowedStatuses = [], ssInvalidStatus = [],
     ssPackageMutation = False, ssPreserveReconciliation = True\<rparr>"

text \<open>Repairs and reboots are refused unless they were confirmed.\<close>

definition confirmed_start ::
  "bool \<Rightarrow> string \<Rightarrow> retry_policy \<Rightarrow> string \<Rightarrow> start_spec \<Rightarrow> (world \<Rightarrow> (action_result \<times> admitted option) \<times> world)
    \<Rightarrow> world \<Rightarrow> (action_result \<times> admitted option) \<times> world" where
  "confirmed_start confirmed message policy name spec start w =
     (if \<not> confirmed
      then ((jsonResult 400 message, None), recordAudit (ssAuditAction spec) name ''failure'' message (retryPolicyMeta policy) w)
      else start w)"

subsection \<open>Lemmas\<close>

lemma resolve_error_keeps:
  "ResolvePendingApproval cfg now i r c s t = (Inl e, t', evs) \<Longrightarrow> t' = t"
  by (auto simp: ResolvePendingApproval_def split: sum.splits option.splits prod.splits)

lemma resolve_success:
  assumes "ResolvePendingApproval cfg now i r c s t = (Inr n, t', evs)"
  shows "\<exists>j l. find_row t i = Some (j, l) \<and> jStatus j = StatusWaitingApproval \<and> jRevision j = r
     \<and> t' = update_row i (\<lambda>x. (transition_columns n (fst x), l)) t \<and> jRevision n = r + 1
     \<and> jStatus n = (if c then StatusCancelled else StatusRunning)
     \<and> jPhase n = (if c then PhaseComplete else PhaseAptUpgrade)"
proof -
  obtain q w where q: "resolve_read now i r c s t = Inr q" "cas_write cfg now q t = Inr (Some (w, t'))"
    using assms by (auto simp: ResolvePendingApproval_def split: sum.splits option.splits prod.splits)
  obtain x where x: "find_row t i = Some x"
    using q(1) by (auto simp: resolve_read_def repo_Get_def split: option.splits)
  obtain j l where row: "find_row t i = Some (j, l)" using x by (cases x) auto
  have waiting: "jStatus j = StatusWaitingApproval \<and> jRevision j = r"
    using resolve_refused [OF row, of r cfg now c s] assms by (cases "jStatus j = StatusWaitingApproval \<and> jRevision j = r") auto
  have "jID (rNext q) = i"
    using q(1) row find_row_id [OF row] waiting
    by (auto simp: resolve_read_def repo_Get_def applyIntent_def Let_def bind_result_Inr_iff split: if_splits)
  then have "trim_space i \<noteq> []" using q(2) by (auto simp: cas_write_def applyTransitionWithLogResult_def)
  from resolve_accepted [OF row this conjunct1 [OF waiting] conjunct2 [OF waiting], of cfg now c s] assms waiting row
  show ?thesis by auto
qed

lemma persist_error_keeps:
  "persistPendingDecision cfg now st c s t = (Inl e, t', evs) \<Longrightarrow> t' = t"
  by (auto simp: persistPendingDecision_def split: sum.splits if_splits prod.splits dest: resolve_error_keeps)

lemma persist_success:
  assumes "persistPendingDecision cfg now st c s t = (Inr revision, t', evs)"
  shows "\<exists>j l j'. find_row t (stJobID st) = Some (j, l) \<and> jServerName j = stName st \<and> jKind j = KindUpdate
     \<and> jStatus j = StatusWaitingApproval \<and> find_row t' (stJobID st) = Some (j', l) \<and> jRevision j' = revision
     \<and> revision = jRevision j + 1 \<and> jStatus j' = (if c then StatusCancelled else StatusRunning)
     \<and> jPhase j' = (if c then PhaseComplete else PhaseAptUpgrade) \<and> jServerName j' = jServerName j \<and> jKind j' = jKind j"
proof -
  obtain x where x: "find_row t (stJobID st) = Some x"
    using assms by (auto simp: persistPendingDecision_def repo_Get_def split: option.splits)
  obtain j l where row: "find_row t (stJobID st) = Some (j, l)" using x by (cases x) auto
  have id: "jID j = stJobID st" using find_row_id [OF row] by simp
  obtain n where n: "jServerName j = stName st" "jKind j = KindUpdate" "jStatus j = StatusWaitingApproval"
    "ResolvePendingApproval cfg now (stJobID st) (jRevision j) c s t = (Inr n, t', evs)" "revision = jRevision n"
    using assms row id
    by (auto simp: persistPendingDecision_def repo_Get_def row_record_def split: if_splits prod.splits sum.splits)
  from resolve_success [OF n(4)] row n show ?thesis
    by (auto simp: find_row_update_row id transition_columns_def)
qed

lemma approve_pending_refused:
  assumes "approve_pending cfg now validate srv fresh name scope c w st = (res, ap, err, w')" and "resCode res \<noteq> 200"
  shows "wInv w' = wInv w \<and> wJobs w' = wJobs w"
  using assms by (auto simp: approve_pending_def Let_def dest: persist_error_keeps split: if_splits option.splits sum.splits prod.splits)

lemma persist_failure_code [simp]: "resCode (persist_failure m e) \<noteq> 200" "resCode (jsonResult 409 x) = 409" "resCode (jsonResult k x) = k"
  by (auto simp: persist_failure_def jsonResult_def split: job_error.splits)

lemma approve_pending_accepted:
  assumes "approve_pending cfg now validate srv fresh name scope c w st = (res, ap, err, w')" and "resCode res = 200"
  shows "snRevision (PackageDeferrals (stUpgradePlan st)) = fresh" "validate st srv scope c = None"
    "aAllowed (EvaluateManualApproval (Some st) scope c)"
    "\<exists>revision evs. persistPendingDecision cfg now st False (aJobSummary (EvaluateManualApproval (Some st) scope c)) (wJobs w)
         = (Inr revision, wJobs w', evs)
       \<and> wInv w' = put_status name (st\<lparr>stJobRevision := revision, stApprovalScope := scope,
           stApprovalConfirmRemovals := soConfirmRemovals (aStateOptions (EvaluateManualApproval (Some st) scope c)),
           stStatus := StatusApproved\<rparr>) (wInv w)"
  using assms by (auto simp: approve_pending_def Let_def split: if_splits option.splits sum.splits prod.splits)

lemma manual_confirms:
  "aAllowed (EvaluateManualApproval (Some st) scope c) \<Longrightarrow> soConfirmRemovals (aStateOptions (EvaluateManualApproval (Some st) scope c)) = c"
  using normalized_scope [of scope]
  by (elim disjE)
    (auto simp: EvaluateManualApproval_def Let_def blockedApproval_def no_interpretation_def allowedManualApproval_def
      split: option.splits if_splits)

lemma sync_old_record:
  assumes "status_at z (jServerName rec) = Some st" and "stJobID st = jID rec" and "jRevision rec \<le> stJobRevision st"
  shows "syncServerStateFromJobRecord rec z = z"
  using assms by (simp add: syncServerStateFromJobRecord_def)

lemma sync_new_record:
  assumes "status_at z (jServerName rec) = Some st" and "stJobID st = jID rec" and "stJobRevision st < jRevision rec"
    and "trim_space (jServerName rec) \<noteq> []" and "RuntimeStatusFromJob rec \<noteq> []"
  shows "syncServerStateFromJobRecord rec z = put_status (jServerName rec) (published_status rec st) z"
  using assms by (simp add: syncServerStateFromJobRecord_def)

lemma published_status_simps [simp]:
  "stJobID (published_status rec st) = jID rec" "stJobRevision (published_status rec st) = jRevision rec"
  "stStatus (published_status rec st) = RuntimeStatusFromJob rec"
  "stLogs (published_status rec st) = (if jLogsText rec \<noteq> [] then jLogsText rec else stLogs st)"
  "stActionGeneration (published_status rec st) = stActionGeneration st"
  by (simp_all add: published_status_def emptied_plan_def Let_def)

lemma sync_old_records:
  assumes "status_at z name = Some st" and "\<forall>r\<in>set recs. jServerName r = name \<and> jID r = stJobID st \<and> jRevision r \<le> stJobRevision st"
  shows "fold syncServerStateFromJobRecord recs z = z"
  using assms by (induction recs) (simp_all add: sync_old_record)

lemma publications_converge:
  assumes "status_at z name = Some st" and "trim_space name \<noteq> []"
    and "\<forall>r\<in>set recs. jServerName r = name \<and> jID r = stJobID st \<and> RuntimeStatusFromJob r \<noteq> []"
    and "m \<in> set recs" and "\<forall>r\<in>set recs. r = m \<or> jRevision r < jRevision m" and "stJobRevision st < jRevision m"
  shows "\<exists>st'. status_at (fold syncServerStateFromJobRecord recs z) name = Some st' \<and> stJobID st' = stJobID st
     \<and> stJobRevision st' = jRevision m \<and> stStatus st' = RuntimeStatusFromJob m
     \<and> (jLogsText m \<noteq> [] \<longrightarrow> stLogs st' = jLogsText m)"
  using assms
proof (induction recs arbitrary: z st)
  case (Cons r recs)
  have r: "jServerName r = name" "jID r = stJobID st" "RuntimeStatusFromJob r \<noteq> []" using Cons.prems(3) by auto
  let ?z = "syncServerStateFromJobRecord r z"
  show ?case
  proof (cases "r = m")
    case True
    have z: "?z = put_status name (published_status m st) z"
      using sync_new_record [of z r st] Cons.prems r True by simp
    then have at: "status_at ?z name = Some (published_status m st)" by simp
    have "fold syncServerStateFromJobRecord recs ?z = ?z"
      by (rule sync_old_records [OF at]) (use Cons.prems r True in \<open>auto intro: less_imp_le\<close>)
    then show ?thesis using r True at by simp
  next
    case False
    obtain st1 where st1: "status_at ?z name = Some st1" "stJobID st1 = stJobID st" "stJobRevision st1 < jRevision m"
    proof (cases "jRevision r \<le> stJobRevision st")
      case True
      then show ?thesis using that [of st] sync_old_record [of z r st] Cons.prems r by simp
    next
      case old: False
      then have "?z = put_status name (published_status r st) z"
        using sync_new_record [of z r st] Cons.prems r by simp
      then show ?thesis using that [of "published_status r st"] Cons.prems(5) r False by auto
    qed
    then show ?thesis using Cons.IH [OF st1(1)] Cons.prems False by auto
  qed
qed simp

lemma create_server_job_cases:
  assumes "createServerActionJob cfg now newID errText marshal kind name actor ip policy w = (res, w')"
    and "status_at (wInv w) name = Some st" and "\<not> stActionRunning st"
  shows "(\<exists>e. res = Inl e \<and> wInv w' = wInv w \<and> wJobs w' = wJobs w)
     \<or> (\<exists>rec. res = Inr rec \<and> jID rec = newID \<and> wInv w' = put_status name (st\<lparr>stJobID := newID, stJobRevision := -1\<rparr>) (wInv w)
        \<and> find_row (wJobs w) newID = None
        \<and> (\<exists>l. wJobs w' = wJobs w @ [(rec, l)]) \<and> jStatus rec = StatusQueued \<and> jKind rec = trim_space kind
        \<and> jServerName rec = trim_space name)"
proof -
  have queued: "trim_space StatusQueued = StatusQueued" by code_simp
  have rec: "jID (new_record now newID p) = newID" "jKind (new_record now newID p) = trim_space (pKind p)"
    "jServerName (new_record now newID p) = trim_space (pServerName p)"
    "pStatus p = StatusQueued \<Longrightarrow> jStatus (new_record now newID p) = StatusQueued" for p
    by (simp_all add: new_record_def Let_def or_default_def queued)
  show ?thesis using assms
    by (auto simp: createServerActionJob_def Let_def CreateJob_def repo_Create_def BindActionJob_def rec
        split: if_splits sum.splits prod.splits)
qed

lemma start_codes:
  "start_refusal readiness name spec pw z = Some (res, a, b, x) \<Longrightarrow> resCode res \<noteq> 200"
  "admission_refusal spec e = (res, a, b, x) \<Longrightarrow> resCode res \<noteq> 200"
  by (auto simp: start_refusal_def admission_refusal_def Let_def split: if_splits option.splits server_error.splits)

lemma BeginActionWithOptions_cases:
  assumes "BeginActionWithOptions name new pm allowed z = (res, z')"
  shows "(\<exists>e. res = Inl e \<and> z' = z)
     \<or> (\<exists>s st. res = Inr (s, st) \<and> status_at z name = Some st \<and> \<not> action_busy st
        \<and> \<not> (pm \<and> BlocksPackageMutation (stStatus st)) \<and> FindByNameLocked z name = Some s \<and> \<not> svDisabled s
        \<and> (allowed = [] \<or> to_lower (trim_space (stStatus st)) \<in> set allowed)
        \<and> z' = put_status name (begun_status new st) z)"
  using assms by (auto simp: BeginActionWithOptions_def split: option.splits if_splits)

lemma start_cases:
  assumes "startAction cfg now newID errText marshal readiness policy name actor ip pw spec w = ((res, ad), w')"
  shows "(resCode res \<noteq> 200 \<and> ad = None \<and> wInv w' = wInv w \<and> wJobs w' = wJobs w)
     \<or> (\<exists>s st z1. BeginActionWithOptions name (ssStatus spec) (ssPackageMutation spec) (ssAllowedStatuses spec) (wInv w)
            = (Inr (s, st), z1)
        \<and> (resCode res \<noteq> 200 \<and> ad = None \<and> wJobs w' = wJobs w \<and> wInv w' = RestoreAdmittedAction name (stActionGeneration st + 1) st z1
          \<or> resCode res = 200 \<and> (\<exists>a. ad = Some a \<and> adServer a = s \<and> adPrevious a = st \<and> adGeneration a = stActionGeneration st + 1 \<and> adJobID a = newID)
            \<and> (\<exists>rec l. wJobs w' = wJobs w @ [(rec, l)] \<and> find_row (wJobs w) newID = None \<and> jID rec = newID \<and> jStatus rec = StatusQueued
                \<and> jKind rec = trim_space (ssJobKind spec) \<and> jServerName rec = trim_space name)
            \<and> wInv w' = put_status name ((begun_status (ssStatus spec) st)\<lparr>stJobID := newID, stJobRevision := -1\<rparr>) z1))"
proof (cases "start_refusal readiness name spec pw (wInv w)")
  case (Some r)
  then show ?thesis using assms start_codes(1) [of readiness name spec pw "wInv w"]
    by (cases r) (auto simp: startAction_def Let_def recordAudit_def)
next
  case None
  obtain b z1 where b: "BeginActionWithOptions name (ssStatus spec) (ssPackageMutation spec) (ssAllowedStatuses spec) (wInv w) = (b, z1)"
    by fastforce
  show ?thesis
  proof (cases b)
    case (Inl e)
    then show ?thesis using assms None b BeginActionWithOptions_cases [OF b] start_codes(2) [of spec e]
      by (auto simp: startAction_def Let_def recordAudit_def split: prod.splits)
  next
    case (Inr p)
    obtain s st where p: "p = (s, st)" by (cases p) auto
    have st: "status_at (wInv (w\<lparr>wInv := z1\<rparr>)) name = Some (begun_status (ssStatus spec) st)"
      "\<not> stActionRunning (begun_status (ssStatus spec) st)"
      using BeginActionWithOptions_cases [OF b] Inr p by (auto simp: action_busy_def begun_status_def)
    obtain r w1 where c: "createServerActionJob cfg now newID errText marshal (ssJobKind spec) name actor ip policy (w\<lparr>wInv := z1\<rparr>) = (r, w1)"
      by fastforce
    show ?thesis
    proof (cases r)
      case (Inl e)
      then show ?thesis using assms None b \<open>b = Inr p\<close> p c create_server_job_cases [OF c st]
        by (auto simp: startAction_def Let_def recordAudit_def)
    next
      case rec: (Inr rec)
      then show ?thesis using assms None b \<open>b = Inr p\<close> p c create_server_job_cases [OF c st]
        by (auto simp: startAction_def Let_def recordAudit_def)
    qed
  qed
qed

subsection \<open>Properties\<close>

text \<open>C10: A decision is taken on exactly the plan that was shown, and it is atomic. The answer is
  accepted only when the server is waiting for approval with the job, generation, deferral revision
  and remediation digest of the request, the deferral rules are still the same, and the scope may be
  approved; then the waiting job resumes in the upgrade phase and the status records the scope, the
  confirmation and the revision of the job. In every other case neither the jobs nor the server state
  change. This holds for every state the request finds when it takes the lock.\<close>

theorem approval_is_atomic:
  assumes "approve_locked cfg now validate srv fresh name ident scope c w = (res, ap, err, w')"
  shows "if resCode res = 200
     then \<exists>st j l j' st'. status_at (wInv w) name = Some st \<and> stStatus st = StatusPendingApproval \<and> shown_plan ident st
       \<and> fresh = aiDeferralRevision ident \<and> aAllowed (EvaluateManualApproval (Some st) scope c)
       \<and> find_row (wJobs w) (aiJobID ident) = Some (j, l) \<and> jStatus j = StatusWaitingApproval \<and> jServerName j = stName st
       \<and> find_row (wJobs w') (aiJobID ident) = Some (j', l) \<and> jStatus j' = StatusRunning \<and> jPhase j' = PhaseAptUpgrade
       \<and> wInv w' = put_status name st' (wInv w) \<and> stStatus st' = StatusApproved \<and> stApprovalScope st' = scope
       \<and> stApprovalConfirmRemovals st' = c \<and> stJobRevision st' = jRevision j'
       \<and> stPendingUpdates st' = stPendingUpdates st \<and> stUpgradePlan st' = stUpgradePlan st
     else wInv w' = wInv w \<and> wJobs w' = wJobs w"
proof (cases "\<exists>st. status_at (wInv w) name = Some st \<and> stStatus st = StatusPendingApproval \<and> shown_plan ident st")
  case False
  then show ?thesis using assms by (auto simp: approve_locked_def withPendingApproval_def split: option.splits if_splits)
next
  case True
  then obtain st where st: "status_at (wInv w) name = Some st" "stStatus st = StatusPendingApproval" "shown_plan ident st" by blast
  then have p: "approve_pending cfg now validate srv fresh name scope c w st = (res, ap, err, w')"
    using assms by (simp add: approve_locked_def withPendingApproval_def)
  show ?thesis
  proof (cases "resCode res = 200")
    case False
    then show ?thesis using approve_pending_refused [OF p] by simp
  next
    case ok: True
    note acc = approve_pending_accepted [OF p ok]
    obtain revision evs where per: "persistPendingDecision cfg now st False (aJobSummary (EvaluateManualApproval (Some st) scope c)) (wJobs w)
         = (Inr revision, wJobs w', evs)"
      and inv: "wInv w' = put_status name (st\<lparr>stJobRevision := revision, stApprovalScope := scope,
           stApprovalConfirmRemovals := c, stStatus := StatusApproved\<rparr>) (wInv w)"
      using acc(4) manual_confirms [OF acc(3)] by auto
    have "stJobID st = aiJobID ident" "snRevision (PackageDeferrals (stUpgradePlan st)) = aiDeferralRevision ident"
      using st(3) by (simp_all add: shown_plan_def)
    with persist_success [OF per] acc(1,3) st inv ok show ?thesis by fastforce
  qed
qed

text \<open>C35: Publication converges: whatever the order in which the records of a job are published to the
  server that runs it, and however often each, the status ends as the projection of the record with
  the highest revision. A late publication of an older record never undoes a newer one.\<close>

theorem publication_order_is_irrelevant:
  assumes "status_at z name = Some st" and "trim_space name \<noteq> []"
    and "\<forall>r\<in>set recs. jServerName r = name \<and> jID r = stJobID st \<and> RuntimeStatusFromJob r \<noteq> []"
    and "m \<in> set recs" and "\<forall>r\<in>set recs. r = m \<or> jRevision r < jRevision m" and "stJobRevision st < jRevision m"
  shows "\<exists>st'. status_at (fold syncServerStateFromJobRecord recs z) name = Some st' \<and> stJobID st' = stJobID st
     \<and> stJobRevision st' = jRevision m \<and> stStatus st' = RuntimeStatusFromJob m
     \<and> (jLogsText m \<noteq> [] \<longrightarrow> stLogs st' = jLogsText m)"
  by (rule publications_converge [OF assms])

text \<open>C12: An action starts alone or not at all. When it is accepted, no action of the server was in
  progress, the server was enabled and not blocked for package changes; the new job is queued under a
  fresh identifier and the status names it in the next generation. When it is refused, no job is left
  and every status is as before, except that a failed creation of the job uses up one generation.\<close>

theorem start_is_exclusive:
  assumes "startAction cfg now newID errText marshal readiness policy name actor ip pw spec w = ((res, ad), w')"
  shows "if resCode res = 200
     then \<exists>st s j l. status_at (wInv w) name = Some st \<and> \<not> action_busy st \<and> FindByNameLocked (wInv w) name = Some s
       \<and> \<not> svDisabled s \<and> \<not> (ssPackageMutation spec \<and> BlocksPackageMutation (stStatus st))
       \<and> find_row (wJobs w) newID = None \<and> wJobs w' = wJobs w @ [(j, l)] \<and> jID j = newID \<and> jStatus j = StatusQueued
       \<and> (\<exists>st'. wInv w' = put_status name st' (wInv w) \<and> stStatus st' = ssStatus spec \<and> stJobID st' = newID
            \<and> stActionGeneration st' = stActionGeneration st + 1)
     else wJobs w' = wJobs w
       \<and> (\<forall>n. map_option (\<lambda>st. st\<lparr>stActionGeneration := 0\<rparr>) (status_at (wInv w') n)
            = map_option (\<lambda>st. st\<lparr>stActionGeneration := 0\<rparr>) (status_at (wInv w) n))"
  using start_cases [OF assms]
proof (elim disjE exE conjE)
  fix s st z1
  assume b: "BeginActionWithOptions name (ssStatus spec) (ssPackageMutation spec) (ssAllowedStatuses spec) (wInv w) = (Inr (s, st), z1)"
    and "resCode res \<noteq> 200" "wJobs w' = wJobs w" "wInv w' = RestoreAdmittedAction name (stActionGeneration st + 1) st z1"
  with BeginActionWithOptions_cases [OF b] show ?thesis
    by (auto simp: RestoreAdmittedAction_def begun_status_def)
next
  fix s st z1 a rec l
  assume b: "BeginActionWithOptions name (ssStatus spec) (ssPackageMutation spec) (ssAllowedStatuses spec) (wInv w) = (Inr (s, st), z1)"
    and "resCode res = 200" "wJobs w' = wJobs w @ [(rec, l)]" "find_row (wJobs w) newID = None" "jID rec = newID" "jStatus rec = StatusQueued"
    and inv: "wInv w' = put_status name ((begun_status (ssStatus spec) st)\<lparr>stJobID := newID, stJobRevision := -1\<rparr>) z1"
  let ?st = "(begun_status (ssStatus spec) st)\<lparr>stJobID := newID, stJobRevision := -1\<rparr>"
  have began: "status_at (wInv w) name = Some st" "\<not> action_busy st" "FindByNameLocked (wInv w) name = Some s" "\<not> svDisabled s"
    "\<not> (ssPackageMutation spec \<and> BlocksPackageMutation (stStatus st))" "wInv w' = put_status name ?st (wInv w)"
    using BeginActionWithOptions_cases [OF b] by (auto simp: inv put_status_def)
  have "\<exists>st'. wInv w' = put_status name st' (wInv w) \<and> stStatus st' = ssStatus spec \<and> stJobID st' = newID
      \<and> stActionGeneration st' = stActionGeneration st + 1"
    by (rule exI [of _ ?st]) (simp add: began(6) begun_status_def)
  with began(1-5) \<open>resCode res = 200\<close> \<open>wJobs w' = wJobs w @ [(rec, l)]\<close> \<open>find_row (wJobs w) newID = None\<close>
    \<open>jID rec = newID\<close> \<open>jStatus rec = StatusQueued\<close>
  show ?thesis by (simp only: if_True simp_thms) blast
qed auto

subsection \<open>Witnesses\<close>

definition sample_world :: world where
  "sample_world = \<lparr>wInv = put_status ''web'' (sample_approval\<lparr>stJobID := ''j'', stApprovalGeneration := 1,
       stActionGeneration := 1, stJobRevision := 0\<rparr>) sample_inventory,
     wJobs = sample_table StatusWaitingApproval, wEvents = [], wAudit = []\<rparr>"

definition sample_ident :: approval_id where
  "sample_ident = \<lparr>aiRemediationDigest = [], aiJobID = ''j'', aiDeferralRevision = [], aiGeneration = 1\<rparr>"

definition sample_approve :: "action_result \<times> decided" where
  "sample_approve = approve_locked DefaultLogConfig ''t1'' (\<lambda>_ _ _ _. None) None [] ''web'' sample_ident ApprovalScopeFullUpgrade False sample_world"

theorem approval_is_atomic_witness:
  "resCode (fst sample_approve) = 200 \<and> (\<exists>st'. wInv (snd (snd (snd sample_approve))) = put_status ''web'' st' (wInv sample_world)
     \<and> stStatus st' = StatusApproved \<and> stApprovalScope st' = ApprovalScopeFullUpgrade)"
proof -
  have ok: "resCode (fst sample_approve) = 200" by code_simp
  have "approve_locked DefaultLogConfig ''t1'' (\<lambda>_ _ _ _. None) None [] ''web'' sample_ident ApprovalScopeFullUpgrade False sample_world
      = (fst sample_approve, fst (snd sample_approve), fst (snd (snd sample_approve)), snd (snd (snd sample_approve)))"
    by (simp add: sample_approve_def)
  from approval_is_atomic [OF this] ok show ?thesis by auto
qed

definition sample_record :: "string \<Rightarrow> int \<Rightarrow> job_record" where
  "sample_record status revision = (fst (hd (sample_table status)))\<lparr>jRevision := revision\<rparr>"

theorem publication_order_is_irrelevant_witness:
  "\<exists>st'. status_at (fold syncServerStateFromJobRecord [sample_record StatusRunning 2, sample_record StatusSucceeded 3, sample_record StatusRunning 1]
       (wInv sample_world)) ''web'' = Some st' \<and> stStatus st' = RuntimeStatusFromJob (sample_record StatusSucceeded 3)"
proof -
  let ?recs = "[sample_record StatusRunning 2, sample_record StatusSucceeded 3, sample_record StatusRunning 1]"
  let ?st = "sample_approval\<lparr>stJobID := ''j'', stApprovalGeneration := 1, stActionGeneration := 1, stJobRevision := 0\<rparr>"
  have at: "status_at (wInv sample_world) ''web'' = Some ?st" by (simp add: sample_world_def)
  have name: "trim_space ''web'' \<noteq> []" by code_simp
  have recs: "\<forall>r\<in>set ?recs. jServerName r = ''web'' \<and> jID r = stJobID ?st \<and> RuntimeStatusFromJob r \<noteq> []"
    by code_simp
  have max: "\<forall>r\<in>set ?recs. r = sample_record StatusSucceeded 3 \<or> jRevision r < jRevision (sample_record StatusSucceeded 3)"
    by (simp add: sample_record_def)
  have rev: "stJobRevision ?st < jRevision (sample_record StatusSucceeded 3)" by (simp add: sample_record_def)
  show ?thesis using publication_order_is_irrelevant [OF at name recs _ max rev] by auto
qed

definition sample_policy :: retry_policy where
  "sample_policy = \<lparr>rpMaxAttempts = 3, rpBaseDelay = 1000000000, rpMaxDelay = 8000000000, rpJitterPct = 20\<rparr>"

definition sample_start :: "(action_result \<times> admitted option) \<times> world" where
  "sample_start = startAction DefaultLogConfig ''t1'' ''k'' (\<lambda>_. []) (\<lambda>_. ''{}'') (\<lambda>_. \<lparr>mrReady = True, mrCode = ''ready'', mrMessage = []\<rparr>)
     sample_policy ''web'' ''admin'' ''127.0.0.1'' [] StartUpdate_spec sample_world"

theorem start_is_exclusive_witness:
  "resCode (fst (fst sample_start)) = 409 \<and> wJobs (snd sample_start) = wJobs sample_world"
proof -
  have refused: "resCode (fst (fst sample_start)) = 409" by code_simp
  have "startAction DefaultLogConfig ''t1'' ''k'' (\<lambda>_. []) (\<lambda>_. ''{}'') (\<lambda>_. \<lparr>mrReady = True, mrCode = ''ready'', mrMessage = []\<rparr>)
      sample_policy ''web'' ''admin'' ''127.0.0.1'' [] StartUpdate_spec sample_world
    = ((fst (fst sample_start), snd (fst sample_start)), snd sample_start)"
    by (simp add: sample_start_def)
  from start_is_exclusive [OF this] refused show ?thesis by simp
qed

end
