(* ===== verification/Outbox.thy ===== *)
theory Outbox
  imports Prelude "HOL-Library.AList" "HOL-Library.Multiset"
begin

section \<open>Outbox: the durable queue of notifications\<close>

text \<open>
  The model of \<open>internal/notifications/outbox.go\<close>: the table \<open>notification_outbox\<close> and every statement
  on it. The table is the list of its rows in \<open>rowid\<close> order. A time is its number of nanoseconds
  since 1970 in UTC; \<open>fmt\<close> prints it in the format \<open>RFC3339Nano\<close> and \<open>parse\<close> reads it. The columns hold
  texts, and the statements compare them as texts, bytewise. A statement or transaction is one step;
  it is assumed to reach the database, so the branches for a missing database and for failing
  statements are left to the callers.
\<close>

subsection \<open>Data\<close>

abbreviation outboxStatePending :: string where "outboxStatePending \<equiv> ''pending''"
abbreviation outboxStateClaimed :: string where "outboxStateClaimed \<equiv> ''claimed''"
abbreviation outboxStateRetrying :: string where "outboxStateRetrying \<equiv> ''retrying''"
abbreviation outboxStateSucceeded :: string where "outboxStateSucceeded \<equiv> ''succeeded''"
abbreviation outboxStateFailed :: string where "outboxStateFailed \<equiv> ''failed''"
abbreviation outboxStateSkipped :: string where "outboxStateSkipped \<equiv> ''skipped''"

record delivery_intent =
  diID :: string
  diCreatedAt :: string
  diActor :: string
  diAction :: string
  diTargetType :: string
  diTargetName :: string
  diStatus :: string
  diMessage :: string
  diMetaJSON :: string
  diClientIP :: string

record outbox_row =
  orID :: string
  orDestination :: string
  orFingerprint :: string
  orEventType :: string
  orIntent :: delivery_intent
  orState :: string
  orAttempts :: int
  orNextAttemptAt :: string
  orClaimedAt :: string

record outbox_outcome =
  ooState :: string
  ooAttempts :: int
  ooNextAttemptAt :: string
  ooAttemptedAt :: string
  ooCompletedAt :: string
  ooStatusCode :: int
  ooError :: string
  ooDurationMS :: int

record outbox_snapshot =
  osRow :: outbox_row
  osOutcome :: outbox_outcome
  osCreatedAt :: string

record outbox_replacement =
  rpActiveRows :: "(string \<times> outbox_snapshot) list"
  rpTerminalOutcomes :: "(string \<times> outbox_outcome) list"

text \<open>A row of the table: the columns of \<^typ>\<open>outbox_row\<close>, where the identifier of the intent is not
  stored, and the remaining ones.\<close>

record outbox_entry =
  oeRow :: outbox_row
  oeAttemptedAt :: string
  oeCompletedAt :: string
  oeStatusCode :: int
  oeError :: string
  oeDurationMS :: int
  oeCreatedAt :: string
  oeUpdatedAt :: string

type_synonym outbox = "outbox_entry list"

abbreviation oeID :: "outbox_entry \<Rightarrow> string" where "oeID e \<equiv> orID (oeRow e)"
abbreviation oeState :: "outbox_entry \<Rightarrow> string" where "oeState e \<equiv> orState (oeRow e)"

definition terminal_state :: "string \<Rightarrow> bool" where
  "terminal_state s \<longleftrightarrow> s = outboxStateSucceeded \<or> s = outboxStateFailed \<or> s = outboxStateSkipped"

definition waiting_state :: "string \<Rightarrow> bool" where
  "waiting_state s \<longleftrightarrow> s = outboxStatePending \<or> s = outboxStateRetrying"

text \<open>\<open>UPDATE ... SET f WHERE p\<close>, and the number of rows it affects.\<close>

definition update_where :: "(outbox_entry \<Rightarrow> bool) \<Rightarrow> (outbox_entry \<Rightarrow> outbox_entry) \<Rightarrow> outbox \<Rightarrow> outbox" where
  "update_where p f t = map (\<lambda>e. if p e then f e else e) t"

definition affected :: "(outbox_entry \<Rightarrow> bool) \<Rightarrow> outbox \<Rightarrow> nat" where
  "affected p t = length (filter p t)"

subsection \<open>Statements\<close>

definition inserted_entry :: "string \<Rightarrow> outbox_row \<Rightarrow> outbox_entry" where
  "inserted_entry now row =
     \<lparr>oeRow = row\<lparr>orIntent := (orIntent row)\<lparr>diID := []\<rparr>, orState := outboxStatePending, orAttempts := 0,
        orNextAttemptAt := [], orClaimedAt := []\<rparr>,
      oeAttemptedAt = [], oeCompletedAt = [], oeStatusCode = 0, oeError = [], oeDurationMS = 0,
      oeCreatedAt = now, oeUpdatedAt = now\<rparr>"

definition insert_row :: "string \<Rightarrow> outbox_row \<Rightarrow> outbox \<Rightarrow> outbox" where
  "insert_row now row t = (if orID row \<in> oeID ` set t then t else t @ [inserted_entry now row])"

definition insertOutboxRowsTx :: "string \<Rightarrow> outbox_row list \<Rightarrow> outbox \<Rightarrow> outbox" where
  "insertOutboxRowsTx now rows t = fold (insert_row now) rows t"

definition requeued :: "string \<Rightarrow> string \<Rightarrow> outbox_entry \<Rightarrow> outbox_entry" where
  "requeued nextAttemptAt now e =
     e\<lparr>oeRow := (oeRow e)\<lparr>orState := outboxStateRetrying, orClaimedAt := [], orNextAttemptAt := nextAttemptAt\<rparr>,
       oeUpdatedAt := now\<rparr>"

definition recoverExpiredOutboxClaims :: "(int \<Rightarrow> string) \<Rightarrow> int \<Rightarrow> int \<Rightarrow> outbox \<Rightarrow> outbox" where
  "recoverExpiredOutboxClaims fmt now claimTTL t =
     update_where (\<lambda>e. oeState e = outboxStateClaimed \<and> orClaimedAt (oeRow e) \<le> fmt (now - claimTTL))
       (requeued (fmt now) (fmt now)) t"

definition due :: "string \<Rightarrow> outbox_entry \<Rightarrow> bool" where
  "due nowText e \<longleftrightarrow> waiting_state (oeState e)
     \<and> (orNextAttemptAt (oeRow e) = [] \<or> orNextAttemptAt (oeRow e) \<le> nowText)"

definition claimed_row :: "string \<Rightarrow> outbox_row \<Rightarrow> outbox_row" where
  "claimed_row nowText row = row\<lparr>orState := outboxStateClaimed, orClaimedAt := nowText\<rparr>"

definition claimNextOutboxRow :: "(int \<Rightarrow> string) \<Rightarrow> int \<Rightarrow> outbox \<Rightarrow> (string, outbox_row option) result \<times> outbox" where
  "claimNextOutboxRow fmt now t =
     (let nowText = fmt now in
      case find (due nowText) t of
        None \<Rightarrow> (Inr None, t)
      | Some e \<Rightarrow>
          let p = (\<lambda>x. oeID x = oeID e \<and> waiting_state (oeState x)) in
          if affected p t \<noteq> 1 then (Inl ''notification outbox claim conflict'', t)
          else (Inr (Some (claimed_row nowText (oeRow e))),
                update_where p (\<lambda>x. x\<lparr>oeRow := claimed_row nowText (oeRow x), oeUpdatedAt := nowText\<rparr>) t))"

definition with_outcome :: "outbox_outcome \<Rightarrow> string \<Rightarrow> outbox_entry \<Rightarrow> outbox_entry" where
  "with_outcome outcome now e =
     e\<lparr>oeRow := (oeRow e)\<lparr>orState := ooState outcome, orAttempts := ooAttempts outcome,
          orNextAttemptAt := ooNextAttemptAt outcome, orClaimedAt := []\<rparr>,
       oeAttemptedAt := ooAttemptedAt outcome, oeCompletedAt := ooCompletedAt outcome,
       oeStatusCode := ooStatusCode outcome, oeError := ooError outcome, oeDurationMS := ooDurationMS outcome,
       oeUpdatedAt := now\<rparr>"

definition completeOutboxRow :: "string \<Rightarrow> outbox_outcome \<Rightarrow> string \<Rightarrow> outbox \<Rightarrow> (string, unit) result \<times> outbox" where
  "completeOutboxRow i outcome now t =
     (let p = (\<lambda>e. oeID e = i \<and> oeState e = outboxStateClaimed) in
      (if affected p t \<noteq> 1 then Inl ''notification outbox completion lost its claim'' else Inr (),
       update_where p (with_outcome outcome now) t))"

definition releaseOutboxClaim :: "string \<Rightarrow> string \<Rightarrow> string \<Rightarrow> outbox \<Rightarrow> outbox" where
  "releaseOutboxClaim i nextAttemptAt now t =
     update_where (\<lambda>e. oeID e = i \<and> oeState e = outboxStateClaimed) (requeued nextAttemptAt now) t"

record outbox_counts =
  ocPending :: nat
  ocRetrying :: nat

definition loadOutboxCounts :: "outbox \<Rightarrow> outbox_counts" where
  "loadOutboxCounts t =
     \<lparr>ocPending = affected (\<lambda>e. oeState e = outboxStatePending \<or> oeState e = outboxStateClaimed) t,
      ocRetrying = affected (\<lambda>e. oeState e = outboxStateRetrying) t\<rparr>"

text \<open>The zero value of \<open>time.Time\<close>, 1 January of the year 1.\<close>

definition ZeroTime :: int where
  "ZeroTime = - 62135596800000000000"

definition min_text :: "string list \<Rightarrow> string" where
  "min_text xs = (if xs = [] then [] else min_list xs)"

definition nextOutboxWake :: "(string \<Rightarrow> int option) \<Rightarrow> int \<Rightarrow> outbox \<Rightarrow> (string, int \<times> bool) result" where
  "nextOutboxWake parse claimTTL t =
     (let nextAttempt = min_text [orNextAttemptAt (oeRow e). e \<leftarrow> t,
            oeState e = outboxStateRetrying \<and> orNextAttemptAt (oeRow e) \<noteq> []];
          oldestClaim = min_text [orClaimedAt (oeRow e). e \<leftarrow> t,
            oeState e = outboxStateClaimed \<and> orClaimedAt (oeRow e) \<noteq> []];
          read = (\<lambda>text. case parse text of None \<Rightarrow> Inl ''parse error'' | Some x \<Rightarrow> Inr x) in
      bind_result (if nextAttempt = [] then Inr ZeroTime else read nextAttempt) (\<lambda>wake.
      bind_result (if oldestClaim = [] then Inr wake
                   else bind_result (read oldestClaim) (\<lambda>claimed.
                     let claimWake = claimed + claimTTL in
                     Inr (if wake = ZeroTime \<or> claimWake < wake then claimWake else wake))) (\<lambda>wake'.
      Inr (wake', wake' \<noteq> ZeroTime))))"

definition pruneOutbox :: "(int \<Rightarrow> string) \<Rightarrow> int \<Rightarrow> int \<Rightarrow> outbox \<Rightarrow> nat \<times> outbox" where
  "pruneOutbox fmt now retention t =
     (if retention \<le> 0 then (0, t)
      else let old = (\<lambda>e. terminal_state (oeState e) \<and> oeCompletedAt e \<noteq> [] \<and> oeCompletedAt e < fmt (now - retention)) in
        (affected old t, filter (\<lambda>e. \<not> old e) t))"

subsection \<open>Replacement of the database by a restored backup\<close>

definition current_outcome :: "outbox_entry \<Rightarrow> outbox_outcome" where
  "current_outcome e =
     \<lparr>ooState = oeState e, ooAttempts = orAttempts (oeRow e), ooNextAttemptAt = orNextAttemptAt (oeRow e),
      ooAttemptedAt = oeAttemptedAt e, ooCompletedAt = oeCompletedAt e, ooStatusCode = oeStatusCode e,
      ooError = oeError e, ooDurationMS = oeDurationMS e\<rparr>"

definition active_snapshot :: "outbox_entry \<Rightarrow> outbox_snapshot" where
  "active_snapshot e =
     (let o0 = current_outcome e;
          o1 = (if ooState o0 = outboxStateClaimed then o0\<lparr>ooState := outboxStateRetrying, ooNextAttemptAt := []\<rparr> else o0);
          o2 = (if ooState o1 = outboxStateRetrying then o1\<lparr>ooCompletedAt := []\<rparr> else o1);
          r1 = (if ooState o1 = outboxStateRetrying then (oeRow e)\<lparr>orClaimedAt := []\<rparr> else oeRow e) in
      \<lparr>osRow = r1\<lparr>orState := ooState o2, orAttempts := ooAttempts o2, orNextAttemptAt := ooNextAttemptAt o2\<rparr>,
       osOutcome = o2, osCreatedAt = oeCreatedAt e\<rparr>)"

definition add_current :: "outbox_entry \<Rightarrow> outbox_replacement \<Rightarrow> outbox_replacement" where
  "add_current e r =
     (if terminal_state (oeState e)
      then r\<lparr>rpTerminalOutcomes := AList.update (oeID e) (current_outcome e) (rpTerminalOutcomes r)\<rparr>
      else r\<lparr>rpActiveRows := AList.update (oeID e) (active_snapshot e) (rpActiveRows r)\<rparr>)"

definition loadCurrentOutboxRows :: "outbox \<Rightarrow> outbox_replacement" where
  "loadCurrentOutboxRows t = fold add_current t \<lparr>rpActiveRows = [], rpTerminalOutcomes = []\<rparr>"

definition snapshot_entry :: "string \<Rightarrow> outbox_snapshot \<Rightarrow> outbox_entry" where
  "snapshot_entry now s =
     (let row = osRow s; outcome = osOutcome s in
      \<lparr>oeRow = row\<lparr>orIntent := (orIntent row)\<lparr>diID := []\<rparr>, orState := ooState outcome, orAttempts := ooAttempts outcome,
         orNextAttemptAt := ooNextAttemptAt outcome\<rparr>,
       oeAttemptedAt = ooAttemptedAt outcome, oeCompletedAt = ooCompletedAt outcome, oeStatusCode = ooStatusCode outcome,
       oeError = ooError outcome, oeDurationMS = ooDurationMS outcome, oeCreatedAt = osCreatedAt s, oeUpdatedAt = now\<rparr>)"

definition upsert_snapshot :: "string \<Rightarrow> string \<times> outbox_snapshot \<Rightarrow> outbox \<Rightarrow> outbox" where
  "upsert_snapshot now = (\<lambda>(_, s) t.
     if orID (osRow s) \<in> oeID ` set t
     then update_where (\<lambda>e. oeID e = orID (osRow s)) (\<lambda>_. snapshot_entry now s) t
     else t @ [snapshot_entry now s])"

definition restore_outcome :: "string \<Rightarrow> string \<times> outbox_outcome \<Rightarrow> outbox \<Rightarrow> outbox" where
  "restore_outcome now = (\<lambda>(i, outcome) t.
     update_where (\<lambda>e. oeID e = i \<and> (oeState e = outboxStatePending \<or> oeState e = outboxStateClaimed \<or> oeState e = outboxStateRetrying))
       (with_outcome outcome now) t)"

text \<open>The Go maps are iterated in an unspecified order; here in the order of the lists.\<close>

definition restoreCurrentOutboxRows :: "outbox_replacement \<Rightarrow> string \<Rightarrow> outbox \<Rightarrow> outbox" where
  "restoreCurrentOutboxRows replacement now t =
     fold (restore_outcome now) (rpTerminalOutcomes replacement)
       (fold (upsert_snapshot now) (rpActiveRows replacement) t)"

subsection \<open>The row of an identifier\<close>

definition row_of :: "outbox \<Rightarrow> string \<Rightarrow> outbox_entry option" where
  "row_of t i = find (\<lambda>e. oeID e = i) t"

definition keeps_id :: "(outbox_entry \<Rightarrow> outbox_entry) \<Rightarrow> bool" where
  "keeps_id f \<longleftrightarrow> (\<forall>e. oeID (f e) = oeID e)"

lemma keeps_id_simps [simp]:
  "keeps_id (requeued n now)" "keeps_id (with_outcome outcome now)"
  "keeps_id (\<lambda>x. x\<lparr>oeRow := claimed_row n (oeRow x), oeUpdatedAt := m\<rparr>)"
  by (simp_all add: keeps_id_def requeued_def with_outcome_def claimed_row_def)

lemma row_of_Some: "row_of t i = Some e \<Longrightarrow> e \<in> set t \<and> oeID e = i"
  by (auto simp: row_of_def find_Some_iff)

lemma row_of_None: "row_of t i = None \<longleftrightarrow> i \<notin> oeID ` set t"
  by (auto simp: row_of_def find_None_iff)

lemma row_of_unique: "distinct (map oeID t) \<Longrightarrow> e \<in> set t \<Longrightarrow> row_of t (oeID e) = Some e"
  by (induction t) (auto simp: row_of_def)

lemma row_of_append: "row_of (t @ u) i = (case row_of t i of None \<Rightarrow> row_of u i | Some e \<Rightarrow> Some e)"
  by (induction t) (auto simp: row_of_def)

lemma ids_update_where [simp]: "keeps_id f \<Longrightarrow> map oeID (update_where p f t) = map oeID t"
  by (auto simp: update_where_def keeps_id_def)

lemma row_of_update_where:
  "keeps_id f \<Longrightarrow> row_of (update_where p f t) i = map_option (\<lambda>e. if p e then f e else e) (row_of t i)"
  by (induction t) (auto simp: update_where_def keeps_id_def row_of_def)

lemma affected_id:
  assumes "distinct (map oeID t)" and "e \<in> set t" and "p e" and "\<And>x. p x \<Longrightarrow> oeID x = oeID e"
  shows "affected p t = 1"
proof -
  have "set (filter p t) = {e}" using assms by (auto simp: distinct_map inj_on_def)
  moreover have "distinct (filter p t)" using assms(1) by (simp add: distinct_map)
  ultimately show ?thesis unfolding affected_def by (metis distinct_card card_1_singleton_iff One_nat_def)
qed

lemma insert_row_simps:
  "distinct (map oeID t) \<Longrightarrow> distinct (map oeID (insert_row now row t))"
  "row_of (insert_row now row t) i =
     (if row_of t i = None \<and> i = orID row then Some (inserted_entry now row) else row_of t i)"
proof -
  show "distinct (map oeID t) \<Longrightarrow> distinct (map oeID (insert_row now row t))"
    by (auto simp: insert_row_def inserted_entry_def)
  have single: "row_of [inserted_entry now row] j = (if j = orID row then Some (inserted_entry now row) else None)" for j
    by (auto simp: row_of_def inserted_entry_def)
  show "row_of (insert_row now row t) i =
     (if row_of t i = None \<and> i = orID row then Some (inserted_entry now row) else row_of t i)"
    using row_of_None [of t "orID row"]
    by (cases "row_of t (orID row)") (auto simp: insert_row_def row_of_append single split: option.splits)
qed

lemma insert_rows_distinct: "distinct (map oeID t) \<Longrightarrow> distinct (map oeID (insertOutboxRowsTx now rows t))"
  unfolding insertOutboxRowsTx_def by (induction rows arbitrary: t) (simp_all add: insert_row_simps)

lemma insert_rows_keep: "row_of t i = Some e \<Longrightarrow> row_of (insertOutboxRowsTx now rows t) i = Some e"
  unfolding insertOutboxRowsTx_def by (induction rows arbitrary: t) (simp_all add: insert_row_simps)

lemma insert_rows_elem:
  "e \<in> set (insertOutboxRowsTx now rows t) \<Longrightarrow> e \<in> set t \<or> (\<exists>row. row \<in> set rows \<and> e = inserted_entry now row)"
  unfolding insertOutboxRowsTx_def
proof (induction rows arbitrary: t)
  case (Cons r rows)
  from Cons.IH [of "insert_row now r t"] Cons.prems show ?case
    by (auto simp: insert_row_def split: if_splits)
qed simp

lemma claim_cases:
  assumes "distinct (map oeID t)" and "claimNextOutboxRow fmt now t = (res, t')"
  shows "(res = Inr None \<and> t' = t \<and> (\<forall>e\<in>set t. \<not> due (fmt now) e))
     \<or> (\<exists>e. find (due (fmt now)) t = Some e \<and> e \<in> set t \<and> due (fmt now) e \<and> res = Inr (Some (claimed_row (fmt now) (oeRow e)))
         \<and> t' = update_where (\<lambda>x. oeID x = oeID e \<and> waiting_state (oeState x))
                  (\<lambda>x. x\<lparr>oeRow := claimed_row (fmt now) (oeRow x), oeUpdatedAt := fmt now\<rparr>) t)"
proof (cases "find (due (fmt now)) t")
  case None
  then have "\<forall>e\<in>set t. \<not> due (fmt now) e" by (simp add: find_None_iff)
  with None assms(2) show ?thesis by (simp add: claimNextOutboxRow_def)
next
  case (Some e)
  then have e: "e \<in> set t" "due (fmt now) e" by (auto simp: find_Some_iff)
  have "affected (\<lambda>x. oeID x = oeID e \<and> waiting_state (oeState x)) t = 1"
    by (rule affected_id [OF assms(1) e(1)]) (use e(2) in \<open>auto simp: due_def\<close>)
  with Some e assms(2) show ?thesis by (simp add: claimNextOutboxRow_def Let_def)
qed

subsection \<open>Repeated claims\<close>

definition claims :: "(int \<Rightarrow> string) \<Rightarrow> int \<Rightarrow> nat \<Rightarrow> outbox \<Rightarrow> outbox" where
  "claims fmt now n t = ((\<lambda>u. snd (claimNextOutboxRow fmt now u)) ^^ n) t"

abbreviation claimed_entry :: "string \<Rightarrow> outbox_entry \<Rightarrow> outbox_entry" where
  "claimed_entry nowText x \<equiv> x\<lparr>oeRow := claimed_row nowText (oeRow x), oeUpdatedAt := nowText\<rparr>"

lemma claim_Cons:
  assumes "distinct (map oeID (x # t))"
  shows "snd (claimNextOutboxRow fmt now (x # t)) =
     (if due (fmt now) x then claimed_entry (fmt now) x # t else x # snd (claimNextOutboxRow fmt now t))"
proof -
  obtain res u where c: "claimNextOutboxRow fmt now (x # t) = (res, u)" by fastforce
  obtain res' u' where c': "claimNextOutboxRow fmt now t = (res', u')" by fastforce
  have d: "distinct (map oeID t)" and x: "oeID x \<notin> oeID ` set t" using assms by simp_all
  have skip: "update_where (\<lambda>y. oeID y = oeID x \<and> q y) f t = t" for q f
    using x by (induction t) (auto simp: update_where_def)
  have other: "oeID e \<noteq> oeID x" if "e \<in> set t" for e using x that by (metis imageI)
  show ?thesis
    using claim_cases [OF assms c] claim_cases [OF d c'] c c' skip
    by (auto simp: update_where_def due_def split: if_splits dest: other)
qed

lemma claim_ids: "distinct (map oeID t) \<Longrightarrow> map oeID (snd (claimNextOutboxRow fmt now t)) = map oeID t"
  using claim_cases [of t fmt now] by (cases "claimNextOutboxRow fmt now t") fastforce

lemma claims_ids: "distinct (map oeID t) \<Longrightarrow> map oeID (claims fmt now n t) = map oeID t"
  by (induction n) (simp_all add: claims_def claim_ids)

lemma claims_rest:
  assumes "\<not> due (fmt now) x" and "distinct (map oeID (x # t))"
  shows "claims fmt now n (x # t) = x # claims fmt now n t"
proof (induction n)
  case (Suc n)
  have "distinct (map oeID (x # claims fmt now n t))" using assms(2) by (simp add: claims_ids flip: set_map)
  with Suc assms(1) show ?case by (simp add: claims_def claim_Cons)
qed (simp add: claims_def)

lemma claims_Suc: "claims fmt now (Suc n) t = claims fmt now n (snd (claimNextOutboxRow fmt now t))"
  unfolding claims_def by (simp only: funpow_Suc_right comp_apply)

lemma claims_reach:
  "distinct (map oeID t) \<Longrightarrow> i < length t \<Longrightarrow> due (fmt now) (t ! i) \<Longrightarrow> i < n
   \<Longrightarrow> claims fmt now n t ! i = claimed_entry (fmt now) (t ! i)"
proof (induction t arbitrary: i n)
  case (Cons x t)
  obtain m where n: "n = Suc m" using Cons.prems(4) by (cases n) auto
  have claimed: "\<not> due (fmt now) (claimed_entry (fmt now) x)" by (simp add: due_def claimed_row_def waiting_state_def)
  have ids: "distinct (map oeID (claimed_entry (fmt now) x # t))" using Cons.prems(1) by (simp add: claimed_row_def)
  show ?case
  proof (cases "due (fmt now) x")
    case True
    then have "claims fmt now n (x # t) = claimed_entry (fmt now) x # claims fmt now m t"
      using claim_Cons [OF Cons.prems(1)] claims_rest [of fmt now, OF claimed ids] by (simp add: n claims_Suc)
    then show ?thesis using Cons n by (cases i) auto
  next
    case False
    then show ?thesis using Cons claims_rest [of fmt now x t n] by (cases i) auto
  qed
qed simp

subsection \<open>Replacement\<close>

lemma AList_update_fresh: "k \<notin> fst ` set al \<Longrightarrow> AList.update k v al = al @ [(k, v)]"
  by (induction al) auto

lemma fold_add_current:
  assumes "distinct (map oeID t)" and "oeID ` set t \<inter> (fst ` set (rpActiveRows r) \<union> fst ` set (rpTerminalOutcomes r)) = {}"
  shows "fold add_current t r = r\<lparr>
     rpActiveRows := rpActiveRows r @ map (\<lambda>e. (oeID e, active_snapshot e)) (filter (\<lambda>e. \<not> terminal_state (oeState e)) t),
     rpTerminalOutcomes := rpTerminalOutcomes r @ map (\<lambda>e. (oeID e, current_outcome e)) (filter (\<lambda>e. terminal_state (oeState e)) t)\<rparr>"
  using assms
proof (induction t arbitrary: r)
  case (Cons e t)
  from Cons.prems have e: "oeID e \<notin> fst ` set (rpActiveRows r)" "oeID e \<notin> fst ` set (rpTerminalOutcomes r)" by auto
  have "oeID ` set t \<inter> (fst ` set (rpActiveRows (add_current e r)) \<union> fst ` set (rpTerminalOutcomes (add_current e r))) = {}"
    using Cons.prems e by (auto simp: add_current_def AList_update_fresh)
  from Cons.IH [OF _ this] Cons.prems(1) e show ?case
    by (simp add: add_current_def AList_update_fresh)
qed simp

lemma load_current:
  assumes "distinct (map oeID t)"
  shows "rpActiveRows (loadCurrentOutboxRows t) = map (\<lambda>e. (oeID e, active_snapshot e)) (filter (\<lambda>e. \<not> terminal_state (oeState e)) t)"
    "rpTerminalOutcomes (loadCurrentOutboxRows t) = map (\<lambda>e. (oeID e, current_outcome e)) (filter (\<lambda>e. terminal_state (oeState e)) t)"
  using fold_add_current [OF assms, of "\<lparr>rpActiveRows = [], rpTerminalOutcomes = []\<rparr>"]
  by (simp_all add: loadCurrentOutboxRows_def)

lemma active_snapshot_id [simp]: "orID (osRow (active_snapshot e)) = oeID e"
  by (simp add: active_snapshot_def Let_def)

lemma snapshot_entry_id [simp]: "oeID (snapshot_entry now s) = orID (osRow s)"
  by (simp add: snapshot_entry_def Let_def)

lemma row_of_upsert:
  "row_of (upsert_snapshot now (k, s) t) i = (if i = orID (osRow s) then Some (snapshot_entry now s) else row_of t i)"
proof (cases "orID (osRow s) \<in> oeID ` set t")
  case True
  have up: "row_of (update_where (\<lambda>e. oeID e = orID (osRow s)) (\<lambda>_. snapshot_entry now s) t) i
      = map_option (\<lambda>e. if oeID e = orID (osRow s) then snapshot_entry now s else e) (row_of t i)"
    by (induction t) (auto simp: update_where_def row_of_def)
  show ?thesis
  proof (cases "row_of t i")
    case None
    then have "i \<noteq> orID (osRow s)" using True by (auto simp: row_of_None)
    with None True up show ?thesis by (simp add: upsert_snapshot_def)
  next
    case (Some e)
    then have "oeID e = i" using row_of_Some by blast
    with Some True up show ?thesis by (simp add: upsert_snapshot_def)
  qed
next
  case False
  then have none: "row_of t (orID (osRow s)) = None" by (simp add: row_of_None)
  have "row_of [snapshot_entry now s] i = (if i = orID (osRow s) then Some (snapshot_entry now s) else None)"
    by (simp add: row_of_def)
  with False none show ?thesis by (cases "row_of t i") (auto simp: upsert_snapshot_def row_of_append)
qed

lemma upsert_distinct: "distinct (map oeID t) \<Longrightarrow> distinct (map oeID (upsert_snapshot now x t))"
proof (cases x)
  case (Pair k s)
  assume d: "distinct (map oeID t)"
  have "map oeID (update_where (\<lambda>e. oeID e = orID (osRow s)) (\<lambda>_. snapshot_entry now s) t) = map oeID t"
    by (auto simp: update_where_def)
  with d show ?thesis by (auto simp: upsert_snapshot_def Pair)
qed

lemma fold_upsert_other:
  "i \<notin> (\<lambda>x. orID (osRow (snd x))) ` set xs \<Longrightarrow> row_of (fold (upsert_snapshot now) xs t) i = row_of t i"
  by (induction xs arbitrary: t) (auto simp: row_of_upsert split: prod.splits)

lemma fold_upsert_row:
  "distinct (map (\<lambda>x. orID (osRow (snd x))) xs) \<Longrightarrow> x \<in> set xs \<Longrightarrow>
     row_of (fold (upsert_snapshot now) xs t) (orID (osRow (snd x))) = Some (snapshot_entry now (snd x))"
proof (induction xs arbitrary: t)
  case (Cons y xs)
  then show ?case
  proof (cases "x = y")
    case True
    with Cons.prems have "orID (osRow (snd x)) \<notin> (\<lambda>x. orID (osRow (snd x))) ` set xs" by auto
    with True show ?thesis by (cases y) (simp add: fold_upsert_other row_of_upsert)
  qed auto
qed simp

lemma fold_upsert_distinct: "distinct (map oeID t) \<Longrightarrow> distinct (map oeID (fold (upsert_snapshot now) xs t))"
  by (induction xs arbitrary: t) (simp_all add: upsert_distinct)

definition unfinished :: "outbox_entry \<Rightarrow> bool" where
  "unfinished e \<longleftrightarrow> waiting_state (oeState e) \<or> oeState e = outboxStateClaimed"

lemma row_of_restore_outcome:
  "row_of (restore_outcome now (i, outcome) t) j =
     map_option (\<lambda>e. if j = i \<and> unfinished e then with_outcome outcome now e else e) (row_of t j)"
  by (cases "row_of t j")
    (auto simp: restore_outcome_def row_of_update_where unfinished_def waiting_state_def dest: row_of_Some)

lemma fold_restore_other:
  "i \<notin> fst ` set xs \<Longrightarrow> row_of (fold (restore_outcome now) xs t) i = row_of t i"
proof (induction xs arbitrary: t)
  case (Cons x xs)
  then show ?case by (cases x) (simp add: row_of_restore_outcome option.map_ident)
qed simp

lemma fold_restore_row:
  "distinct (map fst xs) \<Longrightarrow> (i, outcome) \<in> set xs \<Longrightarrow>
     row_of (fold (restore_outcome now) xs t) i = map_option (\<lambda>e. if unfinished e then with_outcome outcome now e else e) (row_of t i)"
proof (induction xs arbitrary: t)
  case (Cons x xs)
  show ?case
  proof (cases "x = (i, outcome)")
    case True
    with Cons.prems have "i \<notin> fst ` set xs" by auto
    with True show ?thesis by (simp add: fold_restore_other row_of_restore_outcome)
  next
    case False
    with Cons.prems have "fst x \<noteq> i" "(i, outcome) \<in> set xs" by (force simp: image_iff)+
    then show ?thesis using Cons.IH Cons.prems
      by (cases x) (simp add: row_of_restore_outcome option.map_ident option.map_comp comp_def)
  qed
qed simp

lemma restore_distinct: "distinct (map oeID t) \<Longrightarrow> distinct (map oeID (restoreCurrentOutboxRows r now t))"
proof -
  have "distinct (map oeID u) \<Longrightarrow> distinct (map oeID (fold (restore_outcome now) xs u))" for xs u
    by (induction xs arbitrary: u) (auto simp: restore_outcome_def split: prod.splits)
  then show "distinct (map oeID t) \<Longrightarrow> ?thesis"
    by (simp add: restoreCurrentOutboxRows_def fold_upsert_distinct)
qed

lemma current_outcome_terminal: "terminal_state (oeState e) \<Longrightarrow> \<not> unfinished (with_outcome (current_outcome e) now x)"
  by (auto simp: unfinished_def with_outcome_def current_outcome_def terminal_state_def waiting_state_def)

lemma snapshot_of_active:
  "oeRow (snapshot_entry now (active_snapshot e)) = (oeRow e)\<lparr>orIntent := (orIntent (oeRow e))\<lparr>diID := []\<rparr>,
     orState := (if oeState e = outboxStateClaimed then outboxStateRetrying else oeState e),
     orNextAttemptAt := (if oeState e = outboxStateClaimed then [] else orNextAttemptAt (oeRow e)),
     orClaimedAt := (if oeState e = outboxStateClaimed \<or> oeState e = outboxStateRetrying then [] else orClaimedAt (oeRow e))\<rparr>"
  by (simp add: snapshot_entry_def active_snapshot_def current_outcome_def Let_def)

subsection \<open>Printed times\<close>

text \<open>The format \<open>RFC3339Nano\<close> in UTC: the seconds, printed by \<open>seconds\<close>, then the fraction without
  trailing zeros, and \<open>Z\<close>.\<close>

definition fraction_text :: "nat \<Rightarrow> string" where
  "fraction_text n = (if n = 0 then []
     else CHR ''.'' # rev (dropWhile (\<lambda>c. c = CHR ''0'') (rev (replicate (9 - length (nat_digits n)) CHR ''0'' @ nat_digits n))))"

definition rfc3339nano :: "(int \<Rightarrow> string) \<Rightarrow> int \<Rightarrow> string" where
  "rfc3339nano seconds t = seconds (t div 1000000000) @ fraction_text (nat (t mod 1000000000)) @ ''Z''"

lemma less_append_same_length: "length xs = length ys \<Longrightarrow> xs < ys \<Longrightarrow> xs @ us < ys @ (vs :: string)"
  by (induction xs ys rule: list_induct2) auto

lemma earlier_second_is_less:
  "length (seconds (a div 1000000000)) = length (seconds (b div 1000000000)) \<Longrightarrow>
     seconds (a div 1000000000) < seconds (b div 1000000000) \<Longrightarrow> rfc3339nano seconds a < rfc3339nano seconds b"
  unfolding rfc3339nano_def by (rule less_append_same_length)

subsection \<open>Properties\<close>

text \<open>C17: Replacing the database by a backup neither repeats nor loses a notification. Take the current
  table \<open>t\<close>, any table \<open>b\<close> of a backup, and restore in \<open>b\<close> what was loaded from \<open>t\<close>, in whatever order
  the maps are iterated. A notification that was finished in \<open>t\<close> is not waiting or claimed afterwards,
  even when the backup still had it waiting; one that was unfinished in \<open>t\<close> is there with its
  content and its attempts, waiting again if it was claimed; every other row of the backup is as it was.\<close>

theorem restore_neither_repeats_nor_loses:
  assumes "distinct (map oeID t)"
    and "mset (rpActiveRows r) = mset (rpActiveRows (loadCurrentOutboxRows t))"
    and "mset (rpTerminalOutcomes r) = mset (rpTerminalOutcomes (loadCurrentOutboxRows t))"
  shows "case row_of t i of
      None \<Rightarrow> row_of (restoreCurrentOutboxRows r now b) i = row_of b i
    | Some e \<Rightarrow>
        if terminal_state (oeState e)
        then \<forall>e'. row_of (restoreCurrentOutboxRows r now b) i = Some e' \<longrightarrow> \<not> unfinished e'
        else \<exists>e'. row_of (restoreCurrentOutboxRows r now b) i = Some e'
          \<and> oeState e' = (if oeState e = outboxStateClaimed then outboxStateRetrying else oeState e)
          \<and> orAttempts (oeRow e') = orAttempts (oeRow e) \<and> orDestination (oeRow e') = orDestination (oeRow e)
          \<and> orFingerprint (oeRow e') = orFingerprint (oeRow e) \<and> orEventType (oeRow e') = orEventType (oeRow e)
          \<and> orIntent (oeRow e') = (orIntent (oeRow e))\<lparr>diID := []\<rparr>"
proof -
  note load = load_current [OF assms(1)]
  let ?id = "\<lambda>x. orID (osRow (snd x))"
  have active: "mset (map ?id (rpActiveRows r)) = mset (map oeID (filter (\<lambda>e. \<not> terminal_state (oeState e)) t))"
    unfolding mset_map assms(2) load by (simp add: multiset.map_comp comp_def flip: mset_map)
  have finished: "mset (map fst (rpTerminalOutcomes r)) = mset (map oeID (filter (\<lambda>e. terminal_state (oeState e)) t))"
    unfolding mset_map assms(3) load by (simp add: multiset.map_comp comp_def flip: mset_map)
  have distinct: "distinct (map ?id (rpActiveRows r))" "distinct (map fst (rpTerminalOutcomes r))"
    using assms(1) by (simp_all only: mset_eq_imp_distinct_iff [OF active] mset_eq_imp_distinct_iff [OF finished]) (simp_all add: distinct_map_filter)
  have ids: "?id ` set (rpActiveRows r) = oeID ` {e \<in> set t. \<not> terminal_state (oeState e)}"
    "fst ` set (rpTerminalOutcomes r) = oeID ` {e \<in> set t. terminal_state (oeState e)}"
    using mset_eq_setD [OF active] mset_eq_setD [OF finished] by (simp_all only: set_map set_filter)
  show ?thesis
  proof (cases "row_of t i")
    case None
    then have "i \<notin> ?id ` set (rpActiveRows r)" "i \<notin> fst ` set (rpTerminalOutcomes r)"
      unfolding ids by (auto simp: row_of_None)
    with None show ?thesis by (simp add: restoreCurrentOutboxRows_def fold_restore_other fold_upsert_other)
  next
    case (Some e)
    then have e: "e \<in> set t" "oeID e = i" using row_of_Some by auto
    show ?thesis
    proof (cases "terminal_state (oeState e)")
      case True
      have "(i, current_outcome e) \<in> set (rpTerminalOutcomes r)"
        unfolding mset_eq_setD [OF assms(3)] load using e True by auto
      note row = fold_restore_row [OF distinct(2) this, of now "fold (upsert_snapshot now) (rpActiveRows r) b"]
      have "\<not> unfinished e'" if "row_of (restoreCurrentOutboxRows r now b) i = Some e'" for e'
        using that current_outcome_terminal [OF True, of now]
        by (cases "row_of (fold (upsert_snapshot now) (rpActiveRows r) b) i")
          (auto simp: restoreCurrentOutboxRows_def row split: if_splits)
      with Some True show ?thesis by simp
    next
      case False
      have mem: "(i, active_snapshot e) \<in> set (rpActiveRows r)"
        unfolding mset_eq_setD [OF assms(2)] load using e False by auto
      have "i \<notin> fst ` set (rpTerminalOutcomes r)"
        unfolding ids using assms(1) e False by (auto simp: distinct_map inj_on_def)
      then have "row_of (restoreCurrentOutboxRows r now b) i = Some (snapshot_entry now (active_snapshot e))"
        using fold_upsert_row [OF distinct(1) mem] e by (simp add: restoreCurrentOutboxRows_def fold_restore_other)
      with Some False show ?thesis by (simp add: snapshot_of_active)
    qed
  qed
qed

lemma same_prefix_less [simp]: "xs @ us \<le> xs @ (vs :: string) \<longleftrightarrow> us \<le> vs"
  by (induction xs) auto

lemma fraction_texts: "fraction_text 100000000 = ''.1''" "fraction_text 120000000 = ''.12''"
proof -
  have digits: "char_of (48 :: nat) = CHR ''0''" "char_of (49 :: nat) = CHR ''1''" "char_of (50 :: nat) = CHR ''2''" by code_simp+
  show "fraction_text 100000000 = ''.1''" "fraction_text 120000000 = ''.12''"
    by (simp_all add: fraction_text_def nat_digits.simps digits)
qed

text \<open>C40: Due times are compared as texts, and the format drops trailing zeros, so within one second the order of
  the texts is not the order of the times: a row whose next attempt was due 20 milliseconds ago is not found,
  and one that is due only in 20 milliseconds is claimed.\<close>

theorem due_text_is_not_due_time:
  "claimNextOutboxRow (rfc3339nano seconds) (s * 1000000000 + 120000000)
     [requeued (rfc3339nano seconds (s * 1000000000 + 100000000)) now e]
   = (Inr None, [requeued (rfc3339nano seconds (s * 1000000000 + 100000000)) now e])
   \<and> (\<exists>row t'. claimNextOutboxRow (rfc3339nano seconds) (s * 1000000000 + 100000000)
        [requeued (rfc3339nano seconds (s * 1000000000 + 120000000)) now e] = (Inr (Some row), t'))"
proof -
  have time: "rfc3339nano seconds (s * 1000000000 + 100000000) = seconds s @ ''.1Z''"
    "rfc3339nano seconds (s * 1000000000 + 120000000) = seconds s @ ''.12Z''"
    by (simp_all add: rfc3339nano_def fraction_texts)
  have order: "\<not> ''.1Z'' \<le> ''.12Z''" "''.12Z'' \<le> ''.1Z''" by code_simp+
  show ?thesis unfolding claimNextOutboxRow_def time
    by (simp add: due_def requeued_def waiting_state_def order affected_def Let_def)
qed


subsection \<open>Witnesses\<close>

definition sample_row :: "string \<Rightarrow> outbox_row" where
  "sample_row i = \<lparr>orID = i, orDestination = ''webhook'', orFingerprint = ''f'', orEventType = ''update.complete'',
     orIntent = \<lparr>diID = i, diCreatedAt = ''t0'', diActor = [], diAction = ''update.complete'', diTargetType = ''server'',
       diTargetName = ''web'', diStatus = ''success'', diMessage = [], diMetaJSON = ''null'', diClientIP = []\<rparr>,
     orState = outboxStatePending, orAttempts = 0, orNextAttemptAt = [], orClaimedAt = []\<rparr>"

definition sample_delivered :: outbox_outcome where
  "sample_delivered = \<lparr>ooState = outboxStateSucceeded, ooAttempts = 1, ooNextAttemptAt = [], ooAttemptedAt = ''t1'',
     ooCompletedAt = ''t2'', ooStatusCode = 200, ooError = [], ooDurationMS = 3\<rparr>"

text \<open>A backup with one notification waiting; the current table has it delivered and another one claimed.\<close>

definition sample_backup :: outbox where
  "sample_backup = insertOutboxRowsTx ''t0'' [sample_row ''a''] []"

definition sample_outbox :: outbox where
  "sample_outbox =
     snd (claimNextOutboxRow (\<lambda>_. ''t4'') 4 (insertOutboxRowsTx ''t3'' [sample_row ''b'']
       (snd (completeOutboxRow ''a'' sample_delivered ''t2'' (snd (claimNextOutboxRow (\<lambda>_. ''t1'') 1 sample_backup))))))"

theorem restore_neither_repeats_nor_loses_witness:
  "case row_of sample_outbox ''a'' of None \<Rightarrow> False
   | Some e \<Rightarrow> terminal_state (oeState e)
     \<and> \<not> (\<exists>e'. row_of (restoreCurrentOutboxRows (loadCurrentOutboxRows sample_outbox) ''t5'' sample_backup) ''a'' = Some e' \<and> unfinished e')"
proof -
  have ids: "distinct (map oeID sample_outbox)" by code_simp
  obtain e where e: "row_of sample_outbox ''a'' = Some e" "terminal_state (oeState e)"
  proof -
    have "case row_of sample_outbox ''a'' of None \<Rightarrow> False | Some e \<Rightarrow> terminal_state (oeState e)" by code_simp
    with that show ?thesis by (auto split: option.splits)
  qed
  show ?thesis
    using restore_neither_repeats_nor_loses [OF ids refl refl, where i = "''a''" and now = "''t5''" and b = sample_backup] e by auto
qed


end
