(* ===== verification/NotificationSettings.thy ===== *)
theory NotificationSettings
  imports Prelude "HOL-Library.AList"
begin

section \<open>NotificationSettings: destinations and their stored configuration\<close>

text \<open>
  The model of the settings part of \<open>internal/notifications/service.go\<close> and of \<open>integrations.go\<close>: the
  validation of destinations, the stored settings with their encrypted secrets, and \<open>SaveSettings\<close>. The
  row of the table \<open>settings\<close> is a text or missing. The record \<open>settings_env\<close> holds the functions of the
  standard library and the injected ones: \<open>url.Parse\<close>, the test for local addresses on \<open>net.IP\<close>,
  \<open>url.URL.String\<close>, the JSON codec of the stored settings, and the encryption of secrets, which are always
  provided.
\<close>

subsection \<open>Constants\<close>

abbreviation DestinationWebhook :: string where "DestinationWebhook \<equiv> ''webhook''"
abbreviation DestinationDiscord :: string where "DestinationDiscord \<equiv> ''discord''"
abbreviation DestinationTelegram :: string where "DestinationTelegram \<equiv> ''telegram''"
abbreviation EventUpdateComplete :: string where "EventUpdateComplete \<equiv> ''update.complete''"
abbreviation EventTest :: string where "EventTest \<equiv> ''notification.test''"
abbreviation EventApprovalPublished :: string where "EventApprovalPublished \<equiv> ''approval.published''"
abbreviation EventRebootRequired :: string where "EventRebootRequired \<equiv> ''reboot.required''"
abbreviation EventReminder :: string where "EventReminder \<equiv> ''notification.reminder''"
abbreviation WebhookURLPreserve :: string where "WebhookURLPreserve \<equiv> ''preserve''"
abbreviation WebhookURLReplace :: string where "WebhookURLReplace \<equiv> ''replace''"
abbreviation WebhookURLClear :: string where "WebhookURLClear \<equiv> ''clear''"
abbreviation DeliveryOutcomeSucceeded :: string where "DeliveryOutcomeSucceeded \<equiv> ''succeeded''"
abbreviation DeliveryOutcomeRetrying :: string where "DeliveryOutcomeRetrying \<equiv> ''retrying''"
abbreviation DeliveryOutcomeFailed :: string where "DeliveryOutcomeFailed \<equiv> ''failed''"

definition legacyEvents :: "string list" where
  "legacyEvents = [EventUpdateComplete, ''schedule.run.failed'', ''schedule.run.skipped'', ''backup.restore'']"

definition conditionEvents :: "string list" where
  "conditionEvents = [EventApprovalPublished, ''approval.expired'', EventRebootRequired, ''backup.export.failed'',
     ''backup.verify.failed'', ''backup.coverage.missing'', ''backup.coverage.stale'']"

definition supportedEvents :: "string list" where
  "supportedEvents = legacyEvents @ conditionEvents"

subsection \<open>Delivery status\<close>

record delivery_status =
  dsDestination :: string
  dsEventType :: string
  dsAction :: string
  dsTargetName :: string
  dsOutcome :: string
  dsSuccess :: bool
  dsAttempts :: int
  dsStatusCode :: int
  dsError :: string
  dsAttemptedAt :: string
  dsCompletedAt :: string
  dsDeliveredAt :: string
  dsDurationMS :: int
  dsConsecutiveFailures :: int
  dsNextRetryAt :: string

text \<open>The errors of a delivery, as far as \<open>errors.Is\<close> distinguishes them.\<close>

datatype delivery_error = ErrCanceled | ErrDeadlineExceeded | ErrText string

definition truncate_runes :: "string \<Rightarrow> nat \<Rightarrow> string" where
  "truncate_runes value maximum =
     (if maximum = 0 then []
      else let runes = go_runes value in
        if length runes \<le> maximum then value else concat (take maximum runes))"

definition safeDeliveryError :: "delivery_error \<Rightarrow> string" where
  "safeDeliveryError err =
     (case err of
        ErrCanceled \<Rightarrow> ''Webhook delivery was canceled.''
      | ErrDeadlineExceeded \<Rightarrow> ''Webhook delivery timed out.''
      | ErrText text \<Rightarrow>
          let message = trim_space text in
          if prefix ''webhook returned HTTP '' message then truncate_runes message 240
          else ''Webhook delivery failed.'')"

definition safeDeliveryStatus :: "delivery_status \<Rightarrow> delivery_status" where
  "safeDeliveryStatus status =
     (let outcome = (if dsOutcome status \<in> {DeliveryOutcomeSucceeded, DeliveryOutcomeRetrying, DeliveryOutcomeFailed}
                     then dsOutcome status
                     else if dsSuccess status then DeliveryOutcomeSucceeded else DeliveryOutcomeFailed);
          attempted1 = (if dsAttemptedAt status = [] then dsCompletedAt status else dsAttemptedAt status);
          attempted = (if attempted1 = [] then dsDeliveredAt status else attempted1);
          completed = (if dsCompletedAt status = [] then dsDeliveredAt status else dsCompletedAt status) in
      status\<lparr>dsOutcome := outcome,
        dsSuccess := (outcome = DeliveryOutcomeSucceeded),
        dsAttemptedAt := attempted,
        dsCompletedAt := completed,
        dsDeliveredAt := (if dsDeliveredAt status = [] then completed else dsDeliveredAt status),
        dsDurationMS := (if dsDurationMS status < 0 then 0 else dsDurationMS status),
        dsConsecutiveFailures :=
          (if outcome = DeliveryOutcomeSucceeded then 0
           else if dsConsecutiveFailures status \<le> 0 then 1 else dsConsecutiveFailures status),
        dsNextRetryAt := (if outcome \<noteq> DeliveryOutcomeRetrying then [] else dsNextRetryAt status),
        dsError := (if trim_space (dsError status) \<noteq> [] then safeDeliveryError (ErrText (dsError status)) else dsError status)\<rparr>)"

type_synonym delivery_statuses = "(string \<times> delivery_status option) list"

definition cloneDeliveryStatuses :: "delivery_statuses \<Rightarrow> delivery_statuses" where
  "cloneDeliveryStatuses values = map (\<lambda>(d, status). (d, map_option safeDeliveryStatus status)) values"

definition deliveryStatusTimestamp :: "delivery_status \<Rightarrow> string" where
  "deliveryStatusTimestamp status =
     (if trim_space (dsAttemptedAt status) \<noteq> [] then dsAttemptedAt status else dsCompletedAt status)"

subsection \<open>Settings\<close>

record notification_settings =
  nsRemindersEnabled :: bool
  nsReminderInterval :: int
  nsEnabled :: bool
  nsWebhookURL :: string
  nsDiscordEnabled :: bool
  nsDiscordWebhookURL :: string
  nsTelegramEnabled :: bool
  nsTelegramBotToken :: string
  nsTelegramChatID :: string
  nsEventTypes :: "string list"
  nsLastDelivery :: "delivery_status option"
  nsLastDeliveries :: delivery_statuses

definition latestDeliveryStatus :: "notification_settings \<Rightarrow> delivery_status option" where
  "latestDeliveryStatus settings =
     fold (\<lambda>(_, candidate) latest.
        case map_option safeDeliveryStatus candidate of
          None \<Rightarrow> latest
        | Some c \<Rightarrow> (case latest of
              None \<Rightarrow> Some c
            | Some l \<Rightarrow> if deliveryStatusTimestamp l < deliveryStatusTimestamp c then Some c else Some l))
       (nsLastDeliveries settings) (map_option safeDeliveryStatus (nsLastDelivery settings))"

record persisted_settings =
  psRemindersEnabled :: bool
  psReminderInterval :: int
  psEnabled :: bool
  psLegacyWebhookURL :: string
  psEncryptedWebhookURL :: string
  psDiscordEnabled :: bool
  psDiscordWebhookURL :: string
  psTelegramEnabled :: bool
  psTelegramBotToken :: string
  psTelegramChatID :: string
  psEventTypes :: "string list option"
  psLastDelivery :: "delivery_status option"
  psLastDeliveries :: delivery_statuses

record parsed_url =
  puScheme :: string
  puHost :: string
  puHostname :: string
  puPort :: string
  puUser :: bool
  puPath :: string
  puEscapedPath :: string
  puRawQuery :: string
  puFragment :: string

record settings_env =
  seParseURL :: "string \<Rightarrow> parsed_url option"
  seLocalIP :: "string \<Rightarrow> bool"
  seURLString :: "string \<Rightarrow> string \<Rightarrow> string"
  seEncode :: "persisted_settings \<Rightarrow> string"
  seDecode :: "string \<Rightarrow> persisted_settings option"
  seEncrypt :: "string \<Rightarrow> string option"
  seDecrypt :: "string \<Rightarrow> string option"

datatype settings_error = UnsupportedEvent string | ValidationError string | StorageError string

record discord_update =
  duEnabled :: bool
  duWebhookURL :: string
  duIntent :: string

record telegram_update =
  tuEnabled :: bool
  tuBotToken :: string
  tuChatID :: string
  tuIntent :: string

record settings_update =
  suRemindersEnabled :: bool
  suReminderInterval :: int
  suEnabled :: bool
  suWebhookURL :: string
  suWebhookURLIntent :: string
  suEventTypes :: "string list"
  suDiscord :: "discord_update option"
  suTelegram :: "telegram_update option"

subsection \<open>Validation\<close>

text \<open>The loop over the values, with the events accepted so far.\<close>

fun event_types_loop :: "string list \<Rightarrow> string list \<Rightarrow> (settings_error, string list) result" where
  "event_types_loop out [] = Inr (sort out)"
| "event_types_loop out (value # values) =
     (let eventType = trim_space value in
      if eventType = [] then event_types_loop out values
      else if eventType \<notin> set supportedEvents then Inl (UnsupportedEvent eventType)
      else if eventType \<in> set out then event_types_loop out values
      else event_types_loop (out @ [eventType]) values)"

definition normalizeEventTypes :: "string list \<Rightarrow> (settings_error, string list) result" where
  "normalizeEventTypes values = (if values = [] then Inr [] else event_types_loop [] values)"

definition eventEnabled :: "string list \<Rightarrow> string \<Rightarrow> bool" where
  "eventEnabled events eventType \<longleftrightarrow> eventType \<in> set events"

definition known_intent :: "string \<Rightarrow> bool" where
  "known_intent intent \<longleftrightarrow> intent = WebhookURLPreserve \<or> intent = WebhookURLReplace \<or> intent = WebhookURLClear"

definition normalizeWebhookURLIntent :: "settings_update \<Rightarrow> (settings_error, string) result" where
  "normalizeWebhookURLIntent update =
     (let intent = to_lower (trim_space (suWebhookURLIntent update)) in
      if intent = [] then Inr (if trim_space (suWebhookURL update) \<noteq> [] then WebhookURLReplace else WebhookURLPreserve)
      else if known_intent intent then Inr intent
      else Inl (ValidationError ''webhook_url_intent must be preserve, replace, or clear.''))"

definition normalizeSecretIntent :: "string \<Rightarrow> (settings_error, string) result" where
  "normalizeSecretIntent intent =
     (let normalized = to_lower (trim_space intent) in
      if normalized = [] then Inr WebhookURLPreserve
      else if known_intent normalized then Inr normalized
      else Inl (ValidationError ''integration intent must be preserve, replace, or clear.''))"

definition isLocalWebhookHost :: "settings_env \<Rightarrow> string \<Rightarrow> bool" where
  "isLocalWebhookHost env host =
     (let normalized = to_lower (trim_suffix ''.'' (trim_space host)) in
      normalized = ''localhost'' \<or> suffix ''.localhost'' normalized \<or> suffix ''.local'' normalized
      \<or> suffix ''.internal'' normalized \<or> seLocalIP env normalized)"

definition validateReplacementWebhookURL :: "settings_env \<Rightarrow> string \<Rightarrow> settings_error option" where
  "validateReplacementWebhookURL env raw =
     (case seParseURL env (trim_space raw) of
        None \<Rightarrow> Some (ValidationError ''Webhook URL must be a valid HTTPS URL.'')
      | Some parsed \<Rightarrow>
          if puHost parsed = [] then Some (ValidationError ''Webhook URL must be a valid HTTPS URL.'')
          else if puUser parsed then Some (ValidationError ''Embedded URL credentials are not supported.'')
          else if puScheme parsed = ''https'' then None
          else if puScheme parsed = ''http'' then
            (if isLocalWebhookHost env (puHostname parsed) then None
             else Some (ValidationError ''Use HTTPS for public endpoints. HTTP is allowed only for localhost, private IP addresses, and .local or .internal hosts.''))
          else Some (ValidationError ''Webhook URL must use HTTPS. HTTP is allowed only for supported local or internal endpoints.''))"

definition validateStoredWebhookURL :: "settings_env \<Rightarrow> string \<Rightarrow> settings_error option" where
  "validateStoredWebhookURL env raw =
     (case validateReplacementWebhookURL env raw of
        None \<Rightarrow> None
      | Some _ \<Rightarrow> Some (ValidationError ''The configured webhook URL violates the current notification destination policy.''))"

definition trim_slashes :: "string \<Rightarrow> string" where
  "trim_slashes s = rev (dropWhile (\<lambda>c. c = CHR ''/'') (rev (dropWhile (\<lambda>c. c = CHR ''/'') s)))"

definition official_discord_host :: "string \<Rightarrow> bool" where
  "official_discord_host host \<longleftrightarrow> host = ''discord.com'' \<or> suffix ''.discord.com'' host
     \<or> host = ''discordapp.com'' \<or> suffix ''.discordapp.com'' host"

definition validateDiscordWebhookURL :: "settings_env \<Rightarrow> string \<Rightarrow> settings_error option" where
  "validateDiscordWebhookURL env raw =
     (let invalid = Some (ValidationError ''Discord webhook URL must be a valid HTTPS URL without embedded credentials.'') in
      case seParseURL env (trim_space raw) of
        None \<Rightarrow> invalid
      | Some parsed \<Rightarrow>
          if puScheme parsed \<noteq> ''https'' \<or> puHostname parsed = [] \<or> puUser parsed then invalid
          else if \<not> official_discord_host (to_lower (puHostname parsed))
          then Some (ValidationError ''Use an official Discord webhook URL.'')
          else case dropWhile (\<lambda>part. part \<noteq> ''webhooks'') (split_char CHR ''/'' (trim_slashes (puPath parsed))) of
            _ # identifier # token # _ \<Rightarrow>
              if trim_space identifier = [] \<or> trim_space token = []
              then Some (ValidationError ''Discord webhook URL must include its webhook ID and token.'') else None
          | _ \<Rightarrow> Some (ValidationError ''Discord webhook URL must include its webhook ID and token.''))"

definition word_char :: "char \<Rightarrow> bool" where
  "word_char c \<longleftrightarrow> is_digit c \<or> is_lower c \<or> is_upper c \<or> c = CHR ''_''"

text \<open>The three regular expressions.\<close>

definition telegramBotTokenPattern :: "string \<Rightarrow> bool" where
  "telegramBotTokenPattern s =
     (case cut_at s CHR '':'' of (number, secret, found) \<Rightarrow>
        found \<and> number \<noteq> [] \<and> list_all is_digit number \<and> 20 \<le> length secret
        \<and> list_all (\<lambda>c. word_char c \<or> c = CHR ''-'') secret)"

definition telegramChatIDPattern :: "string \<Rightarrow> bool" where
  "telegramChatIDPattern s =
     (let digits = trim_prefix ''-'' s in digits \<noteq> [] \<and> list_all is_digit digits)"

definition telegramUsernamePattern :: "string \<Rightarrow> bool" where
  "telegramUsernamePattern s =
     (case s of
        a # b # rest \<Rightarrow> a = CHR ''@'' \<and> (is_lower b \<or> is_upper b) \<and> 4 \<le> length rest \<and> length rest \<le> 31 \<and> list_all word_char rest
      | _ \<Rightarrow> False)"

definition validateTelegramCredentials :: "string \<Rightarrow> string \<Rightarrow> settings_error option" where
  "validateTelegramCredentials token chatID =
     (if \<not> telegramBotTokenPattern (trim_space token) then Some (ValidationError ''Telegram bot token is invalid.'')
      else if \<not> telegramChatIDPattern (trim_space chatID) \<and> \<not> telegramUsernamePattern (trim_space chatID)
      then Some (ValidationError ''Telegram chat ID must be numeric or a public @channel username.'')
      else None)"

subsection \<open>Destinations\<close>

definition anyDestinationEnabled :: "notification_settings \<Rightarrow> bool" where
  "anyDestinationEnabled s \<longleftrightarrow> nsEnabled s \<or> nsDiscordEnabled s \<or> nsTelegramEnabled s"

definition enabledDestinations :: "notification_settings \<Rightarrow> string list" where
  "enabledDestinations s =
     (if nsEnabled s then [DestinationWebhook] else []) @ (if nsDiscordEnabled s then [DestinationDiscord] else [])
     @ (if nsTelegramEnabled s then [DestinationTelegram] else [])"

definition destinationEnabled :: "notification_settings \<Rightarrow> string \<Rightarrow> bool" where
  "destinationEnabled s destination =
     (if destination = DestinationWebhook then nsEnabled s
      else if destination = DestinationDiscord then nsDiscordEnabled s
      else if destination = DestinationTelegram then nsTelegramEnabled s
      else False)"

definition destinationConfigured :: "notification_settings \<Rightarrow> string \<Rightarrow> bool" where
  "destinationConfigured s destination =
     (if destination = DestinationWebhook then trim_space (nsWebhookURL s) \<noteq> []
      else if destination = DestinationDiscord then trim_space (nsDiscordWebhookURL s) \<noteq> []
      else if destination = DestinationTelegram then trim_space (nsTelegramBotToken s) \<noteq> [] \<and> trim_space (nsTelegramChatID s) \<noteq> []
      else False)"

definition destinationConfigFingerprint :: "(string \<Rightarrow> string) \<Rightarrow> notification_settings \<Rightarrow> string \<Rightarrow> string" where
  "destinationConfigFingerprint sha256 s destination =
     (let token = trim_space (nsTelegramBotToken s); chatID = trim_space (nsTelegramChatID s);
          identity = (if destination = DestinationWebhook then trim_space (nsWebhookURL s)
            else if destination = DestinationDiscord then trim_space (nsDiscordWebhookURL s)
            else if destination = DestinationTelegram \<and> token \<noteq> [] \<and> chatID \<noteq> [] then token @ [CHR 0x00] @ chatID
            else []) in
      if identity = [] then [] else sha256 (destination @ [CHR 0x00] @ identity))"

subsection \<open>The stored settings\<close>

definition default_settings :: notification_settings where
  "default_settings = \<lparr>nsRemindersEnabled = False, nsReminderInterval = 1440, nsEnabled = False, nsWebhookURL = [],
     nsDiscordEnabled = False, nsDiscordWebhookURL = [], nsTelegramEnabled = False, nsTelegramBotToken = [],
     nsTelegramChatID = [], nsEventTypes = legacyEvents, nsLastDelivery = None, nsLastDeliveries = []\<rparr>"

definition encryptStoredSecret :: "settings_env \<Rightarrow> string \<Rightarrow> string option" where
  "encryptStoredSecret env value = (if trim_space value = [] then Some [] else seEncrypt env (trim_space value))"

definition decryptStoredSecret :: "settings_env \<Rightarrow> string \<Rightarrow> string option" where
  "decryptStoredSecret env ciphertext = map_option trim_space (seDecrypt env ciphertext)"

definition or_error :: "string \<Rightarrow> 'a option \<Rightarrow> (settings_error, 'a) result" where
  "or_error message x = (case x of None \<Rightarrow> Inl (StorageError message) | Some y \<Rightarrow> Inr y)"

text \<open>What \<open>saveSettings\<close> stores: the record with the secrets protected, and the row.\<close>

definition protected_settings :: "settings_env \<Rightarrow> notification_settings \<Rightarrow> (settings_error, persisted_settings) result" where
  "protected_settings env s =
     bind_result (if trim_space (nsWebhookURL s) \<noteq> [] then or_error ''webhook URL could not be protected'' (seEncrypt env (nsWebhookURL s)) else Inr []) (\<lambda>url.
     bind_result (or_error ''discord webhook URL could not be protected'' (encryptStoredSecret env (nsDiscordWebhookURL s))) (\<lambda>discord.
     bind_result (or_error ''telegram bot token could not be protected'' (encryptStoredSecret env (nsTelegramBotToken s))) (\<lambda>token.
     bind_result (or_error ''telegram chat ID could not be protected'' (encryptStoredSecret env (nsTelegramChatID s))) (\<lambda>chatID.
     Inr \<lparr>psRemindersEnabled = nsRemindersEnabled s, psReminderInterval = nsReminderInterval s,
        psEnabled = nsEnabled s, psLegacyWebhookURL = [], psEncryptedWebhookURL = url, psDiscordEnabled = nsDiscordEnabled s,
        psDiscordWebhookURL = discord, psTelegramEnabled = nsTelegramEnabled s, psTelegramBotToken = token,
        psTelegramChatID = chatID, psEventTypes = Some (nsEventTypes s),
        psLastDelivery = map_option safeDeliveryStatus (nsLastDelivery s),
        psLastDeliveries = cloneDeliveryStatuses (nsLastDeliveries s)\<rparr>))))"

definition saveSettings :: "settings_env \<Rightarrow> notification_settings \<Rightarrow> (settings_error, string) result" where
  "saveSettings env s = bind_result (protected_settings env s) (\<lambda>stored. Inr (seEncode env stored))"

definition stored_secret :: "settings_env \<Rightarrow> string \<Rightarrow> string \<Rightarrow> (settings_error, string) result" where
  "stored_secret env message ciphertext =
     (if trim_space ciphertext \<noteq> [] then or_error message (decryptStoredSecret env ciphertext) else Inr [])"

definition stored_events :: "string list option \<Rightarrow> string list" where
  "stored_events events =
     (case events of
        None \<Rightarrow> legacyEvents
      | Some values \<Rightarrow> (case normalizeEventTypes values of Inl _ \<Rightarrow> legacyEvents | Inr out \<Rightarrow> out))"

text \<open>The settings of a stored record, and whether the row has to be rewritten.\<close>

definition read_settings :: "settings_env \<Rightarrow> persisted_settings \<Rightarrow> (settings_error, notification_settings \<times> bool) result" where
  "read_settings env stored =
     (let legacyURLStored = (trim_space (psEncryptedWebhookURL stored) = [] \<and> trim_space (psLegacyWebhookURL stored) \<noteq> []) in
      bind_result (if trim_space (psEncryptedWebhookURL stored) \<noteq> []
                   then or_error ''protected webhook URL cannot be loaded'' (seDecrypt env (psEncryptedWebhookURL stored))
                   else Inr (psLegacyWebhookURL stored)) (\<lambda>rawURL.
      let url = trim_space rawURL;
          unsafe = (psEnabled stored \<and> url \<noteq> [] \<and> validateStoredWebhookURL env url \<noteq> None) in
      bind_result (stored_secret env ''protected Discord webhook URL cannot be loaded'' (psDiscordWebhookURL stored)) (\<lambda>discord.
      bind_result (stored_secret env ''protected Telegram bot token cannot be loaded'' (psTelegramBotToken stored)) (\<lambda>token.
      bind_result (stored_secret env ''protected Telegram chat ID cannot be loaded'' (psTelegramChatID stored)) (\<lambda>chatID.
      Inr (\<lparr>nsRemindersEnabled = psRemindersEnabled stored,
        nsReminderInterval = (if psReminderInterval stored < 5 \<or> 43200 < psReminderInterval stored then 1440 else psReminderInterval stored),
        nsEnabled = (psEnabled stored \<and> \<not> unsafe), nsWebhookURL = url,
        nsDiscordEnabled = psDiscordEnabled stored, nsDiscordWebhookURL = discord,
        nsTelegramEnabled = psTelegramEnabled stored, nsTelegramBotToken = token, nsTelegramChatID = chatID,
        nsEventTypes = stored_events (psEventTypes stored),
        nsLastDelivery = map_option safeDeliveryStatus (psLastDelivery stored),
        nsLastDeliveries = cloneDeliveryStatuses (psLastDeliveries stored)\<rparr>, legacyURLStored \<or> unsafe))))))"

definition loadSettings :: "settings_env \<Rightarrow> string option \<Rightarrow> (settings_error, notification_settings) result \<times> string option" where
  "loadSettings env raw =
     (case raw of
        None \<Rightarrow> (Inr default_settings, raw)
      | Some text \<Rightarrow>
          (case seDecode env text of
             None \<Rightarrow> (Inl (StorageError ''json''), raw)
           | Some stored \<Rightarrow>
               (case read_settings env stored of
                  Inl e \<Rightarrow> (Inl e, raw)
                | Inr (s, rewrite) \<Rightarrow>
                    if \<not> rewrite then (Inr s, raw)
                    else case saveSettings env s of
                      Inr row \<Rightarrow> (Inr s, Some row)
                    | Inl _ \<Rightarrow>
                        (Inl (StorageError
                           (if trim_space (psEncryptedWebhookURL stored) = [] \<and> trim_space (psLegacyWebhookURL stored) \<noteq> []
                            then ''legacy webhook URL could not be protected''
                            else ''unsafe webhook configuration could not be disabled'')), raw))))"

text \<open>The three parts of \<open>SaveSettings\<close> that merge an update into the current settings.\<close>

definition merge_webhook :: "settings_env \<Rightarrow> settings_update \<Rightarrow> string \<Rightarrow> notification_settings \<Rightarrow> (settings_error, notification_settings) result" where
  "merge_webhook env update intent s =
     bind_result
       (if intent = WebhookURLReplace then
          (let replacement = trim_space (suWebhookURL update) in
           if replacement = [] then Inl (ValidationError ''A replacement webhook URL is required.'')
           else case validateReplacementWebhookURL env replacement of
             Some e \<Rightarrow> Inl e | None \<Rightarrow> Inr (s\<lparr>nsWebhookURL := replacement\<rparr>))
        else if intent = WebhookURLClear then
          (if trim_space (suWebhookURL update) \<noteq> [] then Inl (ValidationError ''webhook_url must be empty when clearing the configured URL.'')
           else if suEnabled update then Inl (ValidationError ''Disable webhook delivery before clearing the configured URL.'')
           else Inr (s\<lparr>nsWebhookURL := []\<rparr>))
        else if trim_space (suWebhookURL update) \<noteq> [] then Inl (ValidationError ''webhook_url must be empty when preserving the configured URL.'')
        else Inr s)
       (\<lambda>s'. if nsEnabled s' then
            (if nsWebhookURL s' = [] then Inl (ValidationError ''Enablement requires a configured webhook URL. Choose Replace URL first.'')
             else if validateStoredWebhookURL env (nsWebhookURL s') \<noteq> None
             then Inl (ValidationError ''Configured webhook URL no longer satisfies the current policy. Replace it before enabling delivery.'')
             else Inr s')
          else Inr s')"

definition merge_discord :: "settings_env \<Rightarrow> discord_update \<Rightarrow> notification_settings \<Rightarrow> (settings_error, notification_settings \<times> string) result" where
  "merge_discord env update s0 =
     bind_result (normalizeSecretIntent (duIntent update)) (\<lambda>intent.
     let s = s0\<lparr>nsDiscordEnabled := duEnabled update\<rparr> in
     bind_result
       (if intent = WebhookURLReplace then
          (let replacement = trim_space (duWebhookURL update) in
           if replacement = [] then Inl (ValidationError ''A replacement Discord webhook URL is required.'')
           else case validateDiscordWebhookURL env replacement of
             Some e \<Rightarrow> Inl e | None \<Rightarrow> Inr (s\<lparr>nsDiscordWebhookURL := replacement\<rparr>))
        else if intent = WebhookURLClear then
          (if trim_space (duWebhookURL update) \<noteq> [] then Inl (ValidationError ''discord.webhook_url must be empty when clearing the configured URL.'')
           else if duEnabled update then Inl (ValidationError ''Disable Discord delivery before clearing the configured URL.'')
           else Inr (s\<lparr>nsDiscordWebhookURL := []\<rparr>))
        else if trim_space (duWebhookURL update) \<noteq> [] then Inl (ValidationError ''discord.webhook_url must be empty when preserving the configured URL.'')
        else Inr s)
       (\<lambda>s'. if nsDiscordEnabled s' \<and> nsDiscordWebhookURL s' = []
          then Inl (ValidationError ''Discord enablement requires a configured webhook URL.'') else Inr (s', intent)))"

definition merge_telegram :: "telegram_update \<Rightarrow> notification_settings \<Rightarrow> (settings_error, notification_settings \<times> string) result" where
  "merge_telegram update s0 =
     bind_result (normalizeSecretIntent (tuIntent update)) (\<lambda>intent.
     let s = s0\<lparr>nsTelegramEnabled := tuEnabled update\<rparr>;
         token = trim_space (tuBotToken update); chatID = trim_space (tuChatID update) in
     bind_result
       (if intent = WebhookURLReplace then
          (case validateTelegramCredentials token chatID of
             Some e \<Rightarrow> Inl e | None \<Rightarrow> Inr (s\<lparr>nsTelegramBotToken := token, nsTelegramChatID := chatID\<rparr>))
        else if intent = WebhookURLClear then
          (if token \<noteq> [] \<or> chatID \<noteq> [] then Inl (ValidationError ''Telegram credentials must be empty when clearing the configured integration.'')
           else if tuEnabled update then Inl (ValidationError ''Disable Telegram delivery before clearing the configured integration.'')
           else Inr (s\<lparr>nsTelegramBotToken := [], nsTelegramChatID := []\<rparr>))
        else if token \<noteq> [] \<or> chatID \<noteq> [] then Inl (ValidationError ''Telegram credentials must be empty when preserving the configured integration.'')
        else Inr s)
       (\<lambda>s'. if nsTelegramEnabled s' \<and> (nsTelegramBotToken s' = [] \<or> nsTelegramChatID s' = [])
          then Inl (ValidationError ''Telegram enablement requires a configured bot token and chat ID.'') else Inr (s', intent)))"

definition merge_settings :: "settings_env \<Rightarrow> settings_update \<Rightarrow> notification_settings
    \<Rightarrow> (settings_error, notification_settings \<times> string \<times> string \<times> string) result" where
  "merge_settings env update current =
     bind_result (normalizeEventTypes (suEventTypes update)) (\<lambda>events.
     bind_result (normalizeWebhookURLIntent update) (\<lambda>intent.
     let interval = (if suReminderInterval update = 0 then 1440 else suReminderInterval update) in
     if interval < 5 \<or> 43200 < interval then Inl (ValidationError ''Reminder interval must be between 5 and 43200 minutes.'')
     else
       bind_result (merge_webhook env update intent
         (current\<lparr>nsRemindersEnabled := suRemindersEnabled update, nsReminderInterval := interval, nsEnabled := suEnabled update,
            nsEventTypes := events, nsLastDeliveries := cloneDeliveryStatuses (nsLastDeliveries current)\<rparr>)) (\<lambda>s1.
       bind_result (case suDiscord update of None \<Rightarrow> Inr (s1, WebhookURLPreserve) | Some d \<Rightarrow> merge_discord env d s1) (\<lambda>(s2, discordIntent).
       bind_result (case suTelegram update of None \<Rightarrow> Inr (s2, WebhookURLPreserve) | Some t \<Rightarrow> merge_telegram t s2) (\<lambda>(s3, telegramIntent).
       Inr (s3, intent, discordIntent, telegramIntent))))))"

text \<open>The settings and the intents that the response shows, and the row.\<close>

definition SaveSettings :: "settings_env \<Rightarrow> settings_update \<Rightarrow> string option
    \<Rightarrow> (settings_error, notification_settings \<times> string \<times> string \<times> string) result \<times> string option" where
  "SaveSettings env update raw =
     (case loadSettings env raw of
        (Inl e, raw') \<Rightarrow> (Inl e, raw')
      | (Inr current, raw') \<Rightarrow>
          (case merge_settings env update current of
             Inl e \<Rightarrow> (Inl e, raw')
           | Inr (s, intents) \<Rightarrow>
               (case saveSettings env s of Inl e \<Rightarrow> (Inl e, raw') | Inr row \<Rightarrow> (Inr (s, intents), Some row))))"

definition storeLastDelivery :: "settings_env \<Rightarrow> string \<Rightarrow> delivery_status \<Rightarrow> string option \<Rightarrow> settings_error option \<times> string option" where
  "storeLastDelivery env destination status raw =
     (case loadSettings env raw of
        (Inl e, raw') \<Rightarrow> (Some e, raw')
      | (Inr s, raw') \<Rightarrow>
          let s1 = s\<lparr>nsLastDeliveries := AList.update destination (Some (safeDeliveryStatus status)) (nsLastDeliveries s)\<rparr>;
              s2 = (if destination = DestinationWebhook then s1\<lparr>nsLastDelivery := Some (safeDeliveryStatus status)\<rparr> else s1) in
          (case saveSettings env s2 of Inl e \<Rightarrow> (Some e, raw') | Inr row \<Rightarrow> (None, Some row)))"

text \<open>After a restore the secrets are encrypted again, with the key of this installation.\<close>

definition rewrap :: "settings_env \<Rightarrow> (string \<Rightarrow> string option) \<Rightarrow> string \<Rightarrow> (settings_error, string) result" where
  "rewrap env decrypt ciphertext =
     (if trim_space ciphertext = [] then Inr []
      else bind_result (or_error ''decrypt restored notification integration secret'' (decrypt ciphertext)) (\<lambda>plaintext.
        or_error ''encrypt restored notification integration secret'' (seEncrypt env plaintext)))"

definition ReencryptStoredWebhookURL :: "settings_env \<Rightarrow> (string \<Rightarrow> string option) \<Rightarrow> string option \<Rightarrow> (settings_error, string option) result" where
  "ReencryptStoredWebhookURL env decrypt raw =
     (case raw of
        None \<Rightarrow> Inr None
      | Some text \<Rightarrow>
          bind_result (or_error ''parse restored notification settings'' (seDecode env text)) (\<lambda>stored.
          bind_result (if trim_space (psEncryptedWebhookURL stored) \<noteq> []
                       then or_error ''decrypt restored notification webhook'' (decrypt (psEncryptedWebhookURL stored))
                       else Inr (trim_space (psLegacyWebhookURL stored))) (\<lambda>url.
          let stored1 = stored\<lparr>psLegacyWebhookURL := [], psEncryptedWebhookURL := []\<rparr> in
          bind_result (if trim_space url = [] then Inr stored1
                       else bind_result (or_error ''encrypt restored notification webhook'' (seEncrypt env url)) (\<lambda>c.
                         Inr (stored1\<lparr>psEnabled := (psEnabled stored \<and> validateStoredWebhookURL env url = None),
                           psEncryptedWebhookURL := c\<rparr>))) (\<lambda>stored2.
          bind_result (rewrap env decrypt (psDiscordWebhookURL stored)) (\<lambda>discord.
          bind_result (rewrap env decrypt (psTelegramBotToken stored)) (\<lambda>token.
          bind_result (rewrap env decrypt (psTelegramChatID stored)) (\<lambda>chatID.
          Inr (Some (seEncode env (stored2\<lparr>psDiscordWebhookURL := discord, psTelegramBotToken := token, psTelegramChatID := chatID\<rparr>)))))))))) "

subsection \<open>What the settings page shows\<close>

definition bullets :: string where
  "bullets = concat (replicate 4 [CHR 0xE2, CHR 0x80, CHR 0xA2])"

definition maskTelegramToken :: "string \<Rightarrow> string" where
  "maskTelegramToken raw =
     (case cut_at (trim_space raw) CHR '':'' of (number, _, found) \<Rightarrow> if \<not> found \<or> number = [] then [] else number @ '':'' @ bullets)"

definition maskTelegramChatID :: "string \<Rightarrow> string" where
  "maskTelegramChatID raw =
     (let value = trim_space raw in
      if value = [] then []
      else if prefix ''@'' value then ''@'' @ truncate_runes (trim_prefix ''@'' value) 3 @ bullets
      else if length value \<le> 4 then bullets
      else bullets @ drop (length value - 4) value)"

definition maskWebhookURL :: "settings_env \<Rightarrow> string \<Rightarrow> string" where
  "maskWebhookURL env raw =
     (let hidden = (if trim_space raw = [] then [] else ''Configured endpoint (masked)'') in
      case seParseURL env (trim_space raw) of
        None \<Rightarrow> hidden
      | Some parsed \<Rightarrow>
          if puHostname parsed = [] then hidden
          else let bracketed = (if CHR '':'' \<in> set (puHostname parsed) then ''['' @ puHostname parsed @ '']'' else puHostname parsed);
                   host = (if puPort parsed \<noteq> [] then bracketed @ '':'' @ puPort parsed else bracketed);
                   masked = seURLString env (puScheme parsed) host in
            if puEscapedPath parsed \<noteq> [] \<and> puEscapedPath parsed \<noteq> ''/'' \<or> puRawQuery parsed \<noteq> [] \<or> puFragment parsed \<noteq> [] \<or> puUser parsed
            then masked @ ''/'' @ bullets else masked)"

record settings_response =
  srRemindersEnabled :: bool
  srReminderInterval :: int
  srEnabled :: bool
  srWebhookConfigured :: bool
  srWebhookURLMasked :: string
  srWebhookURLIntent :: string
  srEventTypes :: "string list"
  srSupportedEvents :: "string list"
  srDiscord :: "bool \<times> bool \<times> string \<times> string"
  srTelegram :: "bool \<times> bool \<times> string \<times> string \<times> string"

definition settingsResponse :: "settings_env \<Rightarrow> notification_settings \<times> string \<times> string \<times> string \<Rightarrow> settings_response" where
  "settingsResponse env = (\<lambda>(s, intent, discordIntent, telegramIntent).
     \<lparr>srRemindersEnabled = nsRemindersEnabled s, srReminderInterval = nsReminderInterval s, srEnabled = nsEnabled s,
      srWebhookConfigured = (trim_space (nsWebhookURL s) \<noteq> []), srWebhookURLMasked = maskWebhookURL env (nsWebhookURL s),
      srWebhookURLIntent = intent, srEventTypes = nsEventTypes s, srSupportedEvents = supportedEvents,
      srDiscord = (nsDiscordEnabled s, trim_space (nsDiscordWebhookURL s) \<noteq> [], maskWebhookURL env (nsDiscordWebhookURL s), discordIntent),
      srTelegram = (nsTelegramEnabled s, trim_space (nsTelegramBotToken s) \<noteq> [] \<and> trim_space (nsTelegramChatID s) \<noteq> [],
        maskTelegramToken (nsTelegramBotToken s), maskTelegramChatID (nsTelegramChatID s), telegramIntent)\<rparr>)"

subsection \<open>Well-formed settings\<close>

definition normal_events :: "string list \<Rightarrow> bool" where
  "normal_events events \<longleftrightarrow> sorted events \<and> distinct events \<and> set events \<subseteq> set supportedEvents"

definition trimmed_secrets :: "notification_settings \<Rightarrow> bool" where
  "trimmed_secrets s \<longleftrightarrow> trim_space (nsWebhookURL s) = nsWebhookURL s \<and> trim_space (nsDiscordWebhookURL s) = nsDiscordWebhookURL s
     \<and> trim_space (nsTelegramBotToken s) = nsTelegramBotToken s \<and> trim_space (nsTelegramChatID s) = nsTelegramChatID s"

definition usable_webhook :: "settings_env \<Rightarrow> notification_settings \<Rightarrow> bool" where
  "usable_webhook env s \<longleftrightarrow> (nsEnabled s \<longrightarrow> nsWebhookURL s \<noteq> [] \<and> validateStoredWebhookURL env (nsWebhookURL s) = None)"

definition usable_integrations :: "notification_settings \<Rightarrow> bool" where
  "usable_integrations s \<longleftrightarrow> (nsDiscordEnabled s \<longrightarrow> nsDiscordWebhookURL s \<noteq> [])
     \<and> (nsTelegramEnabled s \<longrightarrow> nsTelegramBotToken s \<noteq> [] \<and> nsTelegramChatID s \<noteq> [])"

definition settings_ok :: "settings_env \<Rightarrow> notification_settings \<Rightarrow> bool" where
  "settings_ok env s \<longleftrightarrow> trimmed_secrets s \<and> usable_webhook env s \<and> normal_events (nsEventTypes s)
     \<and> 5 \<le> nsReminderInterval s \<and> nsReminderInterval s \<le> 43200"

lemmas settings_simps = settings_ok_def trimmed_secrets_def usable_webhook_def usable_integrations_def

lemma supported_trimmed: "e \<in> set supportedEvents \<Longrightarrow> trim_space e = e \<and> e \<noteq> []"
proof -
  have "list_all (\<lambda>e. trim_space e = e \<and> e \<noteq> []) supportedEvents" by code_simp
  then show "e \<in> set supportedEvents \<Longrightarrow> ?thesis" by (simp add: list_all_iff)
qed

lemma event_loop_normal:
  "event_types_loop out vs = Inr r \<Longrightarrow> distinct out \<Longrightarrow> set out \<subseteq> set supportedEvents \<Longrightarrow> normal_events r"
  by (induction out vs rule: event_types_loop.induct) (auto simp: normal_events_def Let_def split: if_splits)

lemma event_loop_identity:
  "set vs \<subseteq> set supportedEvents \<Longrightarrow> distinct (out @ vs) \<Longrightarrow> event_types_loop out vs = Inr (sort (out @ vs))"
proof (induction vs arbitrary: out)
  case (Cons v vs)
  then have "trim_space v = v" "v \<noteq> []" using supported_trimmed by auto
  with Cons show ?case by (simp add: Let_def)
qed simp

lemma normalize_events_normal: "normalizeEventTypes vs = Inr r \<Longrightarrow> normal_events r"
  unfolding normalizeEventTypes_def
  using event_loop_normal [of "[]" vs r] by (auto simp: normal_events_def split: if_splits)

lemma normalize_events_identity: "normal_events vs \<Longrightarrow> normalizeEventTypes vs = Inr vs"
  unfolding normalizeEventTypes_def normal_events_def using event_loop_identity [of vs "[]"]
  by (simp add: sort_key_id_if_sorted)

lemma merge_webhook_form:
  assumes "merge_webhook env update intent s = Inr s'"
  shows "\<exists>url. s' = s\<lparr>nsWebhookURL := url\<rparr> \<and> (url = nsWebhookURL s \<or> trim_space url = url)
     \<and> (nsEnabled s \<longrightarrow> url \<noteq> [] \<and> validateStoredWebhookURL env url = None)"
proof -
  obtain s1 where s1: "s' = s1" "nsEnabled s1 \<Longrightarrow> nsWebhookURL s1 \<noteq> [] \<and> validateStoredWebhookURL env (nsWebhookURL s1) = None"
    and form: "s1 = s \<or> s1 = s\<lparr>nsWebhookURL := []\<rparr> \<or> s1 = s\<lparr>nsWebhookURL := trim_space (suWebhookURL update)\<rparr>"
    using assms unfolding merge_webhook_def bind_result_Inr_iff Let_def
    by (elim exE conjE) (simp split: if_splits option.splits)
  from form show ?thesis
  proof (elim disjE)
    assume "s1 = s" then show ?thesis using s1 by (intro exI [of _ "nsWebhookURL s"]) simp
  qed (use s1 in auto)
qed

lemma merge_discord_form:
  assumes "merge_discord env update s = Inr (s', i)"
  shows "\<exists>url. s' = s\<lparr>nsDiscordEnabled := duEnabled update, nsDiscordWebhookURL := url\<rparr>
     \<and> (url = nsDiscordWebhookURL s \<or> trim_space url = url) \<and> (duEnabled update \<longrightarrow> url \<noteq> [])"
proof -
  let ?s = "s\<lparr>nsDiscordEnabled := duEnabled update\<rparr>"
  obtain s1 where s1: "s' = s1" "nsDiscordEnabled s1 \<Longrightarrow> nsDiscordWebhookURL s1 \<noteq> []"
    and form: "s1 = ?s \<or> s1 = ?s\<lparr>nsDiscordWebhookURL := []\<rparr> \<or> s1 = ?s\<lparr>nsDiscordWebhookURL := trim_space (duWebhookURL update)\<rparr>"
    using assms unfolding merge_discord_def bind_result_Inr_iff Let_def
    by (elim exE conjE) (simp split: if_splits option.splits)
  from form show ?thesis
  proof (elim disjE)
    assume "s1 = ?s" then show ?thesis using s1 by (intro exI [of _ "nsDiscordWebhookURL s"]) simp
  qed (use s1 in auto)
qed

lemma merge_telegram_form:
  assumes "merge_telegram update s = Inr (s', i)"
  shows "\<exists>t c. s' = s\<lparr>nsTelegramEnabled := tuEnabled update, nsTelegramBotToken := t, nsTelegramChatID := c\<rparr>
     \<and> (t = nsTelegramBotToken s \<and> c = nsTelegramChatID s \<or> trim_space t = t \<and> trim_space c = c)
     \<and> (tuEnabled update \<longrightarrow> t \<noteq> [] \<and> c \<noteq> [])"
proof -
  let ?s = "s\<lparr>nsTelegramEnabled := tuEnabled update\<rparr>"
  obtain s1 where s1: "s' = s1" "nsTelegramEnabled s1 \<Longrightarrow> nsTelegramBotToken s1 \<noteq> [] \<and> nsTelegramChatID s1 \<noteq> []"
    and form: "s1 = ?s \<or> s1 = ?s\<lparr>nsTelegramBotToken := [], nsTelegramChatID := []\<rparr>
      \<or> s1 = ?s\<lparr>nsTelegramBotToken := trim_space (tuBotToken update), nsTelegramChatID := trim_space (tuChatID update)\<rparr>"
    using assms unfolding merge_telegram_def bind_result_Inr_iff Let_def
    by (elim exE conjE) (simp split: if_splits option.splits)
  from form show ?thesis
  proof (elim disjE)
    assume "s1 = ?s" then show ?thesis using s1
      by (intro exI [of _ "nsTelegramBotToken s"] exI [of _ "nsTelegramChatID s"]) simp
  next
    assume "s1 = ?s\<lparr>nsTelegramBotToken := [], nsTelegramChatID := []\<rparr>" then show ?thesis using s1
      by (intro exI [of _ "[]"]) auto
  next
    assume "s1 = ?s\<lparr>nsTelegramBotToken := trim_space (tuBotToken update), nsTelegramChatID := trim_space (tuChatID update)\<rparr>"
    then show ?thesis using s1
      by (intro exI [of _ "trim_space (tuBotToken update)"] exI [of _ "trim_space (tuChatID update)"]) auto
  qed
qed

lemma merge_webhook_ok:
  assumes "merge_webhook env update intent s = Inr s'"
  shows "usable_webhook env s'" "trimmed_secrets s \<Longrightarrow> trimmed_secrets s'"
    "nsEventTypes s' = nsEventTypes s" "nsReminderInterval s' = nsReminderInterval s"
    "usable_integrations s' = usable_integrations s"
  using merge_webhook_form [OF assms] by (auto simp: settings_simps)

lemma merge_discord_ok:
  assumes "merge_discord env update s = Inr (s', i)"
  shows "usable_webhook env s' = usable_webhook env s" "trimmed_secrets s \<Longrightarrow> trimmed_secrets s'"
    "nsEventTypes s' = nsEventTypes s" "nsReminderInterval s' = nsReminderInterval s"
    "usable_integrations s \<Longrightarrow> usable_integrations s'"
  using merge_discord_form [OF assms] by (auto simp: settings_simps)

lemma merge_telegram_ok:
  assumes "merge_telegram update s = Inr (s', i)"
  shows "usable_webhook env s' = usable_webhook env s" "trimmed_secrets s \<Longrightarrow> trimmed_secrets s'"
    "nsEventTypes s' = nsEventTypes s" "nsReminderInterval s' = nsReminderInterval s"
    "usable_integrations s \<Longrightarrow> usable_integrations s'"
  using merge_telegram_form [OF assms] by (auto simp: settings_simps)

lemma merge_settings_ok:
  assumes "merge_settings env update current = Inr (s, intents)" and "trimmed_secrets current"
  shows "settings_ok env s" "usable_integrations current \<Longrightarrow> usable_integrations s"
proof -
  obtain events intent s1 s2 d t where e: "normalizeEventTypes (suEventTypes update) = Inr events"
    and w: "merge_webhook env update intent (current\<lparr>nsRemindersEnabled := suRemindersEnabled update,
        nsReminderInterval := (if suReminderInterval update = 0 then 1440 else suReminderInterval update),
        nsEnabled := suEnabled update, nsEventTypes := events,
        nsLastDeliveries := cloneDeliveryStatuses (nsLastDeliveries current)\<rparr>) = Inr s1"
    and i: "\<not> ((if suReminderInterval update = 0 then 1440 else suReminderInterval update) < 5)"
      "\<not> 43200 < (if suReminderInterval update = 0 then 1440 else suReminderInterval update)"
    and d: "(case suDiscord update of None \<Rightarrow> Inr (s1, WebhookURLPreserve) | Some d \<Rightarrow> merge_discord env d s1) = Inr (s2, d)"
    and t: "(case suTelegram update of None \<Rightarrow> Inr (s2, WebhookURLPreserve) | Some t \<Rightarrow> merge_telegram t s2) = Inr (s, t)"
    using assms(1) by (fastforce simp: merge_settings_def bind_result_Inr_iff Let_def split: if_splits prod.splits)
  note s1 = merge_webhook_ok [OF w]
  have s2: "usable_webhook env s2 = usable_webhook env s1" "trimmed_secrets s1 \<Longrightarrow> trimmed_secrets s2"
    "nsEventTypes s2 = nsEventTypes s1" "nsReminderInterval s2 = nsReminderInterval s1" "usable_integrations s1 \<Longrightarrow> usable_integrations s2"
    using d merge_discord_ok by (auto split: option.splits)
  have s3: "usable_webhook env s = usable_webhook env s2" "trimmed_secrets s2 \<Longrightarrow> trimmed_secrets s"
    "nsEventTypes s = nsEventTypes s2" "nsReminderInterval s = nsReminderInterval s2" "usable_integrations s2 \<Longrightarrow> usable_integrations s"
    using t merge_telegram_ok by (auto split: option.splits)
  have "trimmed_secrets s1" by (rule s1(2)) (use assms(2) in \<open>simp add: trimmed_secrets_def\<close>)
  then show "settings_ok env s"
    using s1 s2 s3 i normalize_events_normal [OF e] by (simp add: settings_ok_def)
  show "usable_integrations s" if "usable_integrations current"
    using that s1(5) s2(5) s3(5) by (simp add: usable_integrations_def)
qed

lemma stored_secret_trimmed: "stored_secret env message c = Inr x \<Longrightarrow> trim_space x = x"
  by (auto simp: stored_secret_def or_error_def decryptStoredSecret_def split: if_splits option.splits)

lemma load_trimmed: "loadSettings env raw = (Inr s, raw') \<Longrightarrow> trimmed_secrets s"
proof -
  have default: "trimmed_secrets default_settings" by (simp add: trimmed_secrets_def default_settings_def)
  have "read_settings env stored = Inr (x, r) \<Longrightarrow> trimmed_secrets x" for stored x r
    by (auto simp: read_settings_def trimmed_secrets_def bind_result_Inr_iff Let_def dest: stored_secret_trimmed)
  with default show "loadSettings env raw = (Inr s, raw') \<Longrightarrow> ?thesis"
    by (auto simp: loadSettings_def split: option.splits sum.splits prod.splits if_splits)
qed

subsection \<open>Reading back\<close>

definition settings_core :: "notification_settings \<Rightarrow> notification_settings" where
  "settings_core s = s\<lparr>nsLastDelivery := None, nsLastDeliveries := []\<rparr>"

definition faithful_secrets :: "settings_env \<Rightarrow> bool" where
  "faithful_secrets env \<longleftrightarrow> (\<forall>x c. seEncrypt env x = Some c \<longrightarrow> trim_space c \<noteq> [] \<and> seDecrypt env c = Some x)"

lemma secret_round_trip:
  assumes "faithful_secrets env" and "encryptStoredSecret env x = Some c" and "trim_space x = x"
  shows "stored_secret env message c = Inr x"
  using assms
  by (cases "x = []")
    (auto simp: encryptStoredSecret_def stored_secret_def faithful_secrets_def or_error_def decryptStoredSecret_def)

lemma protected_reads_back:
  assumes "faithful_secrets env" and "settings_ok env s" and "protected_settings env s = Inr stored"
  shows "\<exists>s'. read_settings env stored = Inr (s', False) \<and> settings_core s' = settings_core s"
proof -
  have trimmed: "trim_space (nsWebhookURL s) = nsWebhookURL s" "trim_space (nsDiscordWebhookURL s) = nsDiscordWebhookURL s"
    "trim_space (nsTelegramBotToken s) = nsTelegramBotToken s" "trim_space (nsTelegramChatID s) = nsTelegramChatID s"
    and web: "nsEnabled s \<Longrightarrow> nsWebhookURL s \<noteq> [] \<and> validateStoredWebhookURL env (nsWebhookURL s) = None"
    using assms(2) by (simp_all add: settings_simps)
  obtain url discord token chat where
    url: "(if nsWebhookURL s \<noteq> [] then or_error ''webhook URL could not be protected'' (seEncrypt env (nsWebhookURL s)) else Inr []) = Inr url"
    and sec: "encryptStoredSecret env (nsDiscordWebhookURL s) = Some discord"
      "encryptStoredSecret env (nsTelegramBotToken s) = Some token" "encryptStoredSecret env (nsTelegramChatID s) = Some chat"
    and stored: "stored = \<lparr>psRemindersEnabled = nsRemindersEnabled s, psReminderInterval = nsReminderInterval s,
        psEnabled = nsEnabled s, psLegacyWebhookURL = [], psEncryptedWebhookURL = url, psDiscordEnabled = nsDiscordEnabled s,
        psDiscordWebhookURL = discord, psTelegramEnabled = nsTelegramEnabled s, psTelegramBotToken = token,
        psTelegramChatID = chat, psEventTypes = Some (nsEventTypes s),
        psLastDelivery = map_option safeDeliveryStatus (nsLastDelivery s),
        psLastDeliveries = cloneDeliveryStatuses (nsLastDeliveries s)\<rparr>"
    using assms(3) by (auto simp: protected_settings_def bind_result_Inr_iff or_error_def trimmed split: option.splits)
  have url': "if trim_space url = [] then nsWebhookURL s = [] else seDecrypt env url = Some (nsWebhookURL s)"
    using url assms(1) by (cases "nsWebhookURL s = []") (auto simp: or_error_def faithful_secrets_def split: option.splits)
  have events: "stored_events (Some (nsEventTypes s)) = nsEventTypes s"
    using assms(2) by (simp add: stored_events_def settings_ok_def normalize_events_identity)
  have interval: "\<not> nsReminderInterval s < 5" "\<not> 43200 < nsReminderInterval s" using assms(2) by (simp_all add: settings_ok_def)
  let ?s = "\<lparr>nsRemindersEnabled = nsRemindersEnabled s, nsReminderInterval = nsReminderInterval s, nsEnabled = nsEnabled s,
    nsWebhookURL = nsWebhookURL s, nsDiscordEnabled = nsDiscordEnabled s, nsDiscordWebhookURL = nsDiscordWebhookURL s,
    nsTelegramEnabled = nsTelegramEnabled s, nsTelegramBotToken = nsTelegramBotToken s, nsTelegramChatID = nsTelegramChatID s,
    nsEventTypes = nsEventTypes s, nsLastDelivery = map_option safeDeliveryStatus (map_option safeDeliveryStatus (nsLastDelivery s)),
    nsLastDeliveries = cloneDeliveryStatuses (cloneDeliveryStatuses (nsLastDeliveries s))\<rparr>"
  note secrets = secret_round_trip [OF assms(1) sec(1) trimmed(2)] secret_round_trip [OF assms(1) sec(2) trimmed(3)]
    secret_round_trip [OF assms(1) sec(3) trimmed(4)]
  have "read_settings env stored = Inr (?s, False)"
  proof (cases "trim_space url = []")
    case True
    then show ?thesis using url' web by (auto simp: read_settings_def stored events trimmed interval secrets)
  next
    case False
    then show ?thesis using url' web by (auto simp: read_settings_def stored events trimmed interval secrets or_error_def Let_def)
  qed
  moreover have "settings_core ?s = settings_core s"
    by (rule notification_settings.equality) (simp_all add: settings_core_def)
  ultimately show ?thesis by blast
qed

subsection \<open>Properties\<close>


text \<open>C24: What was saved is what is loaded, and loading does not write: when encrypted secrets can be decrypted and
  are not blank, and the row is decoded to what was encoded, then loading after a successful \<open>SaveSettings\<close>
  returns the saved settings (up to the diagnostics of the last deliveries) and leaves the row.\<close>

theorem settings_survive_reload:
  assumes "SaveSettings env update raw = (Inr (s, intents), Some row)" and "faithful_secrets env"
    and "\<forall>stored. protected_settings env s = Inr stored \<longrightarrow> seDecode env (seEncode env stored) = Some stored"
  shows "\<exists>s'. loadSettings env (Some row) = (Inr s', Some row) \<and> settings_core s' = settings_core s"
proof -
  obtain current raw1 where l: "loadSettings env raw = (Inr current, raw1)" and m: "merge_settings env update current = Inr (s, intents)"
    and save: "saveSettings env s = Inr row"
    using assms(1) by (auto simp: SaveSettings_def split: sum.splits prod.splits)
  obtain stored where p: "protected_settings env s = Inr stored" "row = seEncode env stored"
    using save by (auto simp: saveSettings_def bind_result_Inr_iff)
  from protected_reads_back [OF assms(2) merge_settings_ok(1) [OF m load_trimmed [OF l]] p(1)]
  obtain s' where s': "read_settings env stored = Inr (s', False)" "settings_core s' = settings_core s" by blast
  have "loadSettings env (Some row) = (Inr s', Some row)"
    using assms(3) p s'(1) by (simp add: loadSettings_def)
  with s'(2) show ?thesis by blast
qed

subsection \<open>Witnesses\<close>

text \<open>An environment where every text parses as an HTTPS URL, and encryption puts two letters around a text.\<close>

definition sample_parsed :: parsed_url where
  "sample_parsed = \<lparr>puScheme = ''https'', puHost = ''h'', puHostname = ''h'', puPort = [], puUser = False, puPath = [],
     puEscapedPath = [], puRawQuery = [], puFragment = []\<rparr>"

definition sample_settings_update :: settings_update where
  "sample_settings_update = \<lparr>suRemindersEnabled = True, suReminderInterval = 0, suEnabled = True, suWebhookURL = '' https://h '',
     suWebhookURLIntent = [], suEventTypes = [EventRebootRequired, EventUpdateComplete, EventRebootRequired], suDiscord = None, suTelegram = None\<rparr>"

definition sample_saved :: notification_settings where
  "sample_saved = default_settings\<lparr>nsRemindersEnabled := True, nsEnabled := True, nsWebhookURL := ''https://h'',
     nsEventTypes := [EventRebootRequired, EventUpdateComplete]\<rparr>"

definition sample_stored :: persisted_settings where
  "sample_stored = \<lparr>psRemindersEnabled = True, psReminderInterval = 1440, psEnabled = True, psLegacyWebhookURL = [],
     psEncryptedWebhookURL = ''xhttps://hx'', psDiscordEnabled = False, psDiscordWebhookURL = [], psTelegramEnabled = False,
     psTelegramBotToken = [], psTelegramChatID = [], psEventTypes = Some [EventRebootRequired, EventUpdateComplete],
     psLastDelivery = None, psLastDeliveries = []\<rparr>"

definition sample_env :: settings_env where
  "sample_env = \<lparr>seParseURL = (\<lambda>_. Some sample_parsed), seLocalIP = (\<lambda>_. False), seURLString = (\<lambda>s h. s @ ''://'' @ h),
     seEncode = (\<lambda>_. ''row''), seDecode = (\<lambda>_. Some sample_stored),
     seEncrypt = (\<lambda>x. Some (''x'' @ x @ ''x'')), seDecrypt = (\<lambda>c. Some (butlast (tl c)))\<rparr>"

lemma sample_save:
  "SaveSettings sample_env sample_settings_update None = (Inr (sample_saved, WebhookURLReplace, WebhookURLPreserve, WebhookURLPreserve), Some ''row'')"
  by code_simp


theorem settings_survive_reload_witness:
  "\<exists>s'. loadSettings sample_env (Some ''row'') = (Inr s', Some ''row'') \<and> settings_core s' = settings_core sample_saved"
proof (rule settings_survive_reload [OF sample_save])
  have x: "\<not> ascii_space CHR ''x''" "byte_val CHR ''x'' < 128" by code_simp+
  have "trim_space (''x'' @ s @ ''x'') = ''x'' @ s @ ''x''" for s using trim_space_stop [OF x x, of s] by simp
  then show "faithful_secrets sample_env" by (simp add: faithful_secrets_def sample_env_def)
  have "protected_settings sample_env sample_saved = Inr sample_stored" by code_simp
  then show "\<forall>stored. protected_settings sample_env sample_saved = Inr stored \<longrightarrow> seDecode sample_env (seEncode sample_env stored) = Some stored"
    by (simp add: sample_env_def)
qed

end
