(* ===== verification/Payload.thy ===== *)
theory Payload
  imports Outbox NotificationSettings
begin

section \<open>Payload: redaction and the rows of an intent\<close>

text \<open>
  The model of the payload functions of \<open>internal/notifications/service.go\<close>, of the request bodies of
  \<open>integrations.go\<close> and of \<open>buildOutboxRows\<close> of \<open>outbox.go\<close>. A decoded JSON value is a \<open>json\<close>; a number
  is its text. The record \<open>payload_env\<close> holds the JSON decoder, the encoder and the hexadecimal SHA-256 digest.
\<close>

subsection \<open>Redaction\<close>

datatype json = JNull | JBool bool | JNum string | JStr string | JArr "json list" | JObj "(string \<times> json) list"

definition sensitiveKey :: "string \<Rightarrow> bool" where
  "sensitiveKey key =
     (let clean = to_lower (trim_space key);
          compact = filter (\<lambda>c. c \<noteq> CHR ''_'' \<and> c \<noteq> CHR ''-'' \<and> c \<noteq> CHR ''.'' \<and> c \<noteq> CHR 0x20) clean in
      clean \<noteq> [] \<and>
      (clean = ''key'' \<or> clean = ''api_key'' \<or> clean = ''access_key'' \<or> clean = ''secret_key'' \<or> clean = ''private_key''
       \<or> clean = ''ssh_key'' \<or> compact = ''apikey'' \<or> compact = ''accesskey'' \<or> compact = ''secretkey''
       \<or> compact = ''privatekey'' \<or> compact = ''sshkey'' \<or> contains clean ''password'' \<or> contains clean ''secret''
       \<or> contains clean ''token'' \<or> contains compact ''password'' \<or> contains compact ''secret'' \<or> contains compact ''token''
       \<or> prefix ''key_'' clean \<or> suffix ''_key'' clean \<or> suffix ''_secret'' clean))"

text \<open>An empty map becomes the nil map, which is printed as \<open>null\<close>.\<close>

fun redactValue :: "json \<Rightarrow> json" where
  "redactValue (JObj m) =
     (if m = [] then JNull
      else JObj (map (\<lambda>kv. (fst kv, if sensitiveKey (fst kv) then JStr ''[redacted]'' else redactValue (snd kv))) m))"
| "redactValue (JArr xs) = JArr (map redactValue xs)"
| "redactValue v = v"

definition redactMap :: "(string \<times> json) list \<Rightarrow> (string \<times> json) list" where
  "redactMap m = map (\<lambda>kv. (fst kv, if sensitiveKey (fst kv) then JStr ''[redacted]'' else redactValue (snd kv))) m"

subsection \<open>Payloads\<close>

record payload_env =
  peUnmarshal :: "string \<Rightarrow> json option"
  peMarshal :: "json \<Rightarrow> string"
  peSHA256 :: "string \<Rightarrow> string"

record webhook_payload =
  wpEventType :: string
  wpAction :: string
  wpStatus :: string
  wpTargetType :: string
  wpTargetName :: string
  wpMessage :: string
  wpCreatedAt :: string
  wpActor :: string
  wpClientIP :: string
  wpMeta :: "(string \<times> json) list"

text \<open>\<open>json.Unmarshal\<close> into a map: objects and \<open>null\<close> are accepted.\<close>

definition unmarshal_map :: "payload_env \<Rightarrow> string \<Rightarrow> (string, (string \<times> json) list) result" where
  "unmarshal_map env text =
     (case peUnmarshal env text of
        Some (JObj m) \<Rightarrow> Inr m
      | Some JNull \<Rightarrow> Inr []
      | _ \<Rightarrow> Inl ''json'')"

definition map_json :: "(string \<times> json) list \<Rightarrow> json" where
  "map_json m = (if m = [] then JNull else JObj m)"

definition buildPayload :: "payload_env \<Rightarrow> string \<Rightarrow> delivery_intent \<Rightarrow> (string, webhook_payload) result" where
  "buildPayload env eventType evt =
     bind_result (if trim_space (diMetaJSON evt) \<noteq> [] then unmarshal_map env (diMetaJSON evt) else Inr []) (\<lambda>meta.
     Inr \<lparr>wpEventType = eventType, wpAction = diAction evt, wpStatus = diStatus evt, wpTargetType = diTargetType evt,
       wpTargetName = diTargetName evt, wpMessage = diMessage evt, wpCreatedAt = diCreatedAt evt, wpActor = diActor evt,
       wpClientIP = diClientIP evt, wpMeta = redactMap meta\<rparr>)"

definition buildOutboxRows :: "payload_env \<Rightarrow> delivery_intent \<Rightarrow> string \<Rightarrow> string list \<Rightarrow> string \<Rightarrow> (string, outbox_row list) result" where
  "buildOutboxRows env intent eventType destinations nowText =
     (if trim_space (diID intent) = [] then Inl ''notification delivery identity is required''
      else let intent1 = (if trim_space (diCreatedAt intent) = [] then intent\<lparr>diCreatedAt := nowText\<rparr> else intent) in
        bind_result (buildPayload env eventType intent1) (\<lambda>payload.
        let intent2 = intent1\<lparr>diMetaJSON := peMarshal env (map_json (wpMeta payload))\<rparr> in
        Inr (map (\<lambda>destination.
          \<lparr>orID = peSHA256 env (diID intent @ [CHR 0x00] @ trim_space destination), orDestination = trim_space destination,
           orFingerprint = [], orEventType = eventType, orIntent = intent2, orState = outboxStatePending, orAttempts = 0,
           orNextAttemptAt = [], orClaimedAt = []\<rparr>) destinations)))"

definition nonEmpty :: "string list \<Rightarrow> string" where
  "nonEmpty values = (case filter (\<lambda>v. trim_space v \<noteq> []) values of v # _ \<Rightarrow> trim_space v | [] \<Rightarrow> ''-'')"

definition notificationTitle :: "webhook_payload \<Rightarrow> string" where
  "notificationTitle payload =
     (if wpEventType payload = EventTest then ''SimpleLinuxUpdater notification test''
      else ''SimpleLinuxUpdater '' @ [CHR 0xC2, CHR 0xB7] @ '' '' @ wpEventType payload)"

definition formatNotificationMessage :: "webhook_payload \<Rightarrow> string" where
  "formatNotificationMessage payload =
     (let newline = [CHR 0x0A] in
      notificationTitle payload @ newline @ ''Status: '' @ nonEmpty [wpStatus payload, ''unknown''] @ newline
      @ ''Target: '' @ nonEmpty [wpTargetName payload, wpTargetType payload] @ newline @ ''Event: '' @ wpEventType payload
      @ newline @ wpMessage payload)"

definition notificationColor :: "string \<Rightarrow> int" where
  "notificationColor status =
     (let s = to_lower (trim_space status) in
      if s \<in> {''success'', ''succeeded'', ''complete'', ''completed''} then 0x2F9E72
      else if s \<in> {''failure'', ''failed'', ''error''} then 0xD95D5D
      else if s \<in> {''skipped'', ''ignored''} then 0xD29A38
      else 0x5B8DEF)"

record discord_body =
  dbUsername :: string
  dbTitle :: string
  dbDescription :: string
  dbColor :: int
  dbTimestamp :: string
  dbFields :: "(string \<times> string \<times> bool) list"
  dbFooter :: string
  dbAllowedMentions :: "string list"

definition buildDiscordBody :: "webhook_payload \<Rightarrow> discord_body" where
  "buildDiscordBody payload =
     \<lparr>dbUsername = ''SimpleLinuxUpdater'', dbTitle = truncate_runes (notificationTitle payload) 256,
      dbDescription = truncate_runes (wpMessage payload) 4096, dbColor = notificationColor (wpStatus payload),
      dbTimestamp = wpCreatedAt payload,
      dbFields = [(''Status'', truncate_runes (nonEmpty [wpStatus payload, ''unknown'']) 1024, True),
        (''Target'', truncate_runes (nonEmpty [wpTargetName payload, wpTargetType payload]) 1024, True),
        (''Event'', truncate_runes (wpEventType payload) 1024, False)],
      dbFooter = ''SimpleLinuxUpdater'', dbAllowedMentions = []\<rparr>"

text \<open>The body that is encoded for each destination.\<close>

datatype request_body = WebhookBody webhook_payload | DiscordBody discord_body | TelegramBody string string

text \<open>\<open>waitURL\<close> adds the query parameter \<open>wait=true\<close> to a URL.\<close>

definition destinationRequest ::
  "settings_env \<Rightarrow> (string \<Rightarrow> string) \<Rightarrow> notification_settings \<Rightarrow> string \<Rightarrow> webhook_payload \<Rightarrow> (settings_error, string \<times> request_body) result" where
  "destinationRequest env waitURL s destination payload =
     (if destination = DestinationWebhook then
        (case validateStoredWebhookURL env (nsWebhookURL s) of
           Some e \<Rightarrow> Inl e | None \<Rightarrow> Inr (nsWebhookURL s, WebhookBody payload))
      else if destination = DestinationDiscord then
        (case validateDiscordWebhookURL env (nsDiscordWebhookURL s) of
           Some e \<Rightarrow> Inl e | None \<Rightarrow> Inr (waitURL (nsDiscordWebhookURL s), DiscordBody (buildDiscordBody payload)))
      else if destination = DestinationTelegram then
        (case validateTelegramCredentials (nsTelegramBotToken s) (nsTelegramChatID s) of
           Some e \<Rightarrow> Inl e
         | None \<Rightarrow> Inr (''https://api.telegram.org/bot'' @ nsTelegramBotToken s @ ''/sendMessage'',
             TelegramBody (nsTelegramChatID s) (truncate_runes (formatNotificationMessage payload) 4096)))
      else Inl (ValidationError ''Unsupported notification destination.''))"

subsection \<open>Lemmas\<close>

text \<open>The values below sensitive keys, at any depth.\<close>

fun secrets_of :: "json \<Rightarrow> json list" where
  "secrets_of (JObj m) = concat (map (\<lambda>kv. if sensitiveKey (fst kv) then [snd kv] else secrets_of (snd kv)) m)"
| "secrets_of (JArr xs) = concat (map secrets_of xs)"
| "secrets_of v = []"

definition entry_secrets :: "(string \<times> json) list \<Rightarrow> json list" where
  "entry_secrets m = concat (map (\<lambda>kv. if sensitiveKey (fst kv) then [snd kv] else secrets_of (snd kv)) m)"

lemma redact_hides: "set (secrets_of (redactValue v)) \<subseteq> {JStr ''[redacted]''}"
  by (induction v rule: redactValue.induct) (fastforce split: if_splits)+

lemma redact_idem: "redactValue (redactValue v) = redactValue v"
  by (induction v rule: redactValue.induct) auto

lemma redactMap_hides: "set (entry_secrets (redactMap m)) \<subseteq> {JStr ''[redacted]''}"
  using redact_hides by (fastforce simp: entry_secrets_def redactMap_def split: if_splits)

lemma redactMap_idem: "redactMap (redactMap m) = redactMap m"
  by (auto simp: redactMap_def redact_idem)

lemma payload_meta: "buildPayload env eventType evt = Inr p \<Longrightarrow> \<exists>m. wpMeta p = redactMap m"
  by (auto simp: buildPayload_def bind_result_Inr_iff)

lemma build_rows_form:
  assumes "buildOutboxRows env intent eventType destinations nowText = Inr rows"
  shows "map orDestination rows = map trim_space destinations \<and> (\<forall>r\<in>set rows. orEventType r = eventType \<and> orState r = outboxStatePending
     \<and> (\<exists>d\<in>set destinations. orID r = peSHA256 env (diID intent @ [CHR 0x00] @ trim_space d)))"
proof -
  obtain p where "rows = map (\<lambda>d. \<lparr>orID = peSHA256 env (diID intent @ [CHR 0x00] @ trim_space d), orDestination = trim_space d,
      orFingerprint = [], orEventType = eventType, orIntent = p, orState = outboxStatePending, orAttempts = 0,
      orNextAttemptAt = [], orClaimedAt = []\<rparr>) destinations"
    using assms by (auto simp: buildOutboxRows_def bind_result_Inr_iff Let_def split: if_splits)
  then show ?thesis by (simp add: comp_def) blast
qed

subsection \<open>Properties\<close>

text \<open>C21: No secret leaves through a notification. In every payload, at any depth of its metadata, the value below a
  sensitive key (passwords, tokens, secrets and keys in any spelling the code knows) is the word
  \<open>[redacted]\<close>, and so it is in the metadata that is stored in the queue, when the stored text is read as
  what was written. Redaction happens twice, when the row is stored and when it is sent; the second time
  changes nothing.\<close>

theorem notifications_are_redacted:
  assumes "\<forall>evt p. buildPayload env eventType evt = Inr p \<longrightarrow> peUnmarshal env (peMarshal env (map_json (wpMeta p))) = Some (map_json (wpMeta p))"
    and "\<forall>v. trim_space (peMarshal env v) \<noteq> []"
    and "buildOutboxRows env intent eventType destinations nowText = Inr rows" and "row \<in> set rows"
  shows "\<exists>p. buildPayload env eventType (orIntent row) = Inr p \<and> set (entry_secrets (wpMeta p)) \<subseteq> {JStr ''[redacted]''}
     \<and> peUnmarshal env (diMetaJSON (orIntent row)) = Some (map_json (wpMeta p))"
proof -
  obtain p evt where p: "buildPayload env eventType evt = Inr p" and row: "diMetaJSON (orIntent row) = peMarshal env (map_json (wpMeta p))"
    using assms(3,4) by (auto simp: buildOutboxRows_def bind_result_Inr_iff Let_def split: if_splits)
  obtain m where m: "wpMeta p = redactMap m" using payload_meta [OF p] by blast
  have read: "peUnmarshal env (diMetaJSON (orIntent row)) = Some (map_json (wpMeta p))" using assms(1) p row by simp
  then have "unmarshal_map env (diMetaJSON (orIntent row)) = Inr (wpMeta p)" by (simp add: unmarshal_map_def map_json_def)
  then have "\<exists>q. buildPayload env eventType (orIntent row) = Inr q \<and> wpMeta q = redactMap (redactMap m)"
    using assms(2) m by (simp add: buildPayload_def row)
  then show ?thesis using redactMap_hides [of m] read m by (auto simp: redactMap_idem)
qed

subsection \<open>Witnesses\<close>

definition sample_payload_env :: payload_env where
  "sample_payload_env = \<lparr>
     peUnmarshal = (\<lambda>s. if s = ''null'' then Some JNull else if s = ''stored'' then Some (JObj [(''Api-Token'', JStr ''[redacted]'')])
       else Some (JObj [(''Api-Token'', JStr ''t0k3n'')])),
     peMarshal = (\<lambda>v. if v = JNull then ''null'' else ''stored''), peSHA256 = (\<lambda>s. s)\<rparr>"

definition sample_intent :: delivery_intent where
  "sample_intent = \<lparr>diID = ''i'', diCreatedAt = ''t0'', diActor = ''admin'', diAction = EventUpdateComplete, diTargetType = ''server'',
     diTargetName = ''web'', diStatus = ''success'', diMessage = ''done'', diMetaJSON = ''{...}'', diClientIP = []\<rparr>"

definition sample_rows :: "outbox_row list" where
  "sample_rows = (case buildOutboxRows sample_payload_env sample_intent EventUpdateComplete [DestinationWebhook, DestinationDiscord] ''t1'' of
     Inr rows \<Rightarrow> rows | Inl _ \<Rightarrow> [])"

theorem notifications_are_redacted_witness:
  "\<exists>p. buildPayload sample_payload_env EventUpdateComplete (orIntent (hd sample_rows)) = Inr p
     \<and> set (entry_secrets (wpMeta p)) \<subseteq> {JStr ''[redacted]''}"
proof -
  have build: "buildOutboxRows sample_payload_env sample_intent EventUpdateComplete [DestinationWebhook, DestinationDiscord] ''t1'' = Inr sample_rows"
    by code_simp
  have mem: "hd sample_rows \<in> set sample_rows" by code_simp
  have key: "sensitiveKey ''Api-Token''" by code_simp
  have read: "\<forall>evt p. buildPayload sample_payload_env EventUpdateComplete evt = Inr p \<longrightarrow>
      peUnmarshal sample_payload_env (peMarshal sample_payload_env (map_json (wpMeta p))) = Some (map_json (wpMeta p))"
    by (auto simp: buildPayload_def bind_result_Inr_iff unmarshal_map_def sample_payload_env_def redactMap_def key map_json_def
        split: if_splits)
  have printed: "trim_space ''null'' \<noteq> []" "trim_space ''stored'' \<noteq> []" by code_simp+
  have "\<forall>v. trim_space (peMarshal sample_payload_env v) \<noteq> []" by (simp add: sample_payload_env_def printed)
  from notifications_are_redacted [OF read this build mem] show ?thesis by blast
qed

end
