(* ===== verification/Conditions.thy ===== *)
theory Conditions
  imports Payload
begin

section \<open>Conditions: notifications about lasting conditions\<close>

text \<open>
  The model of \<open>internal/notifications/conditions.go\<close>: facts reported by a source are merged into
  conditions with numbered episodes, every episode is admitted once per destination, and reminders
  repeat what is unresolved. The stored state is the value whose JSON text the table holds. Parameters: \<open>fmt\<close> and
  \<open>parse\<close> print and read times, \<open>source\<close> is the injected \<open>ConditionSource\<close>, \<open>refID\<close> and \<open>ref\<close> decode the
  reference to a condition in the metadata of a row (the second with an error). An episode counter is an integer.
\<close>

subsection \<open>Data\<close>

record condition_fact =
  cfID :: string
  cfEventType :: string
  cfTargetType :: string
  cfTargetName :: string
  cfGeneration :: string
  cfActive :: bool
  cfOneShot :: bool
  cfMessage :: string
  cfMetaJSON :: string
  cfCreatedAt :: string

record notified_condition =
  cdFact :: condition_fact
  cdEpisode :: int
  cdUpdatedAt :: string

record condition_batch =
  cbRebased :: bool
  cbFacts :: "condition_fact list"
  cbCursor :: string

record condition_state =
  csCursor :: string
  csConditions :: "(string \<times> notified_condition) list"
  csAdmissions :: "(string \<times> bool) list"
  csReminders :: "(string \<times> string) list"

definition empty_conditions :: condition_state where
  "empty_conditions = \<lparr>csCursor = [], csConditions = [], csAdmissions = [], csReminders = []\<rparr>"

definition loadConditionState :: "condition_state option \<Rightarrow> condition_state" where
  "loadConditionState row = (case row of None \<Rightarrow> empty_conditions | Some state \<Rightarrow> state)"

definition conditionList :: "condition_state \<Rightarrow> notified_condition list" where
  "conditionList state = sort_key (\<lambda>c. cfID (cdFact c)) (map snd (csConditions state))"

definition time_or_zero :: "(string \<Rightarrow> int option) \<Rightarrow> string \<Rightarrow> int" where
  "time_or_zero parse text = (case parse text of None \<Rightarrow> ZeroTime | Some t \<Rightarrow> t)"

definition admitted_identity :: "condition_state \<Rightarrow> string \<Rightarrow> bool" where
  "admitted_identity state i \<longleftrightarrow> map_of (csAdmissions state) i = Some True"

subsection \<open>Facts\<close>

definition outdated_reboot :: "(string \<Rightarrow> int option) \<Rightarrow> bool \<Rightarrow> condition_fact \<Rightarrow> notified_condition option \<Rightarrow> bool" where
  "outdated_reboot parse rebased reported previous =
     (case previous of
        None \<Rightarrow> False
      | Some p \<Rightarrow> cfEventType reported = EventRebootRequired \<and> \<not> rebased \<and> cfCreatedAt reported \<noteq> []
          \<and> time_or_zero parse (cfCreatedAt reported) < time_or_zero parse (cfCreatedAt (cdFact p))
          \<and> cfTargetName reported = cfTargetName (cdFact p))"

definition begins_episode :: "condition_fact \<Rightarrow> notified_condition option \<Rightarrow> bool" where
  "begins_episode reported previous \<longleftrightarrow> cfActive reported \<and>
     (case previous of
        None \<Rightarrow> True
      | Some p \<Rightarrow> \<not> cfActive (cdFact p) \<or> cfGeneration (cdFact p) \<noteq> cfGeneration reported \<or> cfEventType (cdFact p) \<noteq> cfEventType reported)"

definition merged_condition :: "(int \<Rightarrow> string) \<Rightarrow> notification_settings \<Rightarrow> int \<Rightarrow> condition_fact \<Rightarrow> notified_condition option \<Rightarrow> notified_condition" where
  "merged_condition fmt settings now reported previous =
     (let episode = (case previous of None \<Rightarrow> 0 | Some p \<Rightarrow> cdEpisode p) + (if begins_episode reported previous then 1 else 0);
          created = (if cfCreatedAt reported \<noteq> [] then cfCreatedAt reported
            else case previous of
              Some p \<Rightarrow> if cfActive (cdFact p) = cfActive reported then cfCreatedAt (cdFact p) else fmt now
            | None \<Rightarrow> fmt now);
          active = (case previous of
              None \<Rightarrow> cfActive reported \<and> \<not> (cfOneShot reported \<and>
                (\<not> eventEnabled (nsEventTypes settings) (cfEventType reported) \<or> enabledDestinations settings = []))
            | Some p \<Rightarrow> if cfOneShot reported then cfActive (cdFact p) else cfActive reported);
          updated = (case previous of
              None \<Rightarrow> fmt now
            | Some p \<Rightarrow> if cfActive (cdFact p) \<noteq> active \<or> cdEpisode p \<noteq> episode then fmt now else cdUpdatedAt p) in
      \<lparr>cdFact = reported\<lparr>cfCreatedAt := created, cfActive := active\<rparr>, cdEpisode = episode, cdUpdatedAt = updated\<rparr>)"

definition accept_fact :: "(int \<Rightarrow> string) \<Rightarrow> (string \<Rightarrow> int option) \<Rightarrow> notification_settings \<Rightarrow> int \<Rightarrow> bool \<Rightarrow> condition_fact
    \<Rightarrow> condition_state \<times> string list \<Rightarrow> condition_state \<times> string list" where
  "accept_fact fmt parse settings now rebased reported = (\<lambda>(state, fresh).
     if cfID reported = [] then (state, fresh)
     else let previous = map_of (csConditions state) (cfID reported);
              fresh1 = (if cfOneShot reported \<and> previous = None then cfID reported # fresh else fresh) in
       if outdated_reboot parse rebased reported previous then (state, fresh1)
       else (state\<lparr>csConditions := AList.update (cfID reported) (merged_condition fmt settings now reported previous) (csConditions state)\<rparr>, fresh1))"

subsection \<open>Admission\<close>

definition condition_identity :: "notified_condition \<Rightarrow> string \<Rightarrow> string" where
  "condition_identity c fingerprint = ''condition/'' @ cfID (cdFact c) @ ''/'' @ itoa (cdEpisode c) @ ''/'' @ fingerprint"

definition conditionIntent :: "payload_env \<Rightarrow> notified_condition \<Rightarrow> delivery_intent" where
  "conditionIntent env c =
     (let reported = cdFact c;
          meta = (case unmarshal_map env (cfMetaJSON reported) of Inl _ \<Rightarrow> [] | Inr m \<Rightarrow> m);
          meta' = AList.update ''condition_episode'' (JNum (itoa (cdEpisode c))) (AList.update ''condition_id'' (JStr (cfID reported)) meta) in
      \<lparr>diID = [], diCreatedAt = cfCreatedAt reported, diActor = [], diAction = cfEventType reported, diTargetType = cfTargetType reported,
       diTargetName = cfTargetName reported, diStatus = ''attention'', diMessage = cfMessage reported,
       diMetaJSON = peMarshal env (JObj meta'), diClientIP = []\<rparr>)"

text \<open>One pass of the inner loop, for a condition and a destination.\<close>

definition admit_condition :: "payload_env \<Rightarrow> notification_settings \<Rightarrow> string \<Rightarrow> notified_condition \<times> string
    \<Rightarrow> (string \<times> bool) list \<times> outbox_row list \<Rightarrow> (string, (string \<times> bool) list \<times> outbox_row list) result" where
  "admit_condition env settings nowText = (\<lambda>(c, destination) (admissions, rows).
     if \<not> destinationConfigured settings destination then Inr (admissions, rows)
     else let fingerprint = destinationConfigFingerprint (peSHA256 env) settings destination;
              identity = condition_identity c fingerprint in
       if map_of admissions identity = Some True then Inr (admissions, rows)
       else bind_result (buildOutboxRows env ((conditionIntent env c)\<lparr>diID := identity\<rparr>) (cfEventType (cdFact c)) [destination] nowText) (\<lambda>built.
         Inr (AList.update identity True admissions, rows @ map (\<lambda>r. r\<lparr>orFingerprint := fingerprint\<rparr>) built)))"

fun admit_loop :: "payload_env \<Rightarrow> notification_settings \<Rightarrow> string \<Rightarrow> (notified_condition \<times> string) list
    \<Rightarrow> (string \<times> bool) list \<times> outbox_row list \<Rightarrow> (string, (string \<times> bool) list \<times> outbox_row list) result" where
  "admit_loop env settings nowText [] acc = Inr acc"
| "admit_loop env settings nowText (x # xs) acc =
     bind_result (admit_condition env settings nowText x acc) (admit_loop env settings nowText xs)"

definition admission_pairs :: "notification_settings \<Rightarrow> string list \<Rightarrow> condition_state \<Rightarrow> (notified_condition \<times> string) list" where
  "admission_pairs settings fresh state =
     [(c, destination). c \<leftarrow> conditionList state,
        cfActive (cdFact c) \<and> \<not> (cfOneShot (cdFact c) \<and> cfID (cdFact c) \<notin> set fresh)
          \<and> eventEnabled (nsEventTypes settings) (cfEventType (cdFact c)),
        destination \<leftarrow> enabledDestinations settings]"

subsection \<open>Reminders\<close>

definition reminderIntent :: "(int \<Rightarrow> string) \<Rightarrow> condition_state \<Rightarrow> notification_settings \<Rightarrow> int \<Rightarrow> delivery_intent option" where
  "reminderIntent fmt state settings now =
     (let lines = [cfTargetName (cdFact c) @ '': '' @ cfMessage (cdFact c). c \<leftarrow> conditionList state,
            cfActive (cdFact c) \<and> \<not> cfOneShot (cdFact c) \<and> eventEnabled (nsEventTypes settings) (cfEventType (cdFact c))] in
      if lines = [] then None
      else Some \<lparr>diID = [], diCreatedAt = fmt now, diActor = [], diAction = EventReminder, diTargetType = ''fleet'',
        diTargetName = ''SimpleLinuxUpdater'', diStatus = ''attention'',
        diMessage = truncate_runes (itoa (int (length lines)) @ '' unresolved conditions:'' @ [CHR 0x0A] @ join [CHR 0x0A] lines) 3500,
        diMetaJSON = [], diClientIP = []\<rparr>)"

definition remind_destination :: "payload_env \<Rightarrow> (int \<Rightarrow> string) \<Rightarrow> (string \<Rightarrow> int option) \<Rightarrow> notification_settings \<Rightarrow> int \<Rightarrow> string
    \<Rightarrow> condition_state \<times> outbox_row list \<Rightarrow> (string, condition_state \<times> outbox_row list) result" where
  "remind_destination env fmt parse settings now destination = (\<lambda>(state, rows).
     let fingerprint = destinationConfigFingerprint (peSHA256 env) settings destination;
         last = (case map_of (csReminders state) fingerprint of None \<Rightarrow> ZeroTime | Some text \<Rightarrow> time_or_zero parse text);
         stamped = state\<lparr>csReminders := AList.update fingerprint (fmt now) (csReminders state)\<rparr> in
     if fingerprint = [] then Inr (state, rows)
     else if \<not> nsRemindersEnabled settings then Inr (state\<lparr>csReminders := AList.delete fingerprint (csReminders state)\<rparr>, rows)
     else if last = ZeroTime then Inr (stamped, rows)
     else if now - last < nsReminderInterval settings * 60000000000 then Inr (state, rows)
     else case reminderIntent fmt state settings now of
       None \<Rightarrow> Inr (state, rows)
     | Some intent \<Rightarrow>
         bind_result (buildOutboxRows env (intent\<lparr>diID := ''reminder/'' @ fingerprint @ ''/'' @ fmt now\<rparr>) EventReminder [destination] (fmt now)) (\<lambda>built.
         Inr (stamped, rows @ map (\<lambda>r. r\<lparr>orFingerprint := fingerprint\<rparr>) built)))"

fun remind_loop :: "payload_env \<Rightarrow> (int \<Rightarrow> string) \<Rightarrow> (string \<Rightarrow> int option) \<Rightarrow> notification_settings \<Rightarrow> int \<Rightarrow> string list
    \<Rightarrow> condition_state \<times> outbox_row list \<Rightarrow> (string, condition_state \<times> outbox_row list) result" where
  "remind_loop env fmt parse settings now [] acc = Inr acc"
| "remind_loop env fmt parse settings now (d # ds) acc =
     bind_result (remind_destination env fmt parse settings now d acc) (remind_loop env fmt parse settings now ds)"

subsection \<open>Reconciliation\<close>

definition defaultOutboxRetention :: int where
  "defaultOutboxRetention = 2592000000000000"

definition expired_condition :: "(string \<Rightarrow> int option) \<Rightarrow> int \<Rightarrow> notified_condition \<Rightarrow> bool" where
  "expired_condition parse now c =
     (let updated = time_or_zero parse (cdUpdatedAt c) in
      (cfOneShot (cdFact c) \<or> \<not> cfActive (cdFact c) \<and> cfEventType (cdFact c) = EventApprovalPublished)
      \<and> updated \<noteq> ZeroTime \<and> defaultOutboxRetention < now - updated)"

definition configured_fingerprints :: "payload_env \<Rightarrow> notification_settings \<Rightarrow> string list" where
  "configured_fingerprints env settings =
     filter (\<lambda>f. f \<noteq> []) (map (destinationConfigFingerprint (peSHA256 env) settings) [DestinationWebhook, DestinationDiscord, DestinationTelegram])"

definition pruneConditionState :: "payload_env \<Rightarrow> (string \<Rightarrow> int option) \<Rightarrow> notification_settings \<Rightarrow> int \<Rightarrow> condition_state \<Rightarrow> condition_state" where
  "pruneConditionState env parse settings now state =
     (let kept = filter (\<lambda>kc. \<not> expired_condition parse now (snd kc)) (csConditions state);
          fingerprints = configured_fingerprints env settings;
          keys = [condition_identity (snd kc) f. kc \<leftarrow> kept, f \<leftarrow> fingerprints] in
      state\<lparr>csConditions := kept,
        csAdmissions := map (\<lambda>k. (k, True)) (filter (admitted_identity state) (remdups keys)),
        csReminders := filter (\<lambda>r. fst r \<in> set fingerprints) (csReminders state)\<rparr>)"

text \<open>Everything before the transaction: the new state and the rows to insert.\<close>

definition plan_conditions :: "payload_env \<Rightarrow> (int \<Rightarrow> string) \<Rightarrow> (string \<Rightarrow> int option) \<Rightarrow> notification_settings \<Rightarrow> int \<Rightarrow> condition_batch
    \<Rightarrow> condition_state \<Rightarrow> (string, condition_state \<times> outbox_row list) result" where
  "plan_conditions env fmt parse settings now batch state =
     (case fold (accept_fact fmt parse settings now (cbRebased batch)) (cbFacts batch) (state, []) of (state1, fresh) \<Rightarrow>
      let state2 = state1\<lparr>csCursor := cbCursor batch\<rparr> in
      bind_result (admit_loop env settings (fmt now) (admission_pairs settings fresh state2) (csAdmissions state2, [])) (\<lambda>(admissions, rows).
      bind_result (remind_loop env fmt parse settings now (enabledDestinations settings) (state2\<lparr>csAdmissions := admissions\<rparr>, rows)) (\<lambda>(state3, rows').
      Inr (pruneConditionState env parse settings now state3, rows'))))"

type_synonym condition_store = "condition_state option \<times> outbox"

definition reconcileConditions :: "payload_env \<Rightarrow> (int \<Rightarrow> string) \<Rightarrow> (string \<Rightarrow> int option)
    \<Rightarrow> (string \<Rightarrow> notified_condition list \<Rightarrow> (string, condition_batch) result) \<Rightarrow> (string, notification_settings) result \<Rightarrow> int
    \<Rightarrow> condition_store \<Rightarrow> (string, unit) result \<times> condition_store" where
  "reconcileConditions env fmt parse source settings now = (\<lambda>(row, t).
     let state = loadConditionState row in
     case bind_result (source (csCursor state) (conditionList state)) (\<lambda>batch.
          bind_result settings (\<lambda>s. plan_conditions env fmt parse s now batch state)) of
       Inl e \<Rightarrow> (Inl e, (row, t))
     | Inr (state', rows) \<Rightarrow>
         if state' = state \<and> rows = [] then (Inr (), (row, t))
         else (Inr (), (Some state', insertOutboxRowsTx (fmt now) rows t)))"

definition conditionDeliveryEligible :: "payload_env \<Rightarrow> (int \<Rightarrow> string) \<Rightarrow> (string \<Rightarrow> int option)
    \<Rightarrow> (string \<Rightarrow> notified_condition list \<Rightarrow> (string, condition_batch) result) option \<Rightarrow> bool \<Rightarrow> (string \<Rightarrow> string) \<Rightarrow> (string \<Rightarrow> (string \<times> int) option)
    \<Rightarrow> notification_settings \<Rightarrow> (string, notification_settings) result \<Rightarrow> int \<Rightarrow> outbox_row \<Rightarrow> condition_store
    \<Rightarrow> (string, bool \<times> outbox_row) result \<times> condition_store" where
  "conditionDeliveryEligible env fmt parse source monitoring refID ref settings current now row store =
     (if orEventType row \<noteq> EventReminder \<and> \<not> prefix ''condition/'' (diID (orIntent row)) \<and> refID (diMetaJSON (orIntent row)) = []
      then (Inr (True, row), store)
      else case (case source of
             None \<Rightarrow> (Inr (), store)
           | Some read \<Rightarrow> if \<not> monitoring then (Inl ''notification condition monitoring has not started'', store)
               else reconcileConditions env fmt parse read current now store) of
        (Inl e, store') \<Rightarrow> (Inl e, store')
      | (Inr _, store') \<Rightarrow>
          let state = loadConditionState (fst store') in
          (if orEventType row = EventReminder then
             (if \<not> nsRemindersEnabled settings
                 \<or> (case map_of (csReminders state) (orFingerprint row) of None \<Rightarrow> [] | Some x \<Rightarrow> x) \<noteq> diCreatedAt (orIntent row)
              then Inr (False, row)
              else case reminderIntent fmt state settings now of
                None \<Rightarrow> Inr (False, row) | Some intent \<Rightarrow> Inr (True, row\<lparr>orIntent := intent\<rparr>))
           else case ref (diMetaJSON (orIntent row)) of
             None \<Rightarrow> Inl ''json''
           | Some (i, episode) \<Rightarrow>
               (case map_of (csConditions state) i of
                  None \<Rightarrow> Inr (False, row)
                | Some c \<Rightarrow>
                    if \<not> cfActive (cdFact c) \<or> cdEpisode c \<noteq> episode \<or> \<not> eventEnabled (nsEventTypes settings) (orEventType row)
                    then Inr (False, row) else Inr (True, row\<lparr>orIntent := conditionIntent env c\<rparr>)),
           store'))"

definition restoreConditions :: "condition_state option \<Rightarrow> condition_store \<Rightarrow> condition_store" where
  "restoreConditions replacement store =
     (case replacement of None \<Rightarrow> store | Some state \<Rightarrow> (Some (state\<lparr>csCursor := ''restore''\<rparr>), snd store))"

definition isConditionEvent :: "string \<Rightarrow> bool" where
  "isConditionEvent event \<longleftrightarrow> event \<in> set conditionEvents"

subsection \<open>Lemmas\<close>

definition destination_identity :: "payload_env \<Rightarrow> notification_settings \<Rightarrow> notified_condition \<Rightarrow> string \<Rightarrow> string" where
  "destination_identity env settings c d = condition_identity c (destinationConfigFingerprint (peSHA256 env) settings d)"

text \<open>The row \<open>r\<close> notifies destination \<open>d\<close> of the current episode of the active condition \<open>c\<close>, under the
  identity \<open>i\<close>.\<close>

definition notifies :: "payload_env \<Rightarrow> notification_settings \<Rightarrow> notified_condition \<times> string \<Rightarrow> string \<Rightarrow> outbox_row \<Rightarrow> bool" where
  "notifies env settings = (\<lambda>(c, d) i r. destinationConfigured settings d \<and> i = destination_identity env settings c d
     \<and> orID r = peSHA256 env (i @ [CHR 0x00] @ trim_space d) \<and> orEventType r = cfEventType (cdFact c)
     \<and> orFingerprint r = destinationConfigFingerprint (peSHA256 env) settings d)"

lemma admit_condition_cases:
  assumes "admit_condition env settings n (c, d) (adm, rows) = Inr (adm', rows')"
  shows "(adm' = adm \<and> rows' = rows \<and> (destinationConfigured settings d \<longrightarrow> map_of adm (destination_identity env settings c d) = Some True))
     \<or> (\<exists>r. adm' = AList.update (destination_identity env settings c d) True adm \<and> rows' = rows @ [r]
          \<and> map_of adm (destination_identity env settings c d) \<noteq> Some True
          \<and> notifies env settings (c, d) (destination_identity env settings c d) r)"
proof (cases "destinationConfigured settings d \<and> map_of adm (destination_identity env settings c d) \<noteq> Some True")
  case False
  then show ?thesis using assms by (auto simp: admit_condition_def Let_def destination_identity_def split: if_splits)
next
  case True
  let ?i = "destination_identity env settings c d"
  obtain built where built: "buildOutboxRows env ((conditionIntent env c)\<lparr>diID := ?i\<rparr>) (cfEventType (cdFact c)) [d] n = Inr built"
    and out: "adm' = AList.update ?i True adm"
      "rows' = rows @ map (\<lambda>r. r\<lparr>orFingerprint := destinationConfigFingerprint (peSHA256 env) settings d\<rparr>) built"
    using True assms by (auto simp: admit_condition_def Let_def destination_identity_def bind_result_Inr_iff)
  note form = build_rows_form [OF built]
  then obtain r where r: "built = [r]" by (cases built) auto
  with form have "orEventType r = cfEventType (cdFact c)" "orID r = peSHA256 env (?i @ [CHR 0x00] @ trim_space d)" by auto
  with True out r show ?thesis by (auto simp: notifies_def)
qed

lemma admit_loop_Cons:
  assumes "admit_loop env settings n ((c, d) # pairs) (adm, rows) = Inr (adm', rows')"
  obtains adm1 rows1 where "admit_condition env settings n (c, d) (adm, rows) = Inr (adm1, rows1)"
    "admit_loop env settings n pairs (adm1, rows1) = Inr (adm', rows')"
  using assms by (auto simp: bind_result_Inr_iff)

lemma admit_loop_keeps:
  "admit_loop env settings n pairs (adm, rows) = Inr (adm', rows') \<Longrightarrow> map_of adm i = Some True \<Longrightarrow> map_of adm' i = Some True"
proof (induction pairs arbitrary: adm rows)
  case (Cons p pairs)
  obtain c d where p: "p = (c, d)" by (cases p)
  from Cons.prems(1) [unfolded p] obtain adm1 rows1 where a: "admit_condition env settings n (c, d) (adm, rows) = Inr (adm1, rows1)"
    and b: "admit_loop env settings n pairs (adm1, rows1) = Inr (adm', rows')" by (rule admit_loop_Cons)
  have "map_of adm1 i = Some True" using admit_condition_cases [OF a] Cons.prems(2) by (auto simp: update_conv)
  then show ?case by (rule Cons.IH [OF b])
qed simp

lemma admit_loop_admits:
  "admit_loop env settings n pairs (adm, rows) = Inr (adm', rows') \<Longrightarrow> (c, d) \<in> set pairs \<Longrightarrow> destinationConfigured settings d \<Longrightarrow>
     map_of adm' (destination_identity env settings c d) = Some True"
proof (induction pairs arbitrary: adm rows)
  case (Cons p pairs)
  obtain x y where p: "p = (x, y)" by (cases p)
  from Cons.prems(1) [unfolded p] obtain adm1 rows1 where a: "admit_condition env settings n (x, y) (adm, rows) = Inr (adm1, rows1)"
    and b: "admit_loop env settings n pairs (adm1, rows1) = Inr (adm', rows')" by (rule admit_loop_Cons)
  show ?case
  proof (cases "(c, d) = p")
    case True
    then have "map_of adm1 (destination_identity env settings c d) = Some True"
      using admit_condition_cases [OF a] Cons.prems(3) p by (auto simp: update_conv)
    then show ?thesis by (rule admit_loop_keeps [OF b])
  next
    case False
    then show ?thesis using Cons.IH [OF b] Cons.prems by auto
  qed
qed simp

lemma admit_loop_rows:
  assumes "admit_loop env settings n pairs (adm, rows) = Inr (adm', rows')"
  shows "\<exists>ids new. rows' = rows @ new \<and> distinct ids
      \<and> list_all2 (\<lambda>i r. map_of adm i \<noteq> Some True \<and> map_of adm' i = Some True \<and> (\<exists>p\<in>set pairs. notifies env settings p i r)) ids new"
  using assms
proof (induction pairs arbitrary: adm rows)
  case Nil
  then show ?case by (intro exI [of _ "[]"]) simp
next
  case (Cons p pairs)
  obtain c d where p: "p = (c, d)" by (cases p)
  from Cons.prems [unfolded p] obtain adm1 rows1 where a: "admit_condition env settings n (c, d) (adm, rows) = Inr (adm1, rows1)"
    and b: "admit_loop env settings n pairs (adm1, rows1) = Inr (adm', rows')" by (rule admit_loop_Cons)
  from Cons.IH [OF b] obtain ids new where new: "rows' = rows1 @ new" "distinct ids"
    "list_all2 (\<lambda>i r. map_of adm1 i \<noteq> Some True \<and> map_of adm' i = Some True \<and> (\<exists>p\<in>set pairs. notifies env settings p i r)) ids new" by blast
  from admit_condition_cases [OF a] show ?case
  proof (elim disjE conjE exE)
    assume "adm1 = adm" "rows1 = rows"
    with new show ?case by (intro exI [of _ ids] exI [of _ new]) (auto elim: list_all2_mono)
  next
    let ?i = "destination_identity env settings c d"
    fix r assume r: "adm1 = AList.update ?i True adm" "rows1 = rows @ [r]" "map_of adm ?i \<noteq> Some True" "notifies env settings (c, d) ?i r"
    have fresh: "?i \<notin> set ids"
      using new(3) r(1) by (auto simp: list_all2_conv_all_nth in_set_conv_nth update_conv)
    have "map_of adm' ?i = Some True" using admit_loop_keeps [OF b] r(1) by (simp add: update_conv)
    moreover have "list_all2 (\<lambda>i r. map_of adm i \<noteq> Some True \<and> map_of adm' i = Some True \<and> (\<exists>q\<in>set (p # pairs). notifies env settings q i r)) ids new"
      using new(3) by (rule list_all2_mono) (auto simp: r(1) update_conv split: if_splits)
    ultimately have "list_all2 (\<lambda>i r. map_of adm i \<noteq> Some True \<and> map_of adm' i = Some True \<and> (\<exists>q\<in>set (p # pairs). notifies env settings q i r))
        (?i # ids) (r # new)"
      using r(3,4) p by auto
    with new r fresh show ?case by (intro exI [of _ "?i # ids"] exI [of _ "r # new"]) simp
  qed
qed

lemma remind_destination_keeps:
  assumes "remind_destination env fmt parse settings now d (state, rows) = Inr (state', rows')"
  shows "csAdmissions state' = csAdmissions state" "csConditions state' = csConditions state"
    "\<exists>new. rows' = rows @ new \<and> (\<forall>r\<in>set new. orEventType r = EventReminder)"
  using assms
  by (auto simp: remind_destination_def Let_def bind_result_Inr_iff split: if_splits option.splits dest!: build_rows_form)

lemma remind_loop_keeps:
  assumes "remind_loop env fmt parse settings now ds (state, rows) = Inr (state', rows')"
  shows "csAdmissions state' = csAdmissions state \<and> csConditions state' = csConditions state
     \<and> (\<exists>new. rows' = rows @ new \<and> (\<forall>r\<in>set new. orEventType r = EventReminder))"
  using assms
proof (induction ds arbitrary: state rows)
  case (Cons d ds)
  then obtain s1 r1 where a: "remind_destination env fmt parse settings now d (state, rows) = Inr (s1, r1)"
    and b: "remind_loop env fmt parse settings now ds (s1, r1) = Inr (state', rows')"
    by (auto simp: bind_result_Inr_iff)
  from Cons.IH [OF b] remind_destination_keeps [OF a] show ?case by force
qed simp

lemma accept_facts_admissions:
  "csAdmissions (fst (fold (accept_fact fmt parse settings now rebased) facts (state, fresh))) = csAdmissions state"
  by (induction facts arbitrary: state fresh) (auto simp: accept_fact_def Let_def split: prod.splits)

lemma fingerprint_configured:
  assumes "destinationConfigured settings d" and "\<forall>x. peSHA256 env x \<noteq> []"
  shows "destinationConfigFingerprint (peSHA256 env) settings d \<in> set (configured_fingerprints env settings)"
  using assms
  by (auto simp: configured_fingerprints_def destinationConfigFingerprint_def destinationConfigured_def Let_def split: if_splits)

lemma pruned_admission:
  assumes "c \<in> snd ` set (csConditions (pruneConditionState env parse settings now state))" and "f \<in> set (configured_fingerprints env settings)"
    and "admitted_identity state (condition_identity c f)"
  shows "admitted_identity (pruneConditionState env parse settings now state) (condition_identity c f)"
proof -
  have key: "map_of (map (\<lambda>k. (k, True)) ks) i = (if i \<in> set ks then Some True else None)" for ks and i :: string
    by (induction ks) auto
  show ?thesis using assms by (auto simp: pruneConditionState_def Let_def admitted_identity_def key) blast
qed

lemma set_conditionList: "set (conditionList state) = snd ` set (csConditions state)"
  by (simp add: conditionList_def)

subsection \<open>Properties\<close>


subsection \<open>Witnesses\<close>

definition sample_reboot :: condition_fact where
  "sample_reboot = \<lparr>cfID = ''r'', cfEventType = EventRebootRequired, cfTargetType = ''server'', cfTargetName = ''web'', cfGeneration = ''g'',
     cfActive = True, cfOneShot = False, cfMessage = ''reboot'', cfMetaJSON = ''null'', cfCreatedAt = ''t1''\<rparr>"

definition sample_hash_env :: payload_env where
  "sample_hash_env = sample_payload_env\<lparr>peSHA256 := (\<lambda>s. CHR ''h'' # s)\<rparr>"

definition sample_condition_settings :: notification_settings where
  "sample_condition_settings = default_settings\<lparr>nsEnabled := True, nsWebhookURL := ''https://h'', nsEventTypes := [EventRebootRequired]\<rparr>"

definition sample_plan :: "(string, condition_state \<times> outbox_row list) result" where
  "sample_plan = plan_conditions sample_hash_env (\<lambda>_. ''t1'') (\<lambda>_. Some 5) sample_condition_settings 5
     \<lparr>cbRebased = False, cbFacts = [sample_reboot], cbCursor = ''1''\<rparr> empty_conditions"


end
