(* ===== verification/Delivery.thy ===== *)
theory Delivery
  imports Conditions Runtime
begin

section \<open>Delivery: admission and the worker of the notification queue\<close>

text \<open>
  The model of the delivery part of \<open>internal/notifications/service.go\<close>: \<open>Accept\<close>, \<open>processOutboxRow\<close> and the
  loop of \<open>run\<close>. The record \<open>delivery_env\<close> holds the injected functions and the durations (nanoseconds); the record
  \<open>attempt_input\<close> what the outside contributes to one pass of the loop: the times before and after the request,
  the answer of the HTTP client and whether the final statement fails. A request that is sent is recorded in
  \<open>dwSent\<close> with the row and the endpoint. The pause of the persistence during a restore is not modelled here.
\<close>

subsection \<open>Data\<close>

record delivery_env =
  deSettings :: settings_env
  dePayload :: payload_env
  deWaitURL :: "string \<Rightarrow> string"
  deFmt :: "int \<Rightarrow> string"
  deFmtSeconds :: "int \<Rightarrow> string"
  deParse :: "string \<Rightarrow> int option"
  deSource :: "(string \<Rightarrow> notified_condition list \<Rightarrow> (string, condition_batch) result) option"
  deRefID :: "string \<Rightarrow> string"
  deRef :: "string \<Rightarrow> (string \<times> int) option"
  deUpgradeCompleted :: "string \<Rightarrow> bool option"
  deBackoff :: "int \<Rightarrow> int"
  dePollInterval :: int
  deClaimTTL :: int
  deRetention :: int

datatype http_answer = RequestRefused | TransportError delivery_error | HTTPStatus int

record attempt_input =
  atNow :: int
  atDone :: int
  atAnswer :: http_answer
  atPersistFails :: bool

record delivery_world =
  dwSettings :: "string option"
  dwConditions :: "condition_state option"
  dwOutbox :: outbox
  dwClosing :: bool
  dwMonitoring :: bool
  dwInitFailed :: bool
  dwWake :: bool
  dwSent :: "(string \<times> string) list"

datatype admission = AdmissionAdmitted | AdmissionSkipped | AdmissionRejected string | AdmissionClosing

abbreviation (input) defaultAttempts :: int where "defaultAttempts \<equiv> 3"

subsection \<open>Contention\<close>

definition isSQLiteContention :: "string \<Rightarrow> bool" where
  "isSQLiteContention text =
     (let message = to_lower text in
      contains message ''database is locked'' \<or> contains message ''database is busy''
      \<or> contains message ''sqlite_busy'' \<or> contains message ''sqlite_locked'')"

text \<open>The loops of \<open>persistOutboxRows\<close> and \<open>retrySQLiteContention\<close>: \<open>attempt i\<close> is the error of the \<open>i\<close>-th try, and
  \<open>left\<close> tries follow.\<close>

fun contention_loop :: "nat \<Rightarrow> (nat \<Rightarrow> string option) \<Rightarrow> nat \<Rightarrow> string option" where
  "contention_loop left attempt i =
     (case attempt i of
        None \<Rightarrow> None
      | Some err \<Rightarrow> if \<not> isSQLiteContention err then Some err
          else case left of 0 \<Rightarrow> Some err | Suc m \<Rightarrow> contention_loop m attempt (Suc i))"

definition retrySQLiteContention :: "(nat \<Rightarrow> string option) \<Rightarrow> string option" where
  "retrySQLiteContention attempt = contention_loop 19 attempt 1"

definition persistOutboxRows :: "(nat \<Rightarrow> string option) \<Rightarrow> outbox_row list \<Rightarrow> string \<Rightarrow> outbox \<Rightarrow> string option \<times> outbox" where
  "persistOutboxRows attempt rows now t =
     (case contention_loop 19 attempt 1 of None \<Rightarrow> (None, insertOutboxRowsTx now rows t) | Some err \<Rightarrow> (Some err, t))"

subsection \<open>Admission\<close>

definition isSuccessfulNoOpUpdate :: "delivery_env \<Rightarrow> delivery_intent \<Rightarrow> bool" where
  "isSuccessfulNoOpUpdate env evt \<longleftrightarrow> trim_space (diAction evt) = EventUpdateComplete
     \<and> equal_fold_ascii (trim_space (diStatus evt)) ''success'' \<and> deUpgradeCompleted env (diMetaJSON evt) = Some False"

text \<open>The event type, empty when nothing is to be delivered.\<close>

definition notificationPlan :: "delivery_env \<Rightarrow> delivery_intent \<Rightarrow> bool \<Rightarrow> notification_settings \<Rightarrow> string" where
  "notificationPlan env evt force settings =
     (let eventType = trim_space (diAction evt) in
      if force then EventTest
      else if isSuccessfulNoOpUpdate env evt then []
      else if \<not> anyDestinationEnabled settings \<or> \<not> eventEnabled (nsEventTypes settings) eventType then []
      else eventType)"

definition settings_message :: "settings_error \<Rightarrow> string" where
  "settings_message e =
     (case e of UnsupportedEvent x \<Rightarrow> ''unsupported notification event type: '' @ x | ValidationError m \<Rightarrow> m | StorageError m \<Rightarrow> m)"

definition Accept :: "delivery_env \<Rightarrow> string \<Rightarrow> int \<Rightarrow> (nat \<Rightarrow> string option) \<Rightarrow> delivery_intent \<Rightarrow> delivery_world \<Rightarrow> admission \<times> delivery_world" where
  "Accept env newID now attempt intent w0 =
     (let w = (if dwMonitoring w0 \<and> \<not> dwClosing w0 then w0\<lparr>dwWake := True\<rparr> else w0) in
      if deSource env \<noteq> None \<and> isConditionEvent (diAction intent) then (AdmissionSkipped, w)
      else if dwClosing w then (AdmissionClosing, w)
      else case loadSettings (deSettings env) (dwSettings w) of
        (Inl e, raw) \<Rightarrow> (AdmissionRejected (settings_message e), w\<lparr>dwSettings := raw\<rparr>)
      | (Inr settings, raw) \<Rightarrow>
          let w1 = w\<lparr>dwSettings := raw\<rparr>; eventType = notificationPlan env intent False settings in
          if eventType = [] then (AdmissionSkipped, w1)
          else let intent1 = (if trim_space (diID intent) = [] then intent\<lparr>diID := newID\<rparr> else intent) in
            case buildOutboxRows (dePayload env) intent1 eventType (enabledDestinations settings) (deFmt env now) of
              Inl e \<Rightarrow> (AdmissionRejected e, w1)
            | Inr rows \<Rightarrow>
                if dwInitFailed w1 then (AdmissionRejected ''notification delivery persistence is unavailable'', w1)
                else let bound = map (\<lambda>r. r\<lparr>orFingerprint := destinationConfigFingerprint (peSHA256 (dePayload env)) settings (orDestination r)\<rparr>) rows in
                  (case persistOutboxRows attempt bound (deFmt env now) (dwOutbox w1) of
                     (Some _, t) \<Rightarrow> (AdmissionRejected ''notification delivery could not be persisted'', w1\<lparr>dwOutbox := t\<rparr>)
                   | (None, t) \<Rightarrow> (AdmissionAdmitted, w1\<lparr>dwOutbox := t, dwWake := True\<rparr>)))"

subsection \<open>One attempt\<close>

definition nonNegativeMilliseconds :: "int \<Rightarrow> int" where
  "nonNegativeMilliseconds duration = (if duration \<le> 0 then 0 else duration div 1000000)"

definition safeWebhookRequestError :: "delivery_error \<Rightarrow> delivery_error" where
  "safeWebhookRequestError err = (case err of ErrText _ \<Rightarrow> ErrText ''webhook request failed'' | _ \<Rightarrow> err)"

definition completed_status :: "delivery_env \<Rightarrow> int \<Rightarrow> int \<Rightarrow> delivery_status \<Rightarrow> delivery_status" where
  "completed_status env attemptedAt completedAt status =
     status\<lparr>dsCompletedAt := deFmtSeconds env completedAt, dsDeliveredAt := deFmtSeconds env completedAt,
       dsDurationMS := nonNegativeMilliseconds (completedAt - attemptedAt)\<rparr>"

definition failedDeliveryStatus :: "delivery_env \<Rightarrow> int \<Rightarrow> int \<Rightarrow> delivery_error \<Rightarrow> delivery_status \<Rightarrow> delivery_status" where
  "failedDeliveryStatus env attemptedAt completedAt err status =
     completed_status env attemptedAt completedAt (status\<lparr>dsSuccess := False, dsOutcome := DeliveryOutcomeFailed,
       dsError := safeDeliveryError err, dsConsecutiveFailures := dsConsecutiveFailures status + 1\<rparr>)"

definition answer_result :: "http_answer \<Rightarrow> int \<times> delivery_error option" where
  "answer_result answer =
     (case answer of
        RequestRefused \<Rightarrow> (0, Some (ErrText ''webhook request could not be created''))
      | TransportError err \<Rightarrow> (0, Some (safeWebhookRequestError err))
      | HTTPStatus code \<Rightarrow> (code, if 200 \<le> code \<and> code < 300 then None else Some (ErrText (''webhook returned HTTP '' @ itoa code))))"

definition previous_failures :: "notification_settings \<Rightarrow> string \<Rightarrow> int" where
  "previous_failures settings destination =
     (case map_option safeDeliveryStatus (Option.bind (map_of (nsLastDeliveries settings) destination) id) of
        Some previous \<Rightarrow> dsConsecutiveFailures previous
      | None \<Rightarrow> (if destination = DestinationWebhook
          then (case map_option safeDeliveryStatus (nsLastDelivery settings) of Some previous \<Rightarrow> dsConsecutiveFailures previous | None \<Rightarrow> 0)
          else 0))"

text \<open>The status, the error, and the endpoint if a request was sent.\<close>

definition attemptOutboxDestination ::
  "delivery_env \<Rightarrow> attempt_input \<Rightarrow> notification_settings \<Rightarrow> outbox_row \<Rightarrow> delivery_status \<times> delivery_error option \<times> string option" where
  "attemptOutboxDestination env inp settings row =
     (let status = \<lparr>dsDestination = orDestination row, dsEventType = orEventType row, dsAction = diAction (orIntent row),
            dsTargetName = diTargetName (orIntent row), dsOutcome = [], dsSuccess = False, dsAttempts = orAttempts row + 1,
            dsStatusCode = 0, dsError = [], dsAttemptedAt = deFmtSeconds env (atNow inp), dsCompletedAt = [], dsDeliveredAt = [],
            dsDurationMS = 0, dsConsecutiveFailures = 0, dsNextRetryAt = []\<rparr>;
          failed = (\<lambda>err. (failedDeliveryStatus env (atNow inp) (atDone inp) err status, Some err, None)) in
      case buildPayload (dePayload env) (orEventType row) (orIntent row) of
        Inl e \<Rightarrow> failed (ErrText e)
      | Inr payload \<Rightarrow>
          (case destinationRequest (deSettings env) (deWaitURL env) settings (orDestination row) payload of
             Inl e \<Rightarrow> failed (ErrText (settings_message e))
           | Inr (endpoint, _) \<Rightarrow>
               let failures = previous_failures settings (orDestination row);
                   base = completed_status env (atNow inp) (atDone inp) (status\<lparr>dsStatusCode := fst (answer_result (atAnswer inp))\<rparr>);
                   sent = (if atAnswer inp = RequestRefused then None else Some endpoint) in
               (case snd (answer_result (atAnswer inp)) of
                  None \<Rightarrow> (base\<lparr>dsSuccess := True, dsOutcome := DeliveryOutcomeSucceeded, dsConsecutiveFailures := 0\<rparr>, None, sent)
                | Some err \<Rightarrow>
                    (base\<lparr>dsSuccess := False, dsError := safeDeliveryError err, dsConsecutiveFailures := failures + 1\<rparr>, Some err, sent))))"

definition skipped_outcome :: "outbox_row \<Rightarrow> string \<Rightarrow> string \<Rightarrow> outbox_outcome" where
  "skipped_outcome row now message =
     \<lparr>ooState = outboxStateSkipped, ooAttempts = orAttempts row, ooNextAttemptAt = [], ooAttemptedAt = [], ooCompletedAt = now,
      ooStatusCode = 0, ooError = message, ooDurationMS = 0\<rparr>"

definition attempt_outcome :: "delivery_env \<Rightarrow> attempt_input \<Rightarrow> delivery_status \<Rightarrow> delivery_error option \<Rightarrow> outbox_outcome" where
  "attempt_outcome env inp status err =
     (let retry = (err \<noteq> None \<and> dsAttempts status < defaultAttempts) in
      \<lparr>ooState = (if err = None then outboxStateSucceeded else if retry then outboxStateRetrying else outboxStateFailed),
       ooAttempts = dsAttempts status,
       ooNextAttemptAt = (if retry then deFmt env (atDone inp + max 0 (deBackoff env (dsAttempts status))) else []),
       ooAttemptedAt = dsAttemptedAt status, ooCompletedAt = dsCompletedAt status, ooStatusCode = dsStatusCode status,
       ooError = dsError status, ooDurationMS = dsDurationMS status\<rparr>)"

definition reported_status :: "outbox_outcome \<Rightarrow> delivery_status \<Rightarrow> delivery_status" where
  "reported_status outcome status =
     (if ooState outcome = outboxStateRetrying then status\<lparr>dsOutcome := DeliveryOutcomeRetrying, dsNextRetryAt := ooNextAttemptAt outcome\<rparr>
      else if ooState outcome = outboxStateFailed then status\<lparr>dsOutcome := DeliveryOutcomeFailed, dsNextRetryAt := []\<rparr>
      else status)"

definition finish_row :: "attempt_input \<Rightarrow> string \<Rightarrow> outbox_outcome \<Rightarrow> string \<Rightarrow> delivery_world \<Rightarrow> bool \<times> delivery_world" where
  "finish_row inp i outcome now w =
     (if atPersistFails inp then (False, w)
      else case completeOutboxRow i outcome now (dwOutbox w) of
        (Inl _, t) \<Rightarrow> (False, w\<lparr>dwOutbox := t\<rparr>) | (Inr _, t) \<Rightarrow> (True, w\<lparr>dwOutbox := t\<rparr>))"

definition releaseClaim :: "delivery_env \<Rightarrow> attempt_input \<Rightarrow> outbox_row \<Rightarrow> delivery_world \<Rightarrow> delivery_world" where
  "releaseClaim env inp row w =
     (if atPersistFails inp then w
      else w\<lparr>dwOutbox := releaseOutboxClaim (orID row) (deFmt env (atNow inp + dePollInterval env)) (deFmt env (atNow inp)) (dwOutbox w)\<rparr>)"

text \<open>What is decided before the request: the settings and the row to send, a skip with its message, or an error
  that releases the claim.\<close>

datatype delivery_decision = Release | Skip string | Send notification_settings outbox_row

definition decide_row :: "delivery_env \<Rightarrow> attempt_input \<Rightarrow> outbox_row \<Rightarrow> delivery_world \<Rightarrow> delivery_decision \<times> delivery_world" where
  "decide_row env inp row w =
     (case loadSettings (deSettings env) (dwSettings w) of
        (Inl _, raw) \<Rightarrow> (Release, w\<lparr>dwSettings := raw\<rparr>)
      | (Inr settings, raw) \<Rightarrow>
          (case conditionDeliveryEligible (dePayload env) (deFmt env) (deParse env) (deSource env) (dwMonitoring w \<and> \<not> dwClosing w)
                  (deRefID env) (deRef env) settings (Inr settings) (atNow inp) row (dwConditions w, dwOutbox w) of
             (result, conditions, t) \<Rightarrow>
               let w1 = w\<lparr>dwSettings := raw, dwConditions := conditions, dwOutbox := t\<rparr> in
               (case result of
                  Inl _ \<Rightarrow> (Release, w1)
                | Inr (eligible, row1) \<Rightarrow>
                    if \<not> eligible \<or> \<not> destinationEnabled settings (orDestination row1) \<or> \<not> destinationConfigured settings (orDestination row1)
                    then (Skip [], w1)
                    else if orFingerprint row1 \<noteq> []
                      \<and> orFingerprint row1 \<noteq> destinationConfigFingerprint (peSHA256 (dePayload env)) settings (orDestination row1)
                    then (Skip ''destination configuration changed after notification admission'', w1)
                    else (Send settings row1, w1))))"

definition processOutboxRow :: "delivery_env \<Rightarrow> attempt_input \<Rightarrow> outbox_row \<Rightarrow> delivery_world \<Rightarrow> delivery_world" where
  "processOutboxRow env inp row w =
     (case decide_row env inp row w of
        (Release, w1) \<Rightarrow> releaseClaim env inp row w1
      | (Skip message, w1) \<Rightarrow>
          snd (finish_row inp (orID row) (skipped_outcome row (deFmt env (atNow inp)) message) (deFmt env (atNow inp)) w1)
      | (Send settings row1, w1) \<Rightarrow>
          (case attemptOutboxDestination env inp settings row1 of
             (status, err, sent) \<Rightarrow>
               let w2 = (case sent of None \<Rightarrow> w1 | Some endpoint \<Rightarrow> w1\<lparr>dwSent := dwSent w1 @ [(orID row, endpoint)]\<rparr>);
                   outcome = attempt_outcome env inp status err in
               (case finish_row inp (orID row) outcome (deFmt env (atDone inp)) w2 of
                  (False, w3) \<Rightarrow> w3
                | (True, w3) \<Rightarrow>
                    let w4 = w3\<lparr>dwSettings := snd (storeLastDelivery (deSettings env) (orDestination row) (reported_status outcome status) (dwSettings w3))\<rparr> in
                    if ooState outcome = outboxStateRetrying then w4\<lparr>dwWake := True\<rparr> else w4)))"

subsection \<open>The loop of the worker\<close>

text \<open>One pass of the inner loop of \<open>run\<close>; \<open>None\<close> when it is left.\<close>

definition drain_step :: "delivery_env \<Rightarrow> attempt_input \<Rightarrow> delivery_world \<Rightarrow> delivery_world option" where
  "drain_step env inp w =
     (if dwClosing w then None
      else case claimNextOutboxRow (deFmt env) (atNow inp) (dwOutbox w) of
        (Inl _, _) \<Rightarrow> None
      | (Inr None, _) \<Rightarrow> None
      | (Inr (Some row), t) \<Rightarrow> Some (processOutboxRow env inp row (w\<lparr>dwOutbox := t\<rparr>)))"

partial_function (option) drain :: "delivery_env \<Rightarrow> (nat \<Rightarrow> attempt_input) \<Rightarrow> nat \<Rightarrow> delivery_world \<Rightarrow> (nat \<times> delivery_world) option" where
  "drain env inputs k w =
     (case drain_step env (inputs k) w of
        None \<Rightarrow> Some (k, w)
      | Some w' \<Rightarrow> drain env inputs (Suc k) w')"

text \<open>One pass of the outer loop after a wake-up; \<open>prune\<close> tells whether the prune timer fired.\<close>

definition run_round :: "delivery_env \<Rightarrow> bool \<Rightarrow> int \<Rightarrow> (nat \<Rightarrow> attempt_input) \<Rightarrow> delivery_world \<Rightarrow> (nat \<times> delivery_world) option" where
  "run_round env prune now inputs w0 =
     (let w1 = (if dwMonitoring w0 \<and> \<not> dwClosing w0
                then (case (deSource env, loadSettings (deSettings env) (dwSettings w0)) of
                    (Some source, (settings, raw)) \<Rightarrow>
                      (case snd (reconcileConditions (dePayload env) (deFmt env) (deParse env) source
                              (case settings of Inl e \<Rightarrow> Inl (settings_message e) | Inr s \<Rightarrow> Inr s) now (dwConditions w0, dwOutbox w0)) of
                         (conditions, t) \<Rightarrow> w0\<lparr>dwSettings := raw, dwConditions := conditions, dwOutbox := t\<rparr>)
                  | (None, _) \<Rightarrow> w0)
                else w0);
          t1 = (if prune then snd (pruneOutbox (deFmt env) now (deRetention env) (dwOutbox w1)) else dwOutbox w1) in
      drain env inputs 0 (w1\<lparr>dwWake := False, dwOutbox := recoverExpiredOutboxClaims (deFmt env) now (deClaimTTL env) t1\<rparr>))"

subsection \<open>The rows that are left to do\<close>

text \<open>A waiting row counts one more than the attempts it has left.\<close>

definition row_weight :: "outbox_entry \<Rightarrow> nat" where
  "row_weight e = (if waiting_state (oeState e) then nat (3 - orAttempts (oeRow e)) + 1 else 0)"

definition work_left :: "outbox \<Rightarrow> nat" where
  "work_left t = sum_list (map row_weight t)"

lemma work_left_update_zero:
  assumes "e \<in> set t" and "p e" and "\<And>x. p x \<Longrightarrow> row_weight (f x) = 0"
  shows "work_left (update_where p f t) + row_weight e \<le> work_left t"
  using assms(1)
proof (induction t)
  case (Cons x t)
  have all: "work_left (update_where p f u) \<le> work_left u" for u
    using assms(3) by (induction u) (auto simp: work_left_def update_where_def)
  show ?case using Cons assms(2,3) all [of t] by (auto simp: work_left_def update_where_def)
qed simp

lemma work_left_update_one:
  assumes "affected p t \<le> 1" and "\<And>x. x \<in> set t \<Longrightarrow> p x \<Longrightarrow> row_weight (f x) \<le> n"
  shows "work_left (update_where p f t) \<le> work_left t + n"
  using assms
proof (induction t)
  case (Cons x t)
  show ?case
  proof (cases "p x")
    case True
    then have "\<forall>y\<in>set t. \<not> p y" using Cons.prems(1) by (auto simp: affected_def filter_empty_conv)
    then have "update_where p f t = t" by (auto simp: update_where_def intro: map_idI)
    with True Cons.prems(2) [of x] show ?thesis by (simp add: work_left_def update_where_def)
  next
    case False
    with Cons show ?thesis by (auto simp: work_left_def update_where_def affected_def)
  qed
qed (simp add: work_left_def update_where_def)

lemma work_left_insert:
  "work_left (insertOutboxRowsTx now rows t) = work_left t + 4 * (length (insertOutboxRowsTx now rows t) - length t)
     \<and> length t \<le> length (insertOutboxRowsTx now rows t)"
  unfolding insertOutboxRowsTx_def
proof (induction rows arbitrary: t)
  case (Cons r rows)
  have "work_left (insert_row now r t) = work_left t + 4 * (length (insert_row now r t) - length t)" "length t \<le> length (insert_row now r t)"
    by (simp_all add: insert_row_def work_left_def inserted_entry_def row_weight_def waiting_state_def)
  with Cons.IH [of "insert_row now r t"] show ?case by (simp only: fold_simps) linarith
qed simp

lemma affected_id_le:
  assumes "distinct (map oeID t)"
  shows "affected (\<lambda>e. oeID e = i \<and> q e) t \<le> 1"
  using assms
proof (induction t)
  case (Cons x t)
  have "filter (\<lambda>e. oeID e = oeID x \<and> q e) t = []" 
    using Cons.prems by (simp add: filter_empty_conv) (metis image_eqI)
  with Cons show ?case by (auto simp: affected_def)
qed (simp add: affected_def)

lemma update_length [simp]: "length (update_where p f t) = length t"
  by (simp add: update_where_def)

subsection \<open>What processing does to the queue\<close>

definition grown :: "outbox \<Rightarrow> outbox \<Rightarrow> bool" where
  "grown t t' \<longleftrightarrow> (\<exists>n rows. t' = insertOutboxRowsTx n rows t)"

lemma grown_refl [simp]: "grown t t"
  unfolding grown_def by (intro exI [of _ "[]"]) (simp add: insertOutboxRowsTx_def)

lemma grown_insert [simp]: "grown t (insertOutboxRowsTx n rows t)"
  unfolding grown_def by blast

lemma grown_facts:
  assumes "grown t t'"
  shows "distinct (map oeID t) \<Longrightarrow> distinct (map oeID t')" "row_of t i = Some e \<Longrightarrow> row_of t' i = Some e"
    "work_left t' = work_left t + 4 * (length t' - length t)" "length t \<le> length t'"
    "e \<in> set t' \<Longrightarrow> e \<in> set t \<or> (\<exists>now row. e = inserted_entry now row)"
  using assms insert_rows_distinct insert_rows_keep work_left_insert insert_rows_elem unfolding grown_def by blast+

lemma reconcile_outbox:
  assumes "reconcileConditions env fmt parse source settings now (row, t) = (res, row', t')"
  shows "grown t t'"
  using assms by (auto simp: reconcileConditions_def Let_def split: sum.splits if_splits prod.splits)

lemma eligible_outbox:
  assumes "conditionDeliveryEligible env fmt parse source monitoring refID ref settings current now row (c, t) = (res, c', t')"
  shows "grown t t'"
    and "res = Inr (b, row') \<Longrightarrow> \<exists>intent. row' = row\<lparr>orIntent := intent\<rparr>"
proof -
  show "grown t t'"
    using assms reconcile_outbox [of env fmt parse _ current now c t]
    by (auto simp: conditionDeliveryEligible_def Let_def split: if_splits option.splits prod.splits sum.splits)
  have "row = row\<lparr>orIntent := orIntent row\<rparr>" by simp
  then have same: "\<exists>intent. row = row\<lparr>orIntent := intent\<rparr>" by (rule exI)
  then show "\<exists>intent. row' = row\<lparr>orIntent := intent\<rparr>" if "res = Inr (b, row')"
    using assms that
    by (auto simp: conditionDeliveryEligible_def Let_def split: if_splits option.splits prod.splits sum.splits)
qed

lemma decide_facts:
  assumes "decide_row env inp row w = (d, w1)"
  shows "grown (dwOutbox w) (dwOutbox w1)"
    and "dwSent w1 = dwSent w" and "dwClosing w1 = dwClosing w"
    and "d = Send settings row1 \<Longrightarrow> (\<exists>intent. row1 = row\<lparr>orIntent := intent\<rparr>) \<and> fst (loadSettings (deSettings env) (dwSettings w)) = Inr settings
       \<and> destinationEnabled settings (orDestination row) \<and> destinationConfigured settings (orDestination row)
       \<and> (orFingerprint row = [] \<or> orFingerprint row = destinationConfigFingerprint (peSHA256 (dePayload env)) settings (orDestination row))"
proof -
  obtain res raw where l: "loadSettings (deSettings env) (dwSettings w) = (res, raw)" by fastforce
  show "grown (dwOutbox w) (dwOutbox w1)"
  proof (cases res)
    case (Inl e)
    then have "w1 = w\<lparr>dwSettings := raw\<rparr>" using assms l by (simp add: decide_row_def)
    then show ?thesis by simp
  next
    case (Inr s)
    obtain r c t where e: "conditionDeliveryEligible (dePayload env) (deFmt env) (deParse env) (deSource env) (dwMonitoring w \<and> \<not> dwClosing w)
        (deRefID env) (deRef env) s (Inr s) (atNow inp) row (dwConditions w, dwOutbox w) = (r, c, t)" by (metis surj_pair)
    from eligible_outbox(1) [OF e] assms l Inr e show ?thesis
      by (auto simp: decide_row_def Let_def split: sum.splits if_splits)
  qed
  show "dwSent w1 = dwSent w" "dwClosing w1 = dwClosing w"
    using assms l by (auto simp: decide_row_def Let_def split: sum.splits if_splits prod.splits)
  assume d: "d = Send settings row1"
  then obtain s where s: "res = Inr s" using assms l by (cases res) (auto simp: decide_row_def)
  obtain r c t where e: "conditionDeliveryEligible (dePayload env) (deFmt env) (deParse env) (deSource env) (dwMonitoring w \<and> \<not> dwClosing w)
      (deRefID env) (deRef env) s (Inr s) (atNow inp) row (dwConditions w, dwOutbox w) = (r, c, t)" by (metis surj_pair)
  obtain row' where row': "r = Inr (True, row')" "settings = s" "row1 = row'" "destinationEnabled s (orDestination row')"
    "destinationConfigured s (orDestination row')"
    "orFingerprint row' = [] \<or> orFingerprint row' = destinationConfigFingerprint (peSHA256 (dePayload env)) s (orDestination row')"
    using assms d l s e by (auto simp: decide_row_def Let_def split: sum.splits if_splits)
  from eligible_outbox(2) [OF e row'(1)] row' l s
  show "(\<exists>intent. row1 = row\<lparr>orIntent := intent\<rparr>) \<and> fst (loadSettings (deSettings env) (dwSettings w)) = Inr settings
       \<and> destinationEnabled settings (orDestination row) \<and> destinationConfigured settings (orDestination row)
       \<and> (orFingerprint row = [] \<or> orFingerprint row = destinationConfigFingerprint (peSHA256 (dePayload env)) settings (orDestination row))"
    by auto
qed

definition closes_attempt :: "outbox_row \<Rightarrow> outbox_outcome \<Rightarrow> bool" where
  "closes_attempt row outcome \<longleftrightarrow>
     terminal_state (ooState outcome) \<and> (ooAttempts outcome = orAttempts row \<or> ooAttempts outcome = orAttempts row + 1)
     \<or> ooState outcome = outboxStateRetrying \<and> ooAttempts outcome = orAttempts row + 1 \<and> orAttempts row + 1 < 3"

lemma attempt_attempts:
  "attemptOutboxDestination env inp settings row = (status, err, sent) \<Longrightarrow> dsAttempts status = orAttempts row + 1"
  by (auto simp: attemptOutboxDestination_def Let_def failedDeliveryStatus_def completed_status_def split: sum.splits prod.splits option.splits)

lemma outcome_closes:
  "closes_attempt row (skipped_outcome row now message)"
  "dsAttempts status = orAttempts row + 1 \<Longrightarrow> closes_attempt row (attempt_outcome env inp status err)"
  by (auto simp: closes_attempt_def skipped_outcome_def attempt_outcome_def Let_def terminal_state_def)

lemma finish_cases:
  "finish_row inp i outcome now w = (b, w') \<Longrightarrow> w' = w \<or> w' = w\<lparr>dwOutbox := snd (completeOutboxRow i outcome now (dwOutbox w))\<rparr>"
  by (auto simp: finish_row_def split: if_splits sum.splits prod.splits)

lemma process_cases:
  "\<exists>u. grown (dwOutbox w) u \<and>
     (dwOutbox (processOutboxRow env inp row w) = u
      \<or> fst (decide_row env inp row w) = Release \<and> (\<exists>x y. dwOutbox (processOutboxRow env inp row w) = releaseOutboxClaim (orID row) x y u)
      \<or> (\<exists>outcome m. closes_attempt row outcome \<and> dwOutbox (processOutboxRow env inp row w) = snd (completeOutboxRow (orID row) outcome m u)))"
proof -
  obtain d w1 where d: "decide_row env inp row w = (d, w1)" by fastforce
  have u: "grown (dwOutbox w) (dwOutbox w1)" by (rule decide_facts(1) [OF d])
  have "dwOutbox (processOutboxRow env inp row w) = dwOutbox w1
      \<or> d = Release \<and> (\<exists>x y. dwOutbox (processOutboxRow env inp row w) = releaseOutboxClaim (orID row) x y (dwOutbox w1))
      \<or> (\<exists>outcome m. closes_attempt row outcome \<and> dwOutbox (processOutboxRow env inp row w) = snd (completeOutboxRow (orID row) outcome m (dwOutbox w1)))"
  proof (cases d)
    case Release
    then show ?thesis by (auto simp: processOutboxRow_def d releaseClaim_def)
  next
    case (Skip message)
    obtain b w2 where f: "finish_row inp (orID row) (skipped_outcome row (deFmt env (atNow inp)) message) (deFmt env (atNow inp)) w1 = (b, w2)" by fastforce
    have "dwOutbox (processOutboxRow env inp row w) = dwOutbox w2" by (simp add: processOutboxRow_def d Skip f)
    with finish_cases [OF f] outcome_closes(1) show ?thesis by fastforce
  next
    case (Send settings row1)
    obtain status err sent where a: "attemptOutboxDestination env inp settings row1 = (status, err, sent)" by (metis surj_pair)
    define w2 where "w2 = (case sent of None \<Rightarrow> w1 | Some endpoint \<Rightarrow> w1\<lparr>dwSent := dwSent w1 @ [(orID row, endpoint)]\<rparr>)"
    have w2: "dwOutbox w2 = dwOutbox w1" by (simp add: w2_def split: option.splits)
    obtain b w3 where f: "finish_row inp (orID row) (attempt_outcome env inp status err) (deFmt env (atDone inp)) w2 = (b, w3)" by fastforce
    have "orAttempts row1 = orAttempts row" using decide_facts(4) [OF d Send] by auto
    then have closes: "closes_attempt row (attempt_outcome env inp status err)"
      using attempt_attempts [OF a] outcome_closes(2) by simp
    have "dwOutbox (processOutboxRow env inp row w) = dwOutbox w3"
      by (simp add: processOutboxRow_def d Send a w2_def [symmetric] f Let_def split: bool.splits)
    moreover have "dwOutbox w3 = dwOutbox w1 \<or> dwOutbox w3 = snd (completeOutboxRow (orID row) (attempt_outcome env inp status err) (deFmt env (atDone inp)) (dwOutbox w1))"
      using finish_cases [OF f] w2 by auto
    ultimately show ?thesis using closes by (metis (no_types))
  qed
  with u d show ?thesis by (intro exI [of _ "dwOutbox w1"]) simp
qed

lemma complete_outbox: "snd (completeOutboxRow i outcome m t) =
    update_where (\<lambda>e. oeID e = i \<and> oeState e = outboxStateClaimed) (with_outcome outcome m) t"
  by (simp add: completeOutboxRow_def Let_def)

lemma row_of_member: "distinct (map oeID t) \<Longrightarrow> x \<in> set t \<Longrightarrow> row_of t (oeID x) = Some e \<Longrightarrow> x = e"
  using row_of_unique [of t x] by simp

lemma weight_simps [simp]:
  "row_weight (x\<lparr>oeRow := claimed_row n (oeRow x), oeUpdatedAt := m\<rparr>) = 0"
  "row_weight (requeued a b x) = nat (3 - orAttempts (oeRow x)) + 1"
  by (simp_all add: row_weight_def claimed_row_def requeued_def waiting_state_def)

lemma weight_closed:
  "closes_attempt row outcome \<Longrightarrow> row_weight (with_outcome outcome m x) + 1 \<le> nat (3 - orAttempts row) + 1"
  by (auto simp: closes_attempt_def row_weight_def with_outcome_def waiting_state_def terminal_state_def)

definition release_step :: "delivery_env \<Rightarrow> attempt_input \<Rightarrow> delivery_world \<Rightarrow> bool" where
  "release_step env inp w =
     (case claimNextOutboxRow (deFmt env) (atNow inp) (dwOutbox w) of
        (Inr (Some row), t) \<Rightarrow> fst (decide_row env inp row (w\<lparr>dwOutbox := t\<rparr>)) = Release
      | _ \<Rightarrow> False)"

lemma drain_step_facts:
  assumes "distinct (map oeID (dwOutbox w))" and "drain_step env inp w = Some w'"
  shows "distinct (map oeID (dwOutbox w'))" "length (dwOutbox w) \<le> length (dwOutbox w')"
    "work_left (dwOutbox w') + 1 \<le> work_left (dwOutbox w) + 4 * (length (dwOutbox w') - length (dwOutbox w))
       + (if release_step env inp w then 1 else 0)"
proof -
  let ?t = "dwOutbox w"
  let ?now = "deFmt env (atNow inp)"
  obtain res t where c: "claimNextOutboxRow (deFmt env) (atNow inp) ?t = (res, t)" by fastforce
  let ?p = "\<lambda>e x. oeID x = oeID e \<and> waiting_state (oeState x)"
  let ?f = "\<lambda>x. x\<lparr>oeRow := claimed_row ?now (oeRow x), oeUpdatedAt := ?now\<rparr>"
  obtain e where e: "e \<in> set ?t" "due ?now e" "res = Inr (Some (claimed_row ?now (oeRow e)))" "t = update_where (?p e) ?f ?t"
    using claim_cases [OF assms(1) c] assms(2) c by (auto simp: drain_step_def split: if_splits)
  let ?row = "claimed_row ?now (oeRow e)"
  have row: "orID ?row = oeID e" "orAttempts ?row = orAttempts (oeRow e)" by (simp_all add: claimed_row_def)
  have w': "w' = processOutboxRow env inp ?row (w\<lparr>dwOutbox := t\<rparr>)"
    using assms(2) c e(3) by (simp add: drain_step_def split: if_splits)
  have dt: "distinct (map oeID t)" using assms(1) by (simp add: e(4))
  have claimed: "work_left t + (nat (3 - orAttempts ?row) + 1) \<le> work_left ?t"
  proof -
    have "row_weight e = nat (3 - orAttempts ?row) + 1" using e(2) row(2) by (simp add: due_def row_weight_def)
    moreover have "work_left (update_where (?p e) ?f ?t) + row_weight e \<le> work_left ?t"
      by (rule work_left_update_zero [OF e(1)]) (use e(2) in \<open>auto simp: due_def\<close>)
    ultimately show ?thesis by (simp add: e(4))
  qed
  have at: "row_of t (oeID e) = Some (?f e)"
    using row_of_unique [OF assms(1) e(1)] e(2) by (simp add: e(4) row_of_update_where due_def)
  obtain u where u: "grown t u" and out: "dwOutbox w' = u
      \<or> fst (decide_row env inp ?row (w\<lparr>dwOutbox := t\<rparr>)) = Release \<and> (\<exists>x y. dwOutbox w' = releaseOutboxClaim (oeID e) x y u)
      \<or> (\<exists>outcome m. closes_attempt ?row outcome \<and> dwOutbox w' = snd (completeOutboxRow (oeID e) outcome m u))"
    using process_cases [of "w\<lparr>dwOutbox := t\<rparr>" env inp ?row, unfolded row(1), folded w'] by (elim exE conjE) (rule that, simp_all)
  have du: "distinct (map oeID u)" by (rule grown_facts(1) [OF u dt])
  have atu: "row_of u (oeID e) = Some (?f e)" by (rule grown_facts(2) [OF u at])
  have same: "orAttempts (oeRow x) = orAttempts ?row" if "x \<in> set u" "oeID x = oeID e" for x
    using row_of_member [OF du that(1)] that(2) atu by (auto simp: claimed_row_def)
  have lenu: "length ?t \<le> length u" using grown_facts(4) [OF u] by (simp add: e(4))
  have grow: "work_left u = work_left t + 4 * (length u - length ?t)" using grown_facts(3) [OF u] by (simp add: e(4))
  have rel: "release_step env inp w \<longleftrightarrow> fst (decide_row env inp ?row (w\<lparr>dwOutbox := t\<rparr>)) = Release"
    using c e(3) by (simp add: release_step_def)
  have one: "affected (\<lambda>x. oeID x = oeID e \<and> oeState x = outboxStateClaimed) u \<le> 1" by (rule affected_id_le [OF du])
  from out have "distinct (map oeID (dwOutbox w')) \<and> length (dwOutbox w') = length u
      \<and> work_left (dwOutbox w') + 1 \<le> work_left u + (nat (3 - orAttempts ?row) + 1) + (if release_step env inp w then 1 else 0)"
  proof (elim disjE conjE exE)
    fix x y assume r: "fst (decide_row env inp ?row (w\<lparr>dwOutbox := t\<rparr>)) = Release" "dwOutbox w' = releaseOutboxClaim (oeID e) x y u"
    have "work_left (releaseOutboxClaim (oeID e) x y u) \<le> work_left u + (nat (3 - orAttempts ?row) + 1)"
      unfolding releaseOutboxClaim_def by (rule work_left_update_one [OF one]) (simp add: same)
    then show ?thesis using r rel du by (simp add: releaseOutboxClaim_def)
  next
    fix outcome m assume r: "closes_attempt ?row outcome" "dwOutbox w' = snd (completeOutboxRow (oeID e) outcome m u)"
    have "work_left (snd (completeOutboxRow (oeID e) outcome m u)) \<le> work_left u + nat (3 - orAttempts ?row)"
      unfolding complete_outbox using weight_closed [OF r(1)] by (intro work_left_update_one [OF one]) simp
    then show ?thesis using r du by (simp add: complete_outbox)
  qed (simp add: du)
  then show "distinct (map oeID (dwOutbox w'))" "length ?t \<le> length (dwOutbox w')"
    "work_left (dwOutbox w') + 1 \<le> work_left ?t + 4 * (length (dwOutbox w') - length ?t) + (if release_step env inp w then 1 else 0)"
    using lenu grow claimed by auto
qed

subsection \<open>Iterating the loop\<close>

text \<open>The world after \<open>n\<close> passes, and how many of them released their claim.\<close>

fun drain_iter :: "delivery_env \<Rightarrow> (nat \<Rightarrow> attempt_input) \<Rightarrow> nat \<Rightarrow> delivery_world \<Rightarrow> (nat \<times> delivery_world) option" where
  "drain_iter env inputs 0 w = Some (0, w)"
| "drain_iter env inputs (Suc n) w =
     (case drain_iter env inputs n w of
        None \<Rightarrow> None
      | Some (r, v) \<Rightarrow> map_option (\<lambda>v'. (r + (if release_step env (inputs n) v then 1 else 0), v')) (drain_step env (inputs n) v))"

lemma drain_iter_bound:
  assumes "distinct (map oeID (dwOutbox w))" and "drain_iter env inputs n w = Some (r, v)"
  shows "distinct (map oeID (dwOutbox v)) \<and> length (dwOutbox w) \<le> length (dwOutbox v)
     \<and> work_left (dwOutbox v) + n \<le> work_left (dwOutbox w) + 4 * (length (dwOutbox v) - length (dwOutbox w)) + r"
  using assms(2)
proof (induction n arbitrary: r v)
  case 0
  then show ?case using assms(1) by simp
next
  case (Suc n)
  then obtain r0 v0 where p: "drain_iter env inputs n w = Some (r0, v0)" "drain_step env (inputs n) v0 = Some v"
    "r = r0 + (if release_step env (inputs n) v0 then 1 else 0)"
    by (auto split: option.splits)
  note IH = Suc.IH [OF p(1)]
  note s = drain_step_facts [OF conjunct1 [OF IH] p(2)]
  from IH s p(3) show ?case by (auto split: if_splits)
qed

lemma drain_shift:
  "drain_iter env inputs n w = Some (r, v) \<Longrightarrow> drain env inputs 0 w = drain env inputs n v"
proof (induction n arbitrary: r v)
  case (Suc n)
  then obtain r0 v0 where p: "drain_iter env inputs n w = Some (r0, v0)" "drain_step env (inputs n) v0 = Some v"
    by (auto split: option.splits)
  then show ?case using Suc.IH [OF p(1)] drain.simps [of env inputs n v0] by simp
qed simp

lemma drain_step_ends:
  assumes "distinct (map oeID (dwOutbox w))" and "drain_step env inp w = None"
  shows "dwClosing w \<or> (\<forall>e\<in>set (dwOutbox w). \<not> due (deFmt env (atNow inp)) e)"
proof -
  obtain res t where c: "claimNextOutboxRow (deFmt env) (atNow inp) (dwOutbox w) = (res, t)" by fastforce
  then show ?thesis using claim_cases [OF assms(1) c] assms(2) by (auto simp: drain_step_def)
qed

subsection \<open>Properties\<close>


lemma attempt_sends:
  assumes "attemptOutboxDestination env inp settings row = (status, err, Some endpoint)"
  shows "\<exists>payload body. buildPayload (dePayload env) (orEventType row) (orIntent row) = Inr payload
     \<and> destinationRequest (deSettings env) (deWaitURL env) settings (orDestination row) payload = Inr (endpoint, body)"
  using assms by (auto simp: attemptOutboxDestination_def Let_def split: sum.splits prod.splits option.splits if_splits)

lemma process_sent:
  "dwSent (processOutboxRow env inp row w) = dwSent w
   \<or> (\<exists>settings row1 w1 status err endpoint. decide_row env inp row w = (Send settings row1, w1)
       \<and> attemptOutboxDestination env inp settings row1 = (status, err, Some endpoint)
       \<and> dwSent (processOutboxRow env inp row w) = dwSent w @ [(orID row, endpoint)])"
proof -
  obtain d w1 where d: "decide_row env inp row w = (d, w1)" by fastforce
  have sent: "dwSent w1 = dwSent w" by (rule decide_facts(2) [OF d])
  have finish: "dwSent (snd (finish_row inp i outcome now v)) = dwSent v" for i outcome now v
    by (auto simp: finish_row_def split: sum.splits prod.splits)
  show ?thesis
  proof (cases d)
    case (Send settings row1)
    obtain status err s where a: "attemptOutboxDestination env inp settings row1 = (status, err, s)" by (metis surj_pair)
    define w2 where "w2 = (case s of None \<Rightarrow> w1 | Some endpoint \<Rightarrow> w1\<lparr>dwSent := dwSent w1 @ [(orID row, endpoint)]\<rparr>)"
    have "dwSent (processOutboxRow env inp row w) = dwSent w2"
      using finish [of "orID row" "attempt_outcome env inp status err" "deFmt env (atDone inp)" w2]
      by (auto simp: processOutboxRow_def d Send a w2_def [symmetric] Let_def split: prod.splits bool.splits)
    then show ?thesis using d Send a sent by (cases s) (auto simp: w2_def)
  qed (auto simp: processOutboxRow_def d sent finish releaseClaim_def)
qed

text \<open>The endpoint that the settings allow for a destination.\<close>

definition allowed_endpoint :: "delivery_env \<Rightarrow> notification_settings \<Rightarrow> string \<Rightarrow> string \<Rightarrow> bool" where
  "allowed_endpoint env settings destination endpoint \<longleftrightarrow>
     destination = DestinationWebhook \<and> endpoint = nsWebhookURL settings \<and> validateReplacementWebhookURL (deSettings env) endpoint = None
   \<or> destination = DestinationDiscord \<and> endpoint = deWaitURL env (nsDiscordWebhookURL settings)
       \<and> validateDiscordWebhookURL (deSettings env) (nsDiscordWebhookURL settings) = None
   \<or> destination = DestinationTelegram \<and> endpoint = ''https://api.telegram.org/bot'' @ nsTelegramBotToken settings @ ''/sendMessage''
       \<and> telegramBotTokenPattern (trim_space (nsTelegramBotToken settings))"

lemma request_endpoint:
  "destinationRequest (deSettings env) (deWaitURL env) settings destination payload = Inr (endpoint, body) \<Longrightarrow> allowed_endpoint env settings destination endpoint"
  by (auto simp: destinationRequest_def allowed_endpoint_def validateStoredWebhookURL_def validateTelegramCredentials_def
      split: if_splits option.splits)


subsection \<open>Interleavings\<close>

text \<open>The world and the row that the worker has claimed. Requests are admitted and settings saved at any time; the worker
  recovers, prunes, reconciles, claims and processes; a crash loses the claim of the worker.\<close>

type_synonym delivery_state = "delivery_world \<times> outbox_row option"

inductive delivery_step :: "delivery_env \<Rightarrow> delivery_state \<Rightarrow> delivery_state \<Rightarrow> bool" for env where
  accept: "delivery_step env (w, r) (snd (Accept env newID now attempt intent w), r)"
| save: "delivery_step env (w, r) (w\<lparr>dwSettings := snd (SaveSettings (deSettings env) update (dwSettings w))\<rparr>, r)"
| recover: "delivery_step env (w, None) (w\<lparr>dwOutbox := recoverExpiredOutboxClaims (deFmt env) now (deClaimTTL env) (dwOutbox w)\<rparr>, None)"
| prune: "delivery_step env (w, None) (w\<lparr>dwOutbox := snd (pruneOutbox (deFmt env) now (deRetention env) (dwOutbox w))\<rparr>, None)"
| reconcile: "reconcileConditions (dePayload env) (deFmt env) (deParse env) source settings now (dwConditions w, dwOutbox w) = (res, c, t) \<Longrightarrow>
    delivery_step env (w, None) (w\<lparr>dwConditions := c, dwOutbox := t\<rparr>, None)"
| claim: "claimNextOutboxRow (deFmt env) now (dwOutbox w) = (Inr (Some row), t) \<Longrightarrow>
    delivery_step env (w, None) (w\<lparr>dwOutbox := t\<rparr>, Some row)"
| process: "delivery_step env (w, Some row) (processOutboxRow env inp row w, None)"
| crash: "delivery_step env (w, r) (w, None)"

inductive_cases delivery_stepE: "delivery_step env s s'"

definition entry_ok :: "outbox_entry \<Rightarrow> bool" where
  "entry_ok e \<longleftrightarrow> 0 \<le> orAttempts (oeRow e) \<and>
     (if terminal_state (oeState e) then orAttempts (oeRow e) \<le> 3
      else (waiting_state (oeState e) \<or> oeState e = outboxStateClaimed) \<and> orAttempts (oeRow e) \<le> 2)"

definition queue_ok :: "delivery_state \<Rightarrow> bool" where
  "queue_ok = (\<lambda>(w, r). distinct (map oeID (dwOutbox w)) \<and> (\<forall>e\<in>set (dwOutbox w). entry_ok e)
     \<and> (case r of None \<Rightarrow> True | Some row \<Rightarrow>
          \<exists>e. row_of (dwOutbox w) (orID row) = Some e \<and> oeState e = outboxStateClaimed \<and> orAttempts (oeRow e) = orAttempts row))"

lemma entry_ok_simps [simp]:
  "entry_ok (inserted_entry now row)"
  "entry_ok e \<Longrightarrow> oeState e = outboxStateClaimed \<Longrightarrow> entry_ok (requeued x y e)"
  "entry_ok e \<Longrightarrow> waiting_state (oeState e) \<Longrightarrow> entry_ok (e\<lparr>oeRow := claimed_row x (oeRow e), oeUpdatedAt := y\<rparr>)"
  by (auto simp: entry_ok_def inserted_entry_def requeued_def claimed_row_def waiting_state_def terminal_state_def)

lemma entry_ok_outcome:
  "entry_ok e \<Longrightarrow> oeState e = outboxStateClaimed \<Longrightarrow> orAttempts (oeRow e) = orAttempts row \<Longrightarrow> closes_attempt row outcome \<Longrightarrow> entry_ok (with_outcome outcome m e)"
  by (auto simp: entry_ok_def closes_attempt_def with_outcome_def waiting_state_def terminal_state_def)

lemma update_where_all:
  "(\<forall>e\<in>set t. P e) \<Longrightarrow> (\<And>e. e \<in> set t \<Longrightarrow> P e \<Longrightarrow> p e \<Longrightarrow> P (f e)) \<Longrightarrow> \<forall>e\<in>set (update_where p f t). P e"
  by (auto simp: update_where_def)

lemma accept_outbox:
  "grown (dwOutbox w) (dwOutbox (snd (Accept env i now attempt intent w)))" "dwSent (snd (Accept env i now attempt intent w)) = dwSent w"
  by (auto simp: Accept_def Let_def persistOutboxRows_def split: if_splits sum.splits prod.splits option.splits)

lemma grown_ok: "grown t t' \<Longrightarrow> (\<forall>e\<in>set t. entry_ok e) \<Longrightarrow> \<forall>e\<in>set t'. entry_ok e"
  using grown_facts(5) by fastforce

lemma row_of_filter:
  "distinct (map oeID t) \<Longrightarrow> row_of (filter q t) i = (case row_of t i of None \<Rightarrow> None | Some e \<Rightarrow> if q e then Some e else None)"
proof (induction t)
  case (Cons x t)
  show ?case
  proof (cases "oeID x = i")
    case True
    with Cons.prems have "row_of t i = None" by (auto simp: row_of_None)
    with Cons True show ?thesis by (auto simp: row_of_def)
  next
    case False
    with Cons show ?thesis by (auto simp: row_of_def)
  qed
qed (simp add: row_of_def)

lemma prune_outbox: "\<exists>q. snd (pruneOutbox fmt now retention t) = filter q t"
proof (cases "retention \<le> 0")
  case True
  then show ?thesis by (intro exI [of _ "\<lambda>_. True"]) (simp add: pruneOutbox_def)
next
  case False
  then show ?thesis by (auto simp: pruneOutbox_def Let_def)
qed

lemma process_ok:
  assumes "queue_ok (w, Some row)"
  shows "queue_ok (processOutboxRow env inp row w, None)"
    and "row_of (dwOutbox w) i = Some e \<Longrightarrow> terminal_state (oeState e) \<Longrightarrow> row_of (dwOutbox (processOutboxRow env inp row w)) i = Some e"
proof -
  let ?w = "processOutboxRow env inp row w"
  obtain c where c: "row_of (dwOutbox w) (orID row) = Some c" "oeState c = outboxStateClaimed" "orAttempts (oeRow c) = orAttempts row"
    and ok: "distinct (map oeID (dwOutbox w))" "\<forall>x\<in>set (dwOutbox w). entry_ok x"
    using assms by (auto simp: queue_ok_def)
  obtain u where u: "grown (dwOutbox w) u" and out: "dwOutbox ?w = u \<or> (\<exists>x y. dwOutbox ?w = releaseOutboxClaim (orID row) x y u)
      \<or> (\<exists>outcome m. closes_attempt row outcome \<and> dwOutbox ?w = snd (completeOutboxRow (orID row) outcome m u))"
    using process_cases [of w env inp row] by (elim exE conjE disjE) (rule that, assumption, blast)+
  note du = grown_facts(1) [OF u ok(1)] and cu = grown_facts(2) [OF u c(1)] and oku = grown_ok [OF u ok(2)]
  have only: "x = c" if "x \<in> set u" "oeID x = orID row" for x using row_of_member [OF du that(1)] that(2) cu by simp
  from out show "queue_ok (?w, None)"
  proof (elim disjE exE conjE)
    fix outcome m assume o: "closes_attempt row outcome" "dwOutbox ?w = snd (completeOutboxRow (orID row) outcome m u)"
    have "\<forall>x\<in>set (dwOutbox ?w). entry_ok x"
      unfolding o(2) complete_outbox
      by (rule update_where_all [OF oku]) (use only c o(1) entry_ok_outcome in blast)
    then show ?thesis using du o(2) by (simp add: queue_ok_def complete_outbox)
  next
    fix x y assume o: "dwOutbox ?w = releaseOutboxClaim (orID row) x y u"
    have "\<forall>z\<in>set (dwOutbox ?w). entry_ok z"
      unfolding o releaseOutboxClaim_def by (rule update_where_all [OF oku]) simp
    then show ?thesis using du o by (simp add: queue_ok_def releaseOutboxClaim_def)
  qed (use du oku in \<open>simp add: queue_ok_def\<close>)
  assume e: "row_of (dwOutbox w) i = Some e" "terminal_state (oeState e)"
  then have "oeState e \<noteq> outboxStateClaimed" by (auto simp: terminal_state_def)
  with out grown_facts(2) [OF u e(1)] show "row_of (dwOutbox ?w) i = Some e"
    by (auto simp: complete_outbox releaseOutboxClaim_def row_of_update_where)
qed

lemma step_ok:
  assumes "delivery_step env s s'" and "queue_ok s"
  shows "queue_ok s'"
  using assms
proof (induction rule: delivery_step.induct)
  case (accept w r newID now attempt intent)
  note g = accept_outbox(1) [of w env newID now attempt intent]
  from accept have "distinct (map oeID (dwOutbox w))" "\<forall>e\<in>set (dwOutbox w). entry_ok e" by (simp_all add: queue_ok_def)
  with grown_facts(1) [OF g] grown_ok [OF g]
  have "distinct (map oeID (dwOutbox (snd (Accept env newID now attempt intent w))))" "\<forall>e\<in>set (dwOutbox (snd (Accept env newID now attempt intent w))). entry_ok e"
    by blast+
  with accept grown_facts(2) [OF g] show ?case by (cases r) (auto simp: queue_ok_def)
next
  case (recover w now)
  then have "\<forall>e\<in>set (recoverExpiredOutboxClaims (deFmt env) now (deClaimTTL env) (dwOutbox w)). entry_ok e"
    unfolding recoverExpiredOutboxClaims_def by (intro update_where_all) (simp_all add: queue_ok_def)
  with recover show ?case by (simp add: queue_ok_def recoverExpiredOutboxClaims_def)
next
  case (prune w now)
  obtain q where "snd (pruneOutbox (deFmt env) now (deRetention env) (dwOutbox w)) = filter q (dwOutbox w)" using prune_outbox by blast
  with prune show ?case by (auto simp: queue_ok_def distinct_map_filter)
next
  case (reconcile source settings now w res c t)
  note g = reconcile_outbox [OF reconcile(1)]
  from reconcile show ?case using grown_facts(1) [OF g] grown_ok [OF g] by (simp add: queue_ok_def)
next
  case (claim now w row t)
  then have d: "distinct (map oeID (dwOutbox w))" and ok: "\<forall>e\<in>set (dwOutbox w). entry_ok e" by (auto simp: queue_ok_def)
  from claim_cases [OF d claim(1)] obtain e where e: "e \<in> set (dwOutbox w)" "due (deFmt env now) e" "row = claimed_row (deFmt env now) (oeRow e)"
    "t = update_where (\<lambda>x. oeID x = oeID e \<and> waiting_state (oeState x))
       (\<lambda>x. x\<lparr>oeRow := claimed_row (deFmt env now) (oeRow x), oeUpdatedAt := deFmt env now\<rparr>) (dwOutbox w)" by auto
  have "\<forall>x\<in>set t. entry_ok x" unfolding e(4) by (rule update_where_all [OF ok]) simp
  moreover have "row_of t (oeID e) = Some (e\<lparr>oeRow := claimed_row (deFmt env now) (oeRow e), oeUpdatedAt := deFmt env now\<rparr>)"
    using row_of_unique [OF d e(1)] e(2) by (simp add: e(4) row_of_update_where due_def)
  moreover have "distinct (map oeID t)" using d by (simp add: e(4))
  ultimately show ?case using e(3) by (simp add: queue_ok_def claimed_row_def)
next
  case (process w row inp)
  then show ?case by (rule process_ok)
next
  case (save w r update)
  then show ?case by (cases r) (simp_all add: queue_ok_def)
qed (simp add: queue_ok_def)

lemma reachable_ok:
  assumes "(delivery_step env)\<^sup>*\<^sup>* (w0, None) s" and "dwOutbox w0 = []"
  shows "queue_ok s"
  using assms(1)
proof (induction rule: rtranclp_induct)
  case base
  then show ?case by (simp add: queue_ok_def assms(2))
qed (rule step_ok)

text \<open>C15: In every interleaving of admissions, saved settings, the steps of the worker and crashes, starting from an empty
  queue: the identifiers in the queue are unique; no row has more than three attempts, and a row that is not finished has
  at most two; and the row that the worker is processing is still claimed, with the attempts the worker counts from, so
  that recording its outcome does not lose the claim.\<close>

theorem queue_stays_consistent:
  assumes "(delivery_step env)\<^sup>*\<^sup>* (w0, None) (w, r)" and "dwOutbox w0 = []"
  shows "distinct (map oeID (dwOutbox w)) \<and> (\<forall>e\<in>set (dwOutbox w). entry_ok e)
     \<and> (\<forall>row. r = Some row \<longrightarrow> (\<exists>e. row_of (dwOutbox w) (orID row) = Some e \<and> oeState e = outboxStateClaimed
          \<and> orAttempts (oeRow e) = orAttempts row) \<and> (\<forall>outcome now. fst (completeOutboxRow (orID row) outcome now (dwOutbox w)) = Inr ()))"
proof -
  have ok: "queue_ok (w, r)" by (rule reachable_ok [OF assms])
  have "fst (completeOutboxRow (orID row) outcome now (dwOutbox w)) = Inr ()"
    if e: "row_of (dwOutbox w) (orID row) = Some e" "oeState e = outboxStateClaimed" for row e outcome now
  proof -
    have d: "distinct (map oeID (dwOutbox w))" using ok by (simp add: queue_ok_def)
    have "affected (\<lambda>x. oeID x = orID row \<and> oeState x = outboxStateClaimed) (dwOutbox w) = 1"
      by (rule affected_id [OF d, of e]) (use row_of_Some [OF e(1)] e(2) in auto)
    then show ?thesis by (simp add: completeOutboxRow_def Let_def)
  qed
  with ok show ?thesis by (auto simp: queue_ok_def)
qed

text \<open>C16: A finished notification is never sent again. In every reachable state, a step leaves the rows that are
  delivered, failed or skipped exactly as they are, except that pruning may delete them; and a step that sends a request
  sends it for a row that is claimed.\<close>

theorem finished_notifications_stay_finished:
  assumes "(delivery_step env)\<^sup>*\<^sup>* (w0, None) (w, r)" and "dwOutbox w0 = []" and "delivery_step env (w, r) (w', r')"
  shows "(\<forall>i e. row_of (dwOutbox w) i = Some e \<and> terminal_state (oeState e)
        \<longrightarrow> row_of (dwOutbox w') i = Some e \<or> row_of (dwOutbox w') i = None)
     \<and> (dwSent w' = dwSent w \<or> (\<exists>i endpoint e. dwSent w' = dwSent w @ [(i, endpoint)] \<and> row_of (dwOutbox w) i = Some e \<and> oeState e = outboxStateClaimed))"
proof -
  have ok: "queue_ok (w, r)" by (rule reachable_ok [OF assms(1,2)])
  then have d: "distinct (map oeID (dwOutbox w))" by (simp add: queue_ok_def)
  show ?thesis using assms(3)
  proof (cases rule: delivery_step.cases)
    case (accept newID now attempt intent)
    then show ?thesis using grown_facts(2) [OF accept_outbox(1)] accept_outbox(2) by auto
  next
    case (recover now)
    then show ?thesis by (auto simp: recoverExpiredOutboxClaims_def row_of_update_where terminal_state_def)
  next
    case (prune now)
    obtain q where "snd (pruneOutbox (deFmt env) now (deRetention env) (dwOutbox w)) = filter q (dwOutbox w)" using prune_outbox by blast
    with prune d show ?thesis by (auto simp: row_of_filter)
  next
    case (reconcile source settings now res c t)
    then show ?thesis using grown_facts(2) [OF reconcile_outbox [OF reconcile(4)]] by auto
  next
    case (claim now row t)
    from claim_cases [OF d claim(4)] obtain e where "e \<in> set (dwOutbox w)" "due (deFmt env now) e"
      "t = update_where (\<lambda>x. oeID x = oeID e \<and> waiting_state (oeState x))
       (\<lambda>x. x\<lparr>oeRow := claimed_row (deFmt env now) (oeRow x), oeUpdatedAt := deFmt env now\<rparr>) (dwOutbox w)" by auto
    with claim show ?thesis by (auto simp: row_of_update_where terminal_state_def waiting_state_def)
  next
    case (process row inp)
    then have "\<exists>e. row_of (dwOutbox w) (orID row) = Some e \<and> oeState e = outboxStateClaimed" using ok by (auto simp: queue_ok_def)
    with process ok process_ok(2) [of w row] process_sent [of env inp row w] show ?thesis by metis
  qed auto
qed

subsection \<open>Witnesses\<close>

definition sample_delivery_env :: delivery_env where
  "sample_delivery_env = \<lparr>deSettings = sample_env, dePayload = sample_hash_env, deWaitURL = (\<lambda>s. s), deFmt = (\<lambda>t. if t < 0 then [] else ''t''),
     deFmtSeconds = (\<lambda>_. ''t''), deParse = (\<lambda>_. None), deSource = None, deRefID = (\<lambda>_. []), deRef = (\<lambda>_. None),
     deUpgradeCompleted = (\<lambda>_. Some True), deBackoff = (\<lambda>_. 1), dePollInterval = 1, deClaimTTL = 1, deRetention = 1\<rparr>"

definition sample_idle :: delivery_world where
  "sample_idle = \<lparr>dwSettings = Some ''row'', dwConditions = None, dwOutbox = [], dwClosing = False, dwMonitoring = False,
     dwInitFailed = False, dwWake = False, dwSent = []\<rparr>"

definition sample_admitted :: delivery_world where
  "sample_admitted = snd (Accept sample_delivery_env ''n'' 1 (\<lambda>_. None) sample_intent sample_idle)"

definition sample_answers :: "nat \<Rightarrow> attempt_input" where
  "sample_answers _ = \<lparr>atNow = 2, atDone = 3, atAnswer = HTTPStatus 204, atPersistFails = False\<rparr>"

lemma sample_admitted_facts: "distinct (map oeID (dwOutbox sample_admitted)) \<and> length (dwOutbox sample_admitted) = 1"
  by code_simp

lemma sample_iter:
  "drain_iter sample_delivery_env sample_answers n sample_admitted = Some (r, v) \<Longrightarrow> length (dwOutbox v) = 1 \<and> r = 0"
proof -
  let ?iter = "\<lambda>n. drain_iter sample_delivery_env sample_answers n sample_admitted"
  have zero: "length (dwOutbox sample_admitted) = 1" using sample_admitted_facts by blast
  have run: "(case ?iter 1 of None \<Rightarrow> False | Some (r, v) \<Rightarrow> r = 0 \<and> length (dwOutbox v) = 1) \<and> ?iter (Suc (Suc 0)) = None" by code_simp
  then have one: "case ?iter 1 of None \<Rightarrow> False | Some (r, v) \<Rightarrow> r = 0 \<and> length (dwOutbox v) = 1" by blast
  have two: "?iter (Suc (Suc n)) = None" for n
  proof (induction n)
    case 0
    show ?case using run by blast
  next
    case (Suc n)
    then show ?case by (simp only: drain_iter.simps(2) [of _ _ "Suc (Suc n)"] option.case)
  qed
  show "?iter n = Some (r, v) \<Longrightarrow> ?thesis"
  proof (cases n)
    case (Suc m)
    then show "?iter n = Some (r, v) \<Longrightarrow> ?thesis" using one two by (cases m) auto
  qed (use zero in auto)
qed


lemma sample_reachable: "(delivery_step sample_delivery_env)\<^sup>*\<^sup>* (sample_idle, None) (sample_admitted, None)"
  unfolding sample_admitted_def by (rule r_into_rtranclp) (rule delivery_step.accept)

lemma sample_idle_empty: "dwOutbox sample_idle = []"
  by (simp add: sample_idle_def)

theorem queue_stays_consistent_witness:
  "distinct (map oeID (dwOutbox sample_admitted)) \<and> length (dwOutbox sample_admitted) = 1"
proof -
  have "length (dwOutbox sample_admitted) = 1" using sample_admitted_facts by blast
  with queue_stays_consistent [OF sample_reachable sample_idle_empty] show ?thesis by blast
qed

text \<open>The notification is claimed and delivered, and then admitted once more.\<close>

definition sample_claim :: "(string, outbox_row option) result \<times> outbox" where
  "sample_claim = claimNextOutboxRow (deFmt sample_delivery_env) 2 (dwOutbox sample_admitted)"

definition sample_claimed_row :: outbox_row where
  "sample_claimed_row = (case fst sample_claim of Inr (Some row) \<Rightarrow> row | _ \<Rightarrow> sample_row [])"

definition sample_finished :: delivery_world where
  "sample_finished = processOutboxRow sample_delivery_env (sample_answers 0) sample_claimed_row (sample_admitted\<lparr>dwOutbox := snd sample_claim\<rparr>)"

lemma sample_finished_reachable: "(delivery_step sample_delivery_env)\<^sup>*\<^sup>* (sample_idle, None) (sample_finished, None)"
proof -
  have "claimNextOutboxRow (deFmt sample_delivery_env) 2 (dwOutbox sample_admitted) = (Inr (Some sample_claimed_row), snd sample_claim)"
    by code_simp
  then have "delivery_step sample_delivery_env (sample_admitted, None) (sample_admitted\<lparr>dwOutbox := snd sample_claim\<rparr>, Some sample_claimed_row)"
    by (rule delivery_step.claim)
  moreover have "delivery_step sample_delivery_env (sample_admitted\<lparr>dwOutbox := snd sample_claim\<rparr>, Some sample_claimed_row) (sample_finished, None)"
    unfolding sample_finished_def by (rule delivery_step.process)
  ultimately show ?thesis using sample_reachable by (meson rtranclp.rtrancl_into_rtrancl)
qed

theorem finished_notifications_stay_finished_witness:
  "length (dwSent sample_finished) = 1 \<and>
   (\<exists>i e. row_of (dwOutbox sample_finished) i = Some e \<and> oeState e = outboxStateSucceeded
     \<and> (let w = snd (Accept sample_delivery_env ''m'' 4 (\<lambda>_. None) sample_intent sample_finished) in
        row_of (dwOutbox w) i = Some e \<or> row_of (dwOutbox w) i = None))"
proof -
  have "length (dwSent sample_finished) = 1 \<and> distinct (map oeID (dwOutbox sample_finished))
      \<and> list_ex (\<lambda>e. oeState e = outboxStateSucceeded) (dwOutbox sample_finished)" by code_simp
  then have sent: "length (dwSent sample_finished) = 1" and d: "distinct (map oeID (dwOutbox sample_finished))"
    and "list_ex (\<lambda>e. oeState e = outboxStateSucceeded) (dwOutbox sample_finished)" by blast+
  then obtain x where x: "x \<in> set (dwOutbox sample_finished)" "oeState x = outboxStateSucceeded" by (auto simp: list_ex_iff)
  note row = row_of_unique [OF d x(1)]
  have fin: "terminal_state (oeState x)" by (simp add: x(2) terminal_state_def)
  have step: "delivery_step sample_delivery_env (sample_finished, None)
      (snd (Accept sample_delivery_env ''m'' 4 (\<lambda>_. None) sample_intent sample_finished), None)"
    by (rule delivery_step.accept)
  from finished_notifications_stay_finished [OF sample_finished_reachable sample_idle_empty step] row fin x(2) sent
  show ?thesis unfolding Let_def by blast
qed

end
