(* ===== verification/Discovery.thy ===== *)
theory Discovery
  imports Actions "HOL-Library.Product_Lexorder"
begin

section \<open>Discovery: reading the output of APT\<close>

text \<open>
  The model of \<open>internal/updates/package_discovery.go\<close> and of the parsers and the retry loop of
  \<open>internal/updates/helpers.go\<close>. The command runner is an argument: it maps a command to standard output, standard
  error and the error. The digest \<open>sha\<close> stands for the hexadecimal SHA-256. Delays are computed with floating point
  numbers in the source; here they are an argument of the retry loop. \<open>sort.Slice\<close> leaves the order of elements
  with equal keys open; here it is the order of the input.
\<close>

subsection \<open>Errors and retries\<close>

text \<open>What the code asks of an error: its text, whether it is a cancellation or an expired deadline, the answer of
  the first error in its chain with a method \<open>Retryable\<close>, and whether it is a network timeout.\<close>

record run_error =
  reText :: string
  reStopped :: bool
  reTagged :: "bool option"
  reNetTimeout :: bool

definition UpdateCompletionOutcome :: "string \<Rightarrow> string" where
  "UpdateCompletionOutcome finalStatus =
     (if finalStatus = ''done'' then ''success'' else if finalStatus = ''idle'' then ''ignored'' else ''failure'')"

definition DoneOnlyOutcome :: "string \<Rightarrow> string" where
  "DoneOnlyOutcome finalStatus = (if finalStatus = ''done'' then ''success'' else ''failure'')"

definition nonRetryableHints :: "string list" where
  "nonRetryableHints = [''unable to authenticate'', ''permission denied'', ''no auth'', ''authentication'', ''host key'', ''knownhosts'',
     ''missing password or ssh key'', ''fingerprint mismatch'', ''invalid credentials'', ''invalid key'', ''invalid private key'']"

definition retryableHints :: "string list" where
  "retryableHints = [''i/o timeout'', ''timeout'', ''timed out'', ''connection reset'', ''connection refused'', ''broken pipe'', ''eof'',
     ''temporarily unavailable'', ''resource temporarily unavailable'', ''could not get lock'', ''dpkg frontend lock'',
     ''network is unreachable'', ''no route to host'', ''connection closed'']"

definition IsRetryableMessage :: "string \<Rightarrow> bool" where
  "IsRetryableMessage msg =
     (let normalized = to_lower (trim_space msg) in
      if normalized = [] then False
      else if list_ex (contains normalized) nonRetryableHints then False
      else list_ex (contains normalized) retryableHints)"

definition IsRetryableError :: "run_error option \<Rightarrow> bool" where
  "IsRetryableError err =
     (case err of None \<Rightarrow> False
      | Some e \<Rightarrow>
          if reStopped e then False
          else case reTagged e of Some b \<Rightarrow> b
          | None \<Rightarrow> if reNetTimeout e then True else IsRetryableMessage (reText e))"

definition IsSudoPolicyError :: "string \<Rightarrow> bool" where
  "IsSudoPolicyError message =
     (let normalized = to_lower (trim_space message) in
      contains normalized ''a password is required'' \<or> contains normalized ''not allowed to run sudo''
      \<or> contains normalized ''not allowed to execute'' \<or> contains normalized ''is not in the sudoers file''
      \<or> contains normalized ''refused: unknown operation'')"

definition MarkRetryableFromOutput :: "run_error option \<Rightarrow> string \<Rightarrow> run_error option" where
  "MarkRetryableFromOutput err output =
     (case err of None \<Rightarrow> None
      | Some e \<Rightarrow>
          if reTagged e = Some False then err
          else if IsRetryableMessage output then Some (e\<lparr>reTagged := Some True\<rparr>)
          else err)"

text \<open>The loop of \<open>RunWithRetryWithSleep\<close>: \<open>left\<close> counts the attempts after this one. The result is the last error, the
  state after the last call, and the calls of \<open>onRetry\<close>, each followed by the sleep of its delay.\<close>

fun retry_loop :: "(int \<Rightarrow> int) \<Rightarrow> ('s \<Rightarrow> run_error option \<times> 's) \<Rightarrow> nat \<Rightarrow> int \<Rightarrow> 's
    \<Rightarrow> run_error option \<times> 's \<times> (int \<times> int \<times> run_error) list" where
  "retry_loop delay fn left attempt s =
     (case fn s of
        (None, s') \<Rightarrow> (None, s', [])
      | (Some e, s') \<Rightarrow>
          if \<not> IsRetryableError (Some e) then (Some e, s', [])
          else case left of 0 \<Rightarrow> (Some e, s', [])
          | Suc rest \<Rightarrow>
              (case retry_loop delay fn rest (attempt + 1) s' of
                 (res, s'', log) \<Rightarrow> (res, s'', (attempt, delay attempt, e) # log)))"

declare retry_loop.simps [simp del]

definition RunWithRetryWithSleep :: "int \<Rightarrow> (int \<Rightarrow> int) \<Rightarrow> ('s \<Rightarrow> run_error option \<times> 's) \<Rightarrow> 's
    \<Rightarrow> run_error option \<times> 's \<times> (int \<times> int \<times> run_error) list" where
  "RunWithRetryWithSleep maxAttempts delay fn s =
     (let attempts = (if maxAttempts < 1 then 1 else maxAttempts) in retry_loop delay fn (nat attempts - 1) 1 s)"

subsection \<open>Units\<close>

fun units_loop :: "string list \<Rightarrow> string list \<Rightarrow> string list" where
  "units_loop [] units = units"
| "units_loop (line # lines) units =
     (let trimmed = trim_space line in
      if trimmed = [] then units_loop lines units
      else case go_fields trimmed of
        [] \<Rightarrow> units_loop lines units
      | field # _ \<Rightarrow>
          let unit = trim_space field in
          if unit = [] \<or> unit \<in> set units then units_loop lines units
          else units_loop lines (units @ [unit]))"

definition ParseFailedSystemdUnits :: "string \<Rightarrow> string list" where
  "ParseFailedSystemdUnits output = units_loop (split_char (CHR 0x0A) output) []"

definition SummarizeUnitNames :: "string list \<Rightarrow> int \<Rightarrow> string" where
  "SummarizeUnitNames units maxShown =
     (if units = [] then []
      else if maxShown \<le> 0 \<or> maxShown \<ge> int (length units) then join '', '' units
      else join '', '' (take (nat maxShown) units) @ '' (+'' @ itoa (int (length units) - maxShown) @ '' more)'')"

subsection \<open>One update\<close>

definition empty_update :: pending_update where
  "empty_update = \<lparr>uDeferred = False, uPackage = [], uInstallPackage = [], uCurrentVersion = [], uCandidateVersion = [], uSource = [],
     uSourcePackage = [], uInstalledSourceVersion = [], uCandidateSourceVersion = [], uSecurity = False, uKeptBack = False,
     uRequiresFull = False, uCVEs = [], uCVEState = [], uCVECoverage = [], uCVESource = [], uCVEScannedAt = [], uRaw = []\<rparr>"

text \<open>A match of \<open>securitySuiteTokenRegex\<close>: a token that ends in \<open>-security\<close>, between separators or the ends of the text.\<close>

definition suite_char :: "char \<Rightarrow> bool" where
  "suite_char c \<longleftrightarrow> is_lower c \<or> is_digit c \<or> c \<in> set ''+.-''"

definition re_space :: "char \<Rightarrow> bool" where
  "re_space c \<longleftrightarrow> c \<in> {CHR 0x20, CHR 0x09, CHR 0x0A, CHR 0x0C, CHR 0x0D}"

definition suite_token_at :: "string \<Rightarrow> bool" where
  "suite_token_at s \<longleftrightarrow> s \<noteq> [] \<and> (is_lower (hd s) \<or> is_digit (hd s)) \<and>
     list_ex (\<lambda>n. list_all suite_char (take n (tl s)) \<and> prefix ''-security'' (drop n (tl s))
        \<and> (let rest = drop (n + 9) (tl s) in rest = [] \<or> re_space (hd rest) \<or> hd rest \<in> set ''/],:)'')) [0..<length s]"

definition securitySuiteTokenRegex :: "string \<Rightarrow> bool" where
  "securitySuiteTokenRegex s \<longleftrightarrow> suite_token_at s
     \<or> list_ex (\<lambda>t. t \<noteq> [] \<and> (re_space (hd t) \<or> hd t \<in> set ''/,:'') \<and> suite_token_at (tl t)) (suffixes s)"

definition securityMarkers :: "string list" where
  "securityMarkers = [''security.debian.org'', ''debian-security'', ''/security'', ''esm-apps'', ''esm-infra'', ''ubuntu-security'']"

definition IsSecurityUpdate :: "string \<Rightarrow> string \<Rightarrow> bool" where
  "IsSecurityUpdate raw source =
     (let combined = to_lower (trim_space (raw @ '' '' @ source)) in
      if combined = [] then False
      else if list_ex (contains combined) securityMarkers then True
      else let sourceOnly = to_lower (trim_space source) in
        securitySuiteTokenRegex (if sourceOnly = [] then combined else sourceOnly))"

text \<open>The text between the first opening and the last closing parenthesis.\<close>

definition inside_parens :: "string \<Rightarrow> string option" where
  "inside_parens entry =
     (if CHR ''('' \<in> set entry \<and> CHR '')'' \<in> set entry then
        (let openParen = length (takeWhile (\<lambda>c. c \<noteq> CHR ''('') entry);
             closeParen = length entry - 1 - length (takeWhile (\<lambda>c. c \<noteq> CHR '')'') (rev entry)) in
         if closeParen > openParen + 1 then Some (take (closeParen - (openParen + 1)) (drop (openParen + 1) entry)) else None)
      else None)"

definition trim_brackets :: "string \<Rightarrow> string" where
  "trim_brackets s = rev (dropWhile (\<lambda>c. c \<in> set ''[]'') (rev (dropWhile (\<lambda>c. c \<in> set ''[]'') s)))"

definition ParsePendingUpdateEntry :: "string \<Rightarrow> pending_update" where
  "ParsePendingUpdateEntry entry =
     (let parsed = empty_update\<lparr>uRaw := entry\<rparr> in
      case go_fields entry of
        [] \<Rightarrow> parsed
      | name # rest \<Rightarrow>
          let p1 = parsed\<lparr>uPackage := name\<rparr>;
              p2 = (case rest of [] \<Rightarrow> p1
                    | version # _ \<Rightarrow> if prefix ''['' version \<and> suffix '']'' version then p1\<lparr>uCurrentVersion := trim_brackets version\<rparr> else p1);
              p3 = (case inside_parens entry of None \<Rightarrow> p2
                    | Some inside \<Rightarrow>
                        (case go_fields (trim_space inside) of
                           [] \<Rightarrow> p2
                         | [candidate] \<Rightarrow> p2\<lparr>uCandidateVersion := candidate\<rparr>
                         | candidate # source \<Rightarrow> p2\<lparr>uCandidateVersion := candidate, uSource := join '' '' source\<rparr>)) in
          p3\<lparr>uSecurity := IsSecurityUpdate (uRaw p3) (uSource p3)\<rparr>)"

definition normalizePackageName :: "string \<Rightarrow> string" where
  "normalizePackageName pkg =
     (let trimmed = trim_space pkg; (base, _, colon) = cut_at trimmed (CHR '':'') in
      if trimmed = [] then [] else if colon \<and> base \<noteq> [] then trim_space base else trimmed)"

text \<open>The rest after the first occurrence of a pattern.\<close>

fun after_first :: "string \<Rightarrow> string \<Rightarrow> string option" where
  "after_first p [] = (if p = [] then Some [] else None)"
| "after_first p (c # s) = (if prefix p (c # s) then Some (drop (length p) (c # s)) else after_first p s)"

definition upgradable_from :: "string \<Rightarrow> string" where
  "upgradable_from trimmed =
     (case after_first ''[upgradable from:'' trimmed of None \<Rightarrow> []
      | Some rest \<Rightarrow> let (version, _, close) = cut_at rest (CHR '']'') in if close then trim_space version else [])"

definition ParseAptListMetadataEntry :: "string \<Rightarrow> pending_update option" where
  "ParseAptListMetadataEntry line =
     (let trimmed = trim_space line in
      if trimmed = [] \<or> equal_fold_ascii trimmed ''listing...'' then None
      else let fields = go_fields trimmed in
        if length fields < 3 then None
        else let (name, source, slash) = cut_at (fields ! 0) (CHR ''/'') in
          if \<not> slash \<or> name = [] then None
          else let pkg = normalizePackageName (trim_space name) in
            if pkg = [] then None
            else let update = empty_update\<lparr>uPackage := pkg, uCurrentVersion := upgradable_from trimmed, uCandidateVersion := fields ! 1,
                       uSource := trim_space source, uRaw := trimmed\<rparr>
              in Some (update\<lparr>uSecurity := IsSecurityUpdate (uRaw update) (uSource update)\<rparr>))"

subsection \<open>Lists of updates\<close>

fun summary_loop :: "string \<Rightarrow> string list \<Rightarrow> bool \<Rightarrow> string list \<Rightarrow> string list" where
  "summary_loop header [] inBlock packages = packages"
| "summary_loop header (line # lines) inBlock packages =
     (let trimmed = trim_space line; lower = to_lower trimmed in
      if lower = header then summary_loop header lines True packages
      else if \<not> inBlock then summary_loop header lines inBlock packages
      else if trimmed = [] then (if packages \<noteq> [] then packages else summary_loop header lines inBlock packages)
      else if packages \<noteq> [] \<and> \<not> prefix '' '' line \<and> \<not> prefix [CHR 0x09] line then packages
      else if prefix ''the following '' lower \<or> contains lower '' upgraded,'' \<or> prefix ''need to get '' lower
        \<or> prefix ''after this operation'' lower then packages
      else summary_loop header lines inBlock (packages @ go_fields trimmed))"

definition parseAptSummaryPackages :: "string \<Rightarrow> string \<Rightarrow> string list" where
  "parseAptSummaryPackages stdout header = summary_loop header (split_char (CHR 0x0A) stdout) False []"

definition parseAptUpgradeSummaryPackages :: "string list \<Rightarrow> string list" where
  "parseAptUpgradeSummaryPackages lines = parseAptSummaryPackages (join [CHR 0x0A] lines) ''the following packages will be upgraded:''"

text \<open>The entry of a line that announces an installation.\<close>

definition inst_entry :: "string \<Rightarrow> string option" where
  "inst_entry line =
     (let trimmed = trim_space line in
      if \<not> prefix ''Inst '' trimmed then None
      else let entry = trim_space (trim_prefix ''Inst '' trimmed) in if entry = [] then None else Some entry)"

definition ParseUpgradableEntries :: "string \<Rightarrow> pending_update list \<times> string list" where
  "ParseUpgradableEntries stdout =
     (let lines = split_char (CHR 0x0A) stdout;
          upgradable = List.map_filter inst_entry lines;
          entries = (if upgradable \<noteq> [] then upgradable else parseAptUpgradeSummaryPackages lines) in
      (map ParsePendingUpdateEntry entries, entries))"

definition NeedsAptListMetadata :: "pending_update list \<Rightarrow> bool" where
  "NeedsAptListMetadata pendingUpdates =
     (pendingUpdates \<noteq> [] \<and>
      \<not> list_ex (\<lambda>u. trim_space (uSource u) \<noteq> [] \<or> trim_space (uCandidateVersion u) \<noteq> [] \<or> trim_space (uCurrentVersion u) \<noteq> []) pendingUpdates)"

fun selectors_loop :: "string list \<Rightarrow> package_selector list \<Rightarrow> package_selector list" where
  "selectors_loop [] sels = sels"
| "selectors_loop (entry # entries) sels =
     (let sel = packageSelectorFromPackage entry in
      if psBase sel = [] \<or> psSelector sel \<in> psSelector ` set sels then selectors_loop entries sels
      else selectors_loop entries (sels @ [sel]))"

definition packageSelectorsFromEntries :: "string list \<Rightarrow> package_selector list" where
  "packageSelectorsFromEntries entries = selectors_loop entries []"

text \<open>One line of the list: the maps \<open>parsedBySelector\<close> and \<open>rawBySelector\<close> and the slice \<open>fallbackOrder\<close> have the same
  keys, so they are one association list in the order of insertion; the raw text is the field \<open>Raw\<close> of the update.\<close>

definition metadata_line :: "package_selector list \<Rightarrow> string \<Rightarrow> (string \<times> pending_update) list \<Rightarrow> (string \<times> pending_update) list" where
  "metadata_line requested line found =
     (case ParseAptListMetadataEntry line of
        None \<Rightarrow> found
      | Some u \<Rightarrow>
          let sel = aptListMetadataSelector u;
              insert = (\<lambda>key v. if key \<in> fst ` set found then found else found @ [(key, v)]) in
          if psBase sel = [] then found
          else if requested = [] then insert (psSelector sel) u
          else if list_ex (\<lambda>r. psArch r \<noteq> [] \<and> psSelector r = psSelector sel) requested
            then insert (psSelector sel) (u\<lparr>uPackage := psSelector sel\<rparr>)
          else if list_ex (\<lambda>r. psArch r = [] \<and> psBase r = psBase sel) requested then insert (psBase sel) u
          else found)"

definition ParseAptListMetadataEntries :: "string \<Rightarrow> string list \<Rightarrow> pending_update list \<times> string list" where
  "ParseAptListMetadataEntries stdout packageNames =
     (let requested = packageSelectorsFromEntries packageNames;
          found = fold (metadata_line requested) (split_char (CHR 0x0A) stdout) [];
          order = (if requested = [] then map fst found else map psSelector requested);
          pending = List.map_filter (map_of found) order in
      (pending, map uRaw pending))"

definition metadata_for :: "pending_update list \<Rightarrow> package_selector \<Rightarrow> pending_update option" where
  "metadata_for metadataPending sel =
     (let named = filter (\<lambda>m. psBase (packageSelectorFromPackage (uPackage m)) \<noteq> []) metadataPending in
      case find (\<lambda>m. psSelector (packageSelectorFromPackage (uPackage m)) = psSelector sel) (rev named) of
        Some m \<Rightarrow> Some m
      | None \<Rightarrow> if psArch sel = [] then find (\<lambda>m. psBase (packageSelectorFromPackage (uPackage m)) = psBase sel) named else None)"

definition merged_update :: "pending_update list \<Rightarrow> pending_update \<Rightarrow> pending_update" where
  "merged_update metadataPending u =
     (let sel = packageSelectorFromPackage (uPackage u) in
      case metadata_for metadataPending sel of
        Some m \<Rightarrow> m\<lparr>uPackage := uPackage u\<rparr>
      | None \<Rightarrow> if trim_space (uRaw u) = [] then u\<lparr>uRaw := psSelector sel\<rparr> else u)"

definition MergePendingUpdatesWithMetadata :: "pending_update list \<Rightarrow> pending_update list \<Rightarrow> pending_update list \<times> string list" where
  "MergePendingUpdatesWithMetadata summaryPending metadataPending =
     (let merged = map (merged_update metadataPending) summaryPending in (merged, map uRaw merged))"

subsection \<open>Plans\<close>

definition digested_packages :: "string list \<Rightarrow> simulated_package list" where
  "digested_packages lines =
     map (\<lambda>line. let p = ParsePendingUpdateEntry (trim_prefix ''Inst '' line) in
          \<lparr>smArchitecture = (case deferralInstallLine line of None \<Rightarrow> [] | Some (_, _, _, arch) \<Rightarrow> arch),
           smPackage = uPackage p, smCurrentVersion = uCurrentVersion p, smCandidateVersion = uCandidateVersion p\<rparr>)
       (filter (prefix ''Inst '') lines)"

definition simulation_facts :: "string \<Rightarrow> string list" where
  "simulation_facts output =
     map (\<lambda>line. join '' '' (go_fields line))
       (filter (\<lambda>line. prefix ''Inst '' line \<or> prefix ''Remv '' line) (map trim_space (split_char (CHR 0x0A) output)))"

definition packageSimulationIdentity :: "(string \<Rightarrow> string) \<Rightarrow> string \<Rightarrow> string \<times> simulated_package list" where
  "packageSimulationIdentity sha output =
     (let facts = sort (simulation_facts output);
          packages = sort_key smPackage (digested_packages (map trim_space (split_char (CHR 0x0A) output))) in
      if facts = [] then ([], packages) else (sha (join [CHR 0x0A] facts), packages))"

definition counted_update :: "pending_update \<Rightarrow> upgrade_plan \<Rightarrow> upgrade_plan" where
  "counted_update u plan =
     (let p1 = (if uRequiresFull u \<or> uKeptBack u then plan\<lparr>KeptBackPackageCount := KeptBackPackageCount plan + 1\<rparr>
                else let p0 = plan\<lparr>StandardPackageCount := StandardPackageCount plan + 1\<rparr> in
                  if uSecurity u then p0\<lparr>StandardSecurityCount := StandardSecurityCount p0 + 1\<rparr> else p0) in
      if uSecurity u then p1\<lparr>TotalSecurityCount := TotalSecurityCount p1 + 1\<rparr> else p1)"

definition BuildUpgradePlan :: "(string \<Rightarrow> string) \<Rightarrow> pending_update list \<Rightarrow> string \<Rightarrow> bool \<Rightarrow> upgrade_plan" where
  "BuildUpgradePlan sha pending stdout available =
     (let p0 = empty_plan\<lparr>FullUpgradePlanAvailable := available,
            FullUpgradeNewPackages := parseAptSummaryPackages stdout ''the following new packages will be installed:'',
            FullUpgradeRemovedPackages := parseAptSummaryPackages stdout ''the following packages will be removed:''\<rparr>;
          p1 = (if available then (case packageSimulationIdentity sha stdout of (digest, packages) \<Rightarrow>
                  p0\<lparr>FullUpgradeSimulationDigest := digest, FullUpgradeSimulationPackages := packages\<rparr>) else p0);
          p2 = (case parseAptDiskFacts stdout of
                  Some facts \<Rightarrow> if available then p1\<lparr>FullUpgradeDiskFactsAvailable := True, FullUpgradeArchiveBytes := fArchiveBytes facts,
                                   FullUpgradeInstalledDeltaBytes := fInstalledDeltaBytes facts\<rparr> else p1
                | None \<Rightarrow> p1);
          p3 = p2\<lparr>KeptBackSecurityPackageCount := int (length (KeptBackSecurityPackagesFromPendingUpdates pending))\<rparr>;
          count = int (length (parseAptUpgradeSummaryPackages (split_char (CHR 0x0A) stdout)));
          p4 = p3\<lparr>FullUpgradePackageCount := (if count = 0 then int (length pending) else count)\<rparr> in
      applyPlanDiskEstimate (fold counted_update pending p4))"

definition ApplyKeptBackSecuritySimulation :: "(string \<Rightarrow> string) \<Rightarrow> upgrade_plan \<Rightarrow> string \<Rightarrow> upgrade_plan" where
  "ApplyKeptBackSecuritySimulation sha plan stdout =
     (case packageSimulationIdentity sha stdout of (digest, packages) \<Rightarrow>
        let p1 = plan\<lparr>KeptBackSecurityPlanAvailable := True, KeptBackSecuritySimulationDigest := digest,
              KeptBackSecuritySimulationPackages := packages,
              KeptBackSecurityNewPackages := parseAptSummaryPackages stdout ''the following new packages will be installed:'',
              KeptBackSecurityRemovedPackages := parseAptSummaryPackages stdout ''the following packages will be removed:''\<rparr>;
            p2 = (case parseAptDiskFacts stdout of
                    Some facts \<Rightarrow> p1\<lparr>KeptBackDiskFactsAvailable := True, KeptBackArchiveBytes := fArchiveBytes facts,
                                   KeptBackInstalledDeltaBytes := fInstalledDeltaBytes facts\<rparr>
                  | None \<Rightarrow> p1) in
        applyPlanDiskEstimate p2)"

subsection \<open>Merging the standard simulation with the list of all updates\<close>

text \<open>The maps \<open>bySelector\<close> and \<open>byBase\<close> give the first record of a selector or a base name.\<close>

record available_record =
  arUpdate :: pending_update
  arRaw :: string
  arSelector :: package_selector

definition available_records :: "pending_update list \<Rightarrow> string list \<Rightarrow> available_record list" where
  "available_records pending upgradable =
     List.map_filter (\<lambda>(i, u).
       let sel = aptListMetadataSelector u in
       if psSelector sel = [] then None
       else Some \<lparr>arUpdate = u,
          arRaw = (if i < length upgradable \<and> trim_space (upgradable ! i) \<noteq> [] then upgradable ! i else uRaw u), arSelector = sel\<rparr>)
       (enumerate 0 pending)"

type_synonym merge_state = "string list \<times> pending_update list \<times> string list"

definition append_update :: "pending_update \<Rightarrow> string \<Rightarrow> package_selector \<Rightarrow> bool \<Rightarrow> merge_state \<Rightarrow> merge_state" where
  "append_update u raw sel requiresFull = (\<lambda>(seen, pending, upgradable).
     let u1 = u\<lparr>uKeptBack := requiresFull, uRequiresFull := requiresFull\<rparr>;
         u2 = (if requiresFull \<and> psArch sel \<noteq> [] \<and> psArch sel \<noteq> ''all'' then u1\<lparr>uInstallPackage := psSelector sel\<rparr> else u1);
         text_of = (if trim_space raw \<noteq> [] then raw else if trim_space (uRaw u2) \<noteq> [] then uRaw u2 else uPackage u2) in
     (seen @ (if psSelector sel \<noteq> [] then [psSelector sel] else []) @ (if psArch sel = [] \<and> psBase sel \<noteq> [] then [psBase sel] else []),
      pending @ [u2], upgradable @ [text_of]))"

definition mark_seen :: "string \<Rightarrow> merge_state \<Rightarrow> merge_state" where
  "mark_seen s = (\<lambda>(seen, rest). (if s \<noteq> [] then seen @ [s] else seen, rest))"

definition merge_standard :: "available_record list \<Rightarrow> string list \<Rightarrow> nat \<times> pending_update \<Rightarrow> merge_state \<Rightarrow> merge_state" where
  "merge_standard records upgradable = (\<lambda>(i, u) st.
     let sel = packageSelectorFromPackage (uPackage u);
         raw = (if i < length upgradable then upgradable ! i else []) in
     if psSelector sel = [] then st
     else case find (\<lambda>r. psSelector (arSelector r) = psSelector sel) records of
       Some r \<Rightarrow>
         let st' = append_update ((arUpdate r)\<lparr>uPackage := (if psArch sel \<noteq> [] then psSelector sel else psBase sel)\<rparr>) (arRaw r) (arSelector r) False st in
         if psArch sel = [] then mark_seen (psSelector (arSelector r)) st' else st'
     | None \<Rightarrow>
         (case (if psArch sel = [] then find (\<lambda>r. psBase (arSelector r) = psBase sel) records else None) of
            Some r \<Rightarrow>
              mark_seen (psSelector (arSelector r))
                (append_update ((arUpdate r)\<lparr>uPackage := psBase sel\<rparr>) (arRaw r) \<lparr>psSelector = psBase sel, psBase = psBase sel, psArch = []\<rparr> False st)
          | None \<Rightarrow> append_update u raw sel False st))"

definition merge_available :: "available_record \<Rightarrow> merge_state \<Rightarrow> merge_state" where
  "merge_available r st =
     (let sel = arSelector r in
      if psSelector sel \<in> set (fst st) then st
      else if psBase sel \<in> set (fst st) \<and> psArch sel \<noteq> [] then st
      else append_update (if psArch sel \<noteq> [] then (arUpdate r)\<lparr>uPackage := psBase sel\<rparr> else arUpdate r) (arRaw r) sel True st)"

definition MergeAvailableUpdatesWithStandard :: "(string \<Rightarrow> string) \<Rightarrow> pending_update list \<Rightarrow> string list \<Rightarrow> pending_update list \<Rightarrow> string list
    \<Rightarrow> string \<Rightarrow> bool \<Rightarrow> pending_update list \<times> string list \<times> upgrade_plan" where
  "MergeAvailableUpdatesWithStandard sha standardPending standardUpgradable availablePending availableUpgradable stdout available =
     (if availablePending = [] then (standardPending, standardUpgradable, BuildUpgradePlan sha standardPending stdout available)
      else let records = available_records availablePending availableUpgradable;
               st = fold (merge_standard records standardUpgradable) (enumerate 0 standardPending) ([], [], []);
               (_, pending, upgradable) = fold merge_available records st in
        (pending, upgradable, BuildUpgradePlan sha pending stdout available))"

subsection \<open>Discovery\<close>

definition SortPendingUpdates :: "pending_update list \<Rightarrow> pending_update list" where
  "SortPendingUpdates updates = sort_key (\<lambda>u. (\<not> uSecurity u, uRequiresFull u, - int (length (uCVEs u)), uPackage u)) updates"

definition PreparePendingUpdatesForCVE :: "pending_update list \<Rightarrow> pending_update list" where
  "PreparePendingUpdatesForCVE updates =
     map (\<lambda>u. u\<lparr>uCVEState := (if trim_space (uPackage u) \<noteq> [] then ''pending'' else ''skipped'')\<rparr>) (SortPendingUpdates updates)"

definition PendingCVEPackages :: "pending_update list \<Rightarrow> string list" where
  "PendingCVEPackages updates =
     filter (\<lambda>pkg. pkg \<noteq> []) (map (\<lambda>u. trim_space (uPackage u)) (filter (\<lambda>u. uCVEState u = ''pending'') updates))"

definition newPackageDiscoveryOutcome :: "pending_update list \<Rightarrow> string list \<Rightarrow> upgrade_plan \<Rightarrow> discovery_outcome" where
  "newPackageDiscoveryOutcome pending upgradable plan =
     (let prepared = PreparePendingUpdatesForCVE pending in
      \<lparr>doAvailableUpdatesComplete = False, doPendingPackageCount = int (length upgradable),
       doSecurityPackageCount = int (length (filter uSecurity prepared)), doUpgradable = upgradable, doPendingUpdates = prepared,
       doUpgradePlan = plan\<rparr>)"

type_synonym command_runner = "string \<Rightarrow> string \<times> string \<times> run_error option"

definition enrichKeptBackSecurityUpgradePlan :: "(string \<Rightarrow> string) \<Rightarrow> command_runner \<Rightarrow> pending_update list \<Rightarrow> upgrade_plan \<Rightarrow> upgrade_plan" where
  "enrichKeptBackSecurityUpgradePlan sha run pending plan =
     (let packages = KeptBackSecurityPackagesFromPendingUpdates pending; cmd = BuildSelectedInstallSimulationCmd packages in
      if packages = [] then plan
      else if cmd = [] then plan
      else case run cmd of (stdout, stderr, err) \<Rightarrow>
        if err \<noteq> None then plan
        else ApplyKeptBackSecuritySimulation sha plan (stdout @ CHR 0x0A # stderr))"

definition AptListUpgradableCmd :: string where
  "AptListUpgradableCmd = ReadOnlyAptCommand ''apt-get -s upgrade''"

definition AptListMetadataCmd :: string where
  "AptListMetadataCmd = ReadOnlyAptCommand ''apt list --upgradable'' @ '' 2>/dev/null''"

definition AptFullUpgradeSimCmd :: string where
  "AptFullUpgradeSimCmd = ReadOnlyAptCommand ''apt-get -o Debug::NoLocking=1 --print-uris --yes --download-only full-upgrade''"

definition discover_with :: "(string \<Rightarrow> string) \<Rightarrow> command_runner \<Rightarrow> (run_error, discovery_outcome) result" where
  "discover_with sha run =
     (case run AptListUpgradableCmd of
        (stdout, stderr, Some e) \<Rightarrow>
          Inl (case MarkRetryableFromOutput (Some e) (stdout @ CHR 0x0A # stderr) of Some e' \<Rightarrow> e' | None \<Rightarrow> e)
      | (stdout, stderr, None) \<Rightarrow>
          let (standardPending, standardUpgradable) = ParseUpgradableEntries stdout;
              (fullStdout, fullStderr, fullErr) = run AptFullUpgradeSimCmd;
              fullOutput = fullStdout @ CHR 0x0A # fullStderr;
              (metadataStdout, _, metadataErr) = run AptListMetadataCmd in
          if metadataErr \<noteq> None then
            (let (pending, upgradable, plan) = MergeAvailableUpdatesWithStandard sha standardPending standardUpgradable [] [] fullOutput (fullErr = None) in
             Inr (newPackageDiscoveryOutcome pending upgradable (enrichKeptBackSecurityUpgradePlan sha run pending plan)))
          else
            (let (metadataPending, metadataUpgradable) = ParseAptListMetadataEntries metadataStdout [];
                 (pending, upgradable, plan) = MergeAvailableUpdatesWithStandard sha standardPending standardUpgradable
                    metadataPending metadataUpgradable fullOutput (fullErr = None);
                 outcome = newPackageDiscoveryOutcome pending upgradable (enrichKeptBackSecurityUpgradePlan sha run pending plan) in
             Inr (outcome\<lparr>doAvailableUpdatesComplete := True\<rparr>)))"

definition DiscoverPackageUpdates :: "(string \<Rightarrow> string) \<Rightarrow> command_runner option \<Rightarrow> (run_error, discovery_outcome) result" where
  "DiscoverPackageUpdates sha runner =
     (case runner of
        None \<Rightarrow> Inl \<lparr>reText = ''package discovery command runner is nil'', reStopped = False, reTagged = None, reNetTimeout = False\<rparr>
      | Some run \<Rightarrow> discover_with sha run)"

subsection \<open>Retries\<close>

lemma no_error_not_retryable [simp]: "\<not> IsRetryableError None"
  by (simp add: IsRetryableError_def)

lemma retry_loop_result:
  assumes "retry_loop delay fn left attempt s = (res, s', log)"
  shows "length log \<le> left \<and> (res, s') = fn (((\<lambda>x. snd (fn x)) ^^ length log) s)
     \<and> (\<forall>i<length log. \<exists>e. fst (fn (((\<lambda>x. snd (fn x)) ^^ i) s)) = Some e \<and> IsRetryableError (Some e)
          \<and> log ! i = (attempt + int i, delay (attempt + int i), e))
     \<and> (IsRetryableError res \<longrightarrow> length log = left)"
  using assms
proof (induction left arbitrary: attempt s log)
  case 0
  then show ?case by (auto simp: retry_loop.simps [of _ _ 0] split: prod.splits option.splits if_splits)
next
  case (Suc left)
  obtain err t where call: "fn s = (err, t)" by fastforce
  show ?case
  proof (cases "IsRetryableError err")
    case False
    then show ?thesis using Suc.prems call
      by (cases err) (auto simp: retry_loop.simps [of _ _ "Suc left"])
  next
    case True
    then obtain e where e: "err = Some e" by (cases err) (simp_all add: IsRetryableError_def)
    then obtain log' where r: "retry_loop delay fn left (attempt + 1) t = (res, s', log')" "log = (attempt, delay attempt, e) # log'"
      using Suc.prems call True by (auto simp: retry_loop.simps [of _ _ "Suc left"] split: prod.splits)
    have shift: "((\<lambda>x. snd (fn x)) ^^ i) t = ((\<lambda>x. snd (fn x)) ^^ Suc i) s" for i
      using call by (simp only: funpow_Suc_right comp_apply snd_conv)
    note IH = Suc.IH [OF r(1), unfolded shift]
    have "\<exists>e. fst (fn (((\<lambda>x. snd (fn x)) ^^ i) s)) = Some e \<and> IsRetryableError (Some e) \<and> log ! i = (attempt + int i, delay (attempt + int i), e)"
      if "i < length log" for i
    proof (cases i)
      case 0
      then show ?thesis using call e True r(2) by simp
    next
      case (Suc j)
      then have "j < length log'" using that r(2) by simp
      with IH have "\<exists>e. fst (fn (((\<lambda>x. snd (fn x)) ^^ Suc j) s)) = Some e \<and> IsRetryableError (Some e)
          \<and> log' ! j = (attempt + 1 + int j, delay (attempt + 1 + int j), e)" by blast
      moreover have "attempt + 1 + int j = attempt + int i" using Suc by simp
      ultimately show ?thesis using Suc r(2) by (simp only: nth_Cons_Suc)
    qed
    moreover have "length log = Suc (length log')" by (simp add: r(2))
    ultimately show ?thesis using IH by (simp only: Suc_le_mono) blast
  qed
qed

subsection \<open>Plain words\<close>

definition plain_char :: "char \<Rightarrow> bool" where
  "plain_char c \<longleftrightarrow> \<not> ascii_space c \<and> byte_val c < 128"

lemma pkg_char_plain: "pkg_char c \<Longrightarrow> plain_char c"
proof -
  assume "pkg_char c"
  then have "(97 \<le> byte_val c \<and> byte_val c \<le> 122) \<or> is_digit c \<or> c \<in> set ''+.:_-''"
    by (auto simp: pkg_char_def is_lower_def char_le_iff_byte_val byte_val_def)
  then show ?thesis
    unfolding is_digit_byte plain_char_def ascii_space_def char_le_iff_byte_val
    by (auto simp: byte_val_def)
qed

lemma space_width_plain: "plain_char c \<Longrightarrow> space_width (c # s) = 0"
  using trim_left_stop [of c s] by (simp add: plain_char_def flip: trim_left_fixed_iff)

lemma fields_loop_plain: "list_all plain_char s \<Longrightarrow> fields_loop w s = (if w @ s = [] then [] else [w @ s])"
  by (induction s arbitrary: w) (simp_all add: fields_loop.simps [of _ "[]"] fields_loop.simps [of _ "_ # _"] space_width_plain)

lemma trim_space_plain: "list_all plain_char s \<Longrightarrow> trim_space s = s"
proof (cases "s = []")
  case False
  moreover assume "list_all plain_char s"
  ultimately have "plain_char (hd s)" "plain_char (last s)" by (simp_all add: list_all_iff)
  then obtain c d where cd: "plain_char c" "plain_char d" "hd s = c" "last s = d" by blast
  have "trim_left s = s" using trim_left_stop [of c "tl s"] cd(1,3) False by (metis list.collapse plain_char_def)
  moreover have "trim_left_rev (rev s) = rev s"
    using trim_left_rev_stop [of d "tl (rev s)"] cd(2,4) False by (metis hd_rev list.collapse plain_char_def rev_is_Nil_conv)
  ultimately show ?thesis by (simp add: trim_space_def)
qed simp

text \<open>The name of a package without its architecture.\<close>

definition base_name :: "string \<Rightarrow> string" where
  "base_name s = takeWhile (\<lambda>c. c \<noteq> CHR '':'') s"

definition good_name :: "string \<Rightarrow> bool" where
  "good_name s \<longleftrightarrow> pkg_name s \<and> last s \<noteq> CHR '':''"

lemma good_name_selector:
  assumes "good_name s"
  shows "packageSelectorFromPackage s =
     (if CHR '':'' \<in> set s then \<lparr>psSelector = s, psBase = base_name s, psArch = tl (dropWhile (\<lambda>c. c \<noteq> CHR '':'') s)\<rparr>
      else \<lparr>psSelector = s, psBase = s, psArch = []\<rparr>)"
    and "base_name s \<noteq> []" and "CHR '':'' \<in> set s \<Longrightarrow> tl (dropWhile (\<lambda>c. c \<noteq> CHR '':'') s) \<noteq> []"
proof -
  have s: "s \<noteq> []" "alnum (hd s)" "list_all pkg_char s" "last s \<noteq> CHR '':''" using assms by (simp_all add: good_name_def pkg_name_def)
  have plain: "list_all plain_char s" using s(3) pkg_char_plain by (auto simp: list_all_iff)
  have fields: "go_fields s = [s]" using fields_loop_plain [OF plain, of "[]"] s(1) by (simp add: go_fields_def)
  have slash: "CHR ''/'' \<notin> set s" using s(3) by (auto simp: list_all_iff pkg_char_def is_lower_def is_digit_def less_eq_char_def)
  have hd: "hd s \<noteq> CHR '':''" using s(2) by (auto simp: alnum_def is_lower_def is_digit_def less_eq_char_def)
  then show base: "base_name s \<noteq> []" using s(1) by (cases s) (simp_all add: base_name_def)
  let ?b = "takeWhile (\<lambda>c. c \<noteq> CHR '':'') s" and ?a = "tl (dropWhile (\<lambda>c. c \<noteq> CHR '':'') s)"
  have split: "s = ?b @ CHR '':'' # ?a" if "CHR '':'' \<in> set s"
    using that cut_at_append [of s "CHR '':''"] by (simp add: cut_at_def)
  show arch: "?a \<noteq> []" if "CHR '':'' \<in> set s"
  proof
    assume "?a = []"
    with split [OF that] have "s = ?b @ [CHR '':'']" by simp
    then have "last s = CHR '':''" by (metis last_snoc)
    with s(4) show False by simp
  qed
  have parts: "list_all plain_char ?b" "list_all plain_char ?a"
    using plain by (auto simp: list_all_iff dest: set_takeWhileD) (metis list.sel(2) list.set_sel(2) set_dropWhileD)
  show "packageSelectorFromPackage s =
     (if CHR '':'' \<in> set s then \<lparr>psSelector = s, psBase = base_name s, psArch = ?a\<rparr> else \<lparr>psSelector = s, psBase = s, psArch = []\<rparr>)"
    using slash s(1) base arch split
    by (cases "CHR '':'' \<in> set s")
      (simp_all add: packageSelectorFromPackage_def fields cut_at_def Let_def trim_space_plain plain parts base_name_def)
qed

subsection \<open>Selectors\<close>

definition sel_ok :: "package_selector \<Rightarrow> string \<Rightarrow> bool" where
  "sel_ok sel b \<longleftrightarrow> psBase sel = b \<and> b \<noteq> [] \<and> CHR '':'' \<notin> set b
     \<and> psSelector sel = (if psArch sel = [] then b else b @ CHR '':'' # psArch sel)"

lemma base_name_idem [simp]: "base_name (base_name s) = base_name s"
  by (simp add: base_name_def)

lemma base_name_same: "CHR '':'' \<notin> set s \<Longrightarrow> base_name s = s"
  by (simp add: base_name_def takeWhile_eq_all_conv) blast

lemma colon_not_in_base: "CHR '':'' \<notin> set (base_name s)"
  unfolding base_name_def using set_takeWhileD by fastforce

lemma sel_ok_base: "sel_ok sel b \<Longrightarrow> base_name (psSelector sel) = b \<and> base_name b = b \<and> psSelector sel \<noteq> [] \<and> psBase sel = b"
proof -
  assume "sel_ok sel b"
  then have b: "\<forall>c\<in>set b. c \<noteq> CHR '':''" "b \<noteq> []" "psBase sel = b" "psSelector sel = (if psArch sel = [] then b else b @ CHR '':'' # psArch sel)"
    by (auto simp: sel_ok_def)
  have "takeWhile (\<lambda>c. c \<noteq> CHR '':'') (b @ x) = b @ takeWhile (\<lambda>c. c \<noteq> CHR '':'') x" for x
    using b(1) by (simp add: takeWhile_append2)
  from this [of "[]"] this [of "CHR '':'' # psArch sel"] b show ?thesis by (simp add: base_name_def)
qed

lemma selector_ok:
  assumes "good_name s"
  shows "sel_ok (packageSelectorFromPackage s) (base_name s) \<and> psSelector (packageSelectorFromPackage s) = s
    \<and> (psArch (packageSelectorFromPackage s) = [] \<longleftrightarrow> CHR '':'' \<notin> set s)"
proof -
  note g = good_name_selector [OF assms]
  show ?thesis
  proof (cases "CHR '':'' \<in> set s")
    case True
    then have "s = base_name s @ CHR '':'' # tl (dropWhile (\<lambda>c. c \<noteq> CHR '':'') s)"
      using cut_at_append [of s "CHR '':''"] by (simp add: cut_at_def base_name_def)
    with True g show ?thesis by (simp add: sel_ok_def colon_not_in_base)
  next
    case False
    with g show ?thesis by (simp add: sel_ok_def base_name_same)
  qed
qed

lemma metadata_selector_ok:
  assumes "good_name (uPackage u)"
  shows "sel_ok (aptListMetadataSelector u) (base_name (uPackage u))"
  using selector_ok [OF assms] by (auto simp: aptListMetadataSelector_def Let_def sel_ok_def)

lemma in_map_filter: "y \<in> set (List.map_filter f xs) \<longleftrightarrow> (\<exists>x\<in>set xs. f x = Some y)"
  by (induction xs) (auto simp: List.map_filter_simps split: option.splits)

lemma records_mem:
  "r \<in> set (available_records av upg) \<Longrightarrow> arUpdate r \<in> set av \<and> arSelector r = aptListMetadataSelector (arUpdate r)"
  "a \<in> set av \<Longrightarrow> psSelector (aptListMetadataSelector a) \<noteq> []
     \<Longrightarrow> \<exists>r\<in>set (available_records av upg). arUpdate r = a \<and> arSelector r = aptListMetadataSelector a"
proof -
  show "arUpdate r \<in> set av \<and> arSelector r = aptListMetadataSelector (arUpdate r)" if "r \<in> set (available_records av upg)"
    using that by (auto simp: available_records_def in_map_filter in_set_enumerate_eq Let_def split: if_splits)
  assume a: "a \<in> set av" "psSelector (aptListMetadataSelector a) \<noteq> []"
  then obtain i where i: "i < length av" "av ! i = a" by (auto simp: in_set_conv_nth)
  define f where "f = (\<lambda>(i, u). let sel = aptListMetadataSelector u in if psSelector sel = [] then None
      else Some \<lparr>arUpdate = u, arRaw = (if i < length upg \<and> trim_space (upg ! i) \<noteq> [] then upg ! i else uRaw u), arSelector = sel\<rparr>)"
  obtain r where r: "f (i, a) = Some r" "arUpdate r = a" "arSelector r = aptListMetadataSelector a" using a(2) by (auto simp: f_def Let_def)
  have "(i, a) \<in> set (enumerate 0 av)" using i by (simp add: in_set_enumerate_eq)
  then have "r \<in> set (List.map_filter f (enumerate 0 av))" using r(1) unfolding in_map_filter by blast
  then show "\<exists>r\<in>set (available_records av upg). arUpdate r = a \<and> arSelector r = aptListMetadataSelector a"
    using r(2,3) unfolding available_records_def f_def by blast
qed

subsection \<open>One step of the merge\<close>

definition standard_update :: "pending_update \<Rightarrow> bool" where
  "standard_update p \<longleftrightarrow> \<not> uRequiresFull p \<and> \<not> uKeptBack p"

definition same_base :: "pending_update \<Rightarrow> string \<Rightarrow> bool" where
  "same_base p s \<longleftrightarrow> base_name (uPackage p) = base_name s"

lemma append_update_form:
  assumes "sel_ok sel (base_name (uPackage u))"
  shows "\<exists>p t. append_update u raw sel full (seen, pend, upg) = (seen @ psSelector sel # (if psArch sel = [] then [psBase sel] else []), pend @ [p], upg @ [t])
     \<and> uPackage p = uPackage u \<and> uRaw p = uRaw u \<and> uSecurity p = uSecurity u \<and> uRequiresFull p = full \<and> uKeptBack p = full"
  using sel_ok_base [OF assms] assms by (auto simp: append_update_def Let_def sel_ok_def)

lemma merge_standard_form:
  assumes u: "good_name (uPackage u)" and recs: "\<forall>r\<in>set records. sel_ok (arSelector r) (base_name (uPackage (arUpdate r)))"
  shows "\<exists>new p t. merge_standard records names (i, u) (seen, pend, upg) = (seen @ new, pend @ [p], upg @ [t])
     \<and> standard_update p \<and> same_base p (uPackage u) \<and> (\<forall>s\<in>set new. same_base p s)
     \<and> (CHR '':'' \<notin> set (uPackage u) \<longrightarrow> uPackage u \<in> set new)"
proof -
  let ?sel = "packageSelectorFromPackage (uPackage u)"
  note s = selector_ok [OF u] sel_ok_base [OF conjunct1 [OF selector_ok [OF u]]]
  have ne: "psSelector ?sel \<noteq> []" using s by blast
  consider (exact) r where "find (\<lambda>r. psSelector (arSelector r) = psSelector ?sel) records = Some r"
    | (base) r where "find (\<lambda>r. psSelector (arSelector r) = psSelector ?sel) records = None" "psArch ?sel = []"
        "find (\<lambda>r. psBase (arSelector r) = psBase ?sel) records = Some r"
    | (none) "find (\<lambda>r. psSelector (arSelector r) = psSelector ?sel) records = None"
        "(if psArch ?sel = [] then find (\<lambda>r. psBase (arSelector r) = psBase ?sel) records else None) = None"
    by (cases "find (\<lambda>r. psSelector (arSelector r) = psSelector ?sel) records";
        cases "find (\<lambda>r. psBase (arSelector r) = psBase ?sel) records"; cases "psArch ?sel = []") auto
  then show ?thesis
  proof cases
    case exact
    then have r: "r \<in> set records" "psSelector (arSelector r) = psSelector ?sel" by (auto simp: find_Some_iff)
    let ?v = "(arUpdate r)\<lparr>uPackage := (if psArch ?sel \<noteq> [] then psSelector ?sel else psBase ?sel)\<rparr>"
    have ok: "sel_ok (arSelector r) (base_name (uPackage ?v))"
    proof -
      have o: "sel_ok (arSelector r) (base_name (uPackage (arUpdate r)))" using recs r(1) by blast
      have "base_name (uPackage (arUpdate r)) = base_name (psSelector ?sel)" using sel_ok_base [OF o] r(2) by simp
      with o s show ?thesis by simp
    qed
    obtain p t where a: "append_update ?v (arRaw r) (arSelector r) False (seen, pend, upg)
        = (seen @ psSelector (arSelector r) # (if psArch (arSelector r) = [] then [psBase (arSelector r)] else []), pend @ [p], upg @ [t])"
      "uPackage p = uPackage ?v" "\<not> uRequiresFull p" "\<not> uKeptBack p" using append_update_form [OF ok, of "arRaw r" False seen pend upg] by auto
    have bases: "base_name (uPackage ?v) = base_name (uPackage u)" using s by simp
    have "merge_standard records names (i, u) (seen, pend, upg) = (if psArch ?sel = [] then mark_seen (psSelector (arSelector r)) else (\<lambda>x. x))
        (append_update ?v (arRaw r) (arSelector r) False (seen, pend, upg))"
      using ne exact by (simp add: merge_standard_def Let_def)
    then show ?thesis using a bases s r(2) sel_ok_base [OF ok]
      by (auto simp: mark_seen_def standard_update_def same_base_def)
  next
    case base
    then have r: "r \<in> set records" "psBase (arSelector r) = psBase ?sel" by (auto simp: find_Some_iff)
    let ?v = "(arUpdate r)\<lparr>uPackage := psBase ?sel\<rparr>"
    let ?b = "\<lparr>psSelector = psBase ?sel, psBase = psBase ?sel, psArch = []\<rparr>"
    have ok: "sel_ok ?b (base_name (uPackage ?v))" using s by (simp add: sel_ok_def)
    have rok: "base_name (psSelector (arSelector r)) = psBase ?sel"
      using recs r sel_ok_base by metis
    obtain p t where a: "append_update ?v (arRaw r) ?b False (seen, pend, upg) = (seen @ psBase ?sel # [psBase ?sel], pend @ [p], upg @ [t])"
      "uPackage p = uPackage ?v" "\<not> uRequiresFull p" "\<not> uKeptBack p" using append_update_form [OF ok, of "arRaw r" False seen pend upg] by auto
    have "merge_standard records names (i, u) (seen, pend, upg)
        = mark_seen (psSelector (arSelector r)) (append_update ?v (arRaw r) ?b False (seen, pend, upg))"
      using ne base by (simp add: merge_standard_def Let_def)
    then show ?thesis using a s rok base_name_same [of "uPackage u"]
      by (auto simp: mark_seen_def standard_update_def same_base_def)
  next
    case none
    let ?raw = "if i < length names then names ! i else []"
    obtain p t where a: "append_update u ?raw ?sel False (seen, pend, upg) = (seen @ psSelector ?sel # (if psArch ?sel = [] then [psBase ?sel] else []), pend @ [p], upg @ [t])"
      "uPackage p = uPackage u" "\<not> uRequiresFull p" "\<not> uKeptBack p" using append_update_form [OF conjunct1 [OF selector_ok [OF u]], of ?raw False seen pend upg] by auto
    have "merge_standard records names (i, u) (seen, pend, upg) = append_update u ?raw ?sel False (seen, pend, upg)"
      using ne none by (simp add: merge_standard_def Let_def)
    then show ?thesis using a s by (auto simp: standard_update_def same_base_def)
  qed
qed

lemma merge_available_form:
  assumes ok: "sel_ok (arSelector r) (base_name (uPackage (arUpdate r)))"
  shows "merge_available r (seen, pend, upg) = (seen, pend, upg) \<and> (psSelector (arSelector r) \<in> set seen \<or> psBase (arSelector r) \<in> set seen)
     \<or> (\<exists>new p t. merge_available r (seen, pend, upg) = (seen @ new, pend @ [p], upg @ [t])
          \<and> psSelector (arSelector r) \<in> set new \<and> (\<forall>s\<in>set new. same_base p s)
          \<and> uRequiresFull p \<and> uKeptBack p \<and> uRaw p = uRaw (arUpdate r) \<and> same_base p (uPackage (arUpdate r))
          \<and> base_name (uPackage (arUpdate r)) \<notin> set seen)"
proof (cases "psSelector (arSelector r) \<in> set seen \<or> psBase (arSelector r) \<in> set seen \<and> psArch (arSelector r) \<noteq> []")
  case True
  then show ?thesis by (auto simp: merge_available_def Let_def)
next
  case False
  let ?v = "if psArch (arSelector r) \<noteq> [] then (arUpdate r)\<lparr>uPackage := psBase (arSelector r)\<rparr> else arUpdate r"
  note b = sel_ok_base [OF ok]
  have ok': "sel_ok (arSelector r) (base_name (uPackage ?v))" using ok b by simp
  obtain p t where a: "append_update ?v (arRaw r) (arSelector r) True (seen, pend, upg)
      = (seen @ psSelector (arSelector r) # (if psArch (arSelector r) = [] then [psBase (arSelector r)] else []), pend @ [p], upg @ [t])"
    "uPackage p = uPackage ?v" "uRaw p = uRaw ?v" "uRequiresFull p" "uKeptBack p"
    using append_update_form [OF ok', of "arRaw r" True seen pend upg] by auto
  have "merge_available r (seen, pend, upg) = append_update ?v (arRaw r) (arSelector r) True (seen, pend, upg)"
    using False by (auto simp: merge_available_def Let_def)
  moreover have "base_name (uPackage (arUpdate r)) \<notin> set seen" using False b ok by (auto simp: sel_ok_def)
  ultimately show ?thesis using a b by (auto simp: same_base_def)
qed

subsection \<open>The whole merge\<close>

lemma merge_standard_fold:
  assumes "\<forall>(i, u)\<in>set xs. good_name (uPackage u)" and recs: "\<forall>r\<in>set records. sel_ok (arSelector r) (base_name (uPackage (arUpdate r)))"
  shows "\<exists>new ps ts. fold (merge_standard records names) xs (seen, pend, upg) = (seen @ new, pend @ ps, upg @ ts) \<and> length ts = length ps
     \<and> (\<forall>p\<in>set ps. standard_update p) \<and> (\<forall>(i, u)\<in>set xs. \<exists>p\<in>set ps. same_base p (uPackage u))
     \<and> (\<forall>s\<in>set new. \<exists>p\<in>set ps. same_base p s) \<and> (\<forall>(i, u)\<in>set xs. CHR '':'' \<notin> set (uPackage u) \<longrightarrow> uPackage u \<in> set new)"
  using assms(1)
proof (induction xs arbitrary: seen pend upg)
  case Nil
  show ?case by (rule exI [of _ "[]"])+ simp
next
  case (Cons x xs)
  obtain i u where x: "x = (i, u)" by fastforce
  from Cons.prems x have u: "good_name (uPackage u)" by simp
  from merge_standard_form [OF u recs, of names i seen pend upg] obtain new1 p1 t1 where
    one: "merge_standard records names (i, u) (seen, pend, upg) = (seen @ new1, pend @ [p1], upg @ [t1])" "standard_update p1"
      "same_base p1 (uPackage u)" "\<forall>s\<in>set new1. same_base p1 s" "CHR '':'' \<notin> set (uPackage u) \<longrightarrow> uPackage u \<in> set new1" by blast
  have "\<forall>(i, u)\<in>set xs. good_name (uPackage u)" using Cons.prems by simp
  from Cons.IH [OF this, of "seen @ new1" "pend @ [p1]" "upg @ [t1]"] obtain new ps ts where
    rest: "fold (merge_standard records names) xs (seen @ new1, pend @ [p1], upg @ [t1]) = ((seen @ new1) @ new, (pend @ [p1]) @ ps, (upg @ [t1]) @ ts)"
      "length ts = length ps" "\<forall>p\<in>set ps. standard_update p" "\<forall>(i, u)\<in>set xs. \<exists>p\<in>set ps. same_base p (uPackage u)"
      "\<forall>s\<in>set new. \<exists>p\<in>set ps. same_base p s" "\<forall>(i, u)\<in>set xs. CHR '':'' \<notin> set (uPackage u) \<longrightarrow> uPackage u \<in> set new" by blast
  show ?case
    by (rule exI [of _ "new1 @ new"], rule exI [of _ "p1 # ps"], rule exI [of _ "t1 # ts"]) (use one rest x in auto)
qed

lemma merge_available_fold:
  assumes recs: "\<forall>r\<in>set records. sel_ok (arSelector r) (base_name (uPackage (arUpdate r)))"
  shows "\<exists>new ps ts. fold merge_available records (seen, pend, upg) = (seen @ new, pend @ ps, upg @ ts) \<and> length ts = length ps
     \<and> (\<forall>p\<in>set ps. uRequiresFull p \<and> uKeptBack p \<and> base_name (uPackage p) \<notin> set seen \<and> (\<exists>r\<in>set records. uRaw p = uRaw (arUpdate r)))
     \<and> (\<forall>s\<in>set new. \<exists>p\<in>set ps. same_base p s)
     \<and> (\<forall>r\<in>set records. psSelector (arSelector r) \<in> set (seen @ new) \<or> psBase (arSelector r) \<in> set (seen @ new))"
  using recs
proof (induction records arbitrary: seen pend upg)
  case Nil
  show ?case by (rule exI [of _ "[]"])+ simp
next
  case (Cons r records)
  have ok: "sel_ok (arSelector r) (base_name (uPackage (arUpdate r)))" using Cons.prems by simp
  have oks: "\<forall>r\<in>set records. sel_ok (arSelector r) (base_name (uPackage (arUpdate r)))" using Cons.prems by simp
  from merge_available_form [OF ok, of seen pend upg] show ?case
  proof (elim disjE exE conjE)
    assume same: "merge_available r (seen, pend, upg) = (seen, pend, upg)"
    note IH = Cons.IH [OF oks, of seen pend upg]
    assume "psSelector (arSelector r) \<in> set seen"
    with IH same show ?thesis by auto
  next
    assume same: "merge_available r (seen, pend, upg) = (seen, pend, upg)"
    note IH = Cons.IH [OF oks, of seen pend upg]
    assume "psBase (arSelector r) \<in> set seen"
    with IH same show ?thesis by auto
  next
    fix new1 p1 t1
    assume one: "merge_available r (seen, pend, upg) = (seen @ new1, pend @ [p1], upg @ [t1])" "psSelector (arSelector r) \<in> set new1"
      "\<forall>s\<in>set new1. same_base p1 s" "uRequiresFull p1" "uKeptBack p1" "uRaw p1 = uRaw (arUpdate r)" "same_base p1 (uPackage (arUpdate r))"
      "base_name (uPackage (arUpdate r)) \<notin> set seen"
    from Cons.IH [OF oks, of "seen @ new1" "pend @ [p1]" "upg @ [t1]"] obtain new ps ts where
      rest: "fold merge_available records (seen @ new1, pend @ [p1], upg @ [t1]) = ((seen @ new1) @ new, (pend @ [p1]) @ ps, (upg @ [t1]) @ ts)"
        "length ts = length ps" "\<forall>p\<in>set ps. uRequiresFull p \<and> uKeptBack p \<and> base_name (uPackage p) \<notin> set (seen @ new1) \<and> (\<exists>r\<in>set records. uRaw p = uRaw (arUpdate r))"
        "\<forall>s\<in>set new. \<exists>p\<in>set ps. same_base p s"
        "\<forall>r\<in>set records. psSelector (arSelector r) \<in> set ((seen @ new1) @ new) \<or> psBase (arSelector r) \<in> set ((seen @ new1) @ new)" by blast
    have "base_name (uPackage p1) \<notin> set seen" using one(7,8) by (simp add: same_base_def)
    then show ?thesis
      by (intro exI [of _ "new1 @ new"] exI [of _ "p1 # ps"] exI [of _ "t1 # ts"]) (use one(1-6) rest in auto)
  qed
qed

lemma plan_counts:
  "StandardPackageCount (fold counted_update us p) = StandardPackageCount p + int (length (filter (\<lambda>u. \<not> (uRequiresFull u \<or> uKeptBack u)) us))"
  "KeptBackPackageCount (fold counted_update us p) = KeptBackPackageCount p + int (length (filter (\<lambda>u. uRequiresFull u \<or> uKeptBack u) us))"
  "TotalSecurityCount (fold counted_update us p) = TotalSecurityCount p + int (length (filter uSecurity us))"
  by (induction us arbitrary: p) (auto simp: counted_update_def Let_def)

definition counts_of :: "upgrade_plan \<Rightarrow> int \<times> int \<times> int" where
  "counts_of plan = (StandardPackageCount plan, KeptBackPackageCount plan, TotalSecurityCount plan)"

lemma counts_of_estimate [simp]: "counts_of (applyPlanDiskEstimate plan) = counts_of plan"
  by (simp add: counts_of_def applyPlanDiskEstimate_def Let_def)

lemma counts_of_enriched: "counts_of (enrichKeptBackSecurityUpgradePlan sha run pending plan) = counts_of plan"
proof -
  have "counts_of (ApplyKeptBackSecuritySimulation sha plan out) = counts_of plan" for out
    unfolding ApplyKeptBackSecuritySimulation_def Let_def
    by (cases "packageSimulationIdentity sha out"; cases "parseAptDiskFacts out") (simp_all, simp_all add: counts_of_def)
  then show ?thesis by (simp add: enrichKeptBackSecurityUpgradePlan_def Let_def split: prod.splits)
qed

lemma counts_of_build:
  "counts_of (BuildUpgradePlan sha pending out ok) =
     (int (length (filter (\<lambda>u. \<not> (uRequiresFull u \<or> uKeptBack u)) pending)), int (length (filter (\<lambda>u. uRequiresFull u \<or> uKeptBack u) pending)),
      int (length (filter uSecurity pending)))"
proof -
  obtain d ps where i: "packageSimulationIdentity sha out = (d, ps)" by fastforce
  show ?thesis unfolding BuildUpgradePlan_def Let_def counts_of_estimate i
    by (cases "parseAptDiskFacts out"; cases ok) (simp_all add: counts_of_def plan_counts empty_plan_def)
qed

lemma metadata_line_facts:
  assumes "distinct (map fst found)"
  shows "distinct (map fst (metadata_line [] l found))" "set found \<subseteq> set (metadata_line [] l found)"
    "ParseAptListMetadataEntry l = Some a \<Longrightarrow> psBase (aptListMetadataSelector a) \<noteq> []
       \<Longrightarrow> psSelector (aptListMetadataSelector a) \<in> fst ` set (metadata_line [] l found)"
    "(k, v) \<in> set (metadata_line [] l found) \<Longrightarrow> (k, v) \<in> set found \<or> k = psSelector (aptListMetadataSelector v) \<and> ParseAptListMetadataEntry l = Some v"
  using assms by (auto simp: metadata_line_def Let_def split: option.splits if_splits)

lemma metadata_fold:
  assumes "distinct (map fst found)"
  shows "distinct (map fst (fold (metadata_line []) lines found)) \<and> set found \<subseteq> set (fold (metadata_line []) lines found)
    \<and> (\<forall>line\<in>set lines. \<forall>a. ParseAptListMetadataEntry line = Some a \<and> psBase (aptListMetadataSelector a) \<noteq> []
         \<longrightarrow> psSelector (aptListMetadataSelector a) \<in> fst ` set (fold (metadata_line []) lines found))
    \<and> (\<forall>(k, v)\<in>set (fold (metadata_line []) lines found). (k, v) \<in> set found
         \<or> k = psSelector (aptListMetadataSelector v) \<and> (\<exists>l\<in>set lines. ParseAptListMetadataEntry l = Some v))"
  using assms
proof (induction lines arbitrary: found)
  case (Cons l lines)
  note f = metadata_line_facts [OF Cons.prems, where l = l]
  have "psSelector (aptListMetadataSelector a) \<in> fst ` set (fold (metadata_line []) lines (metadata_line [] l found))"
    if "ParseAptListMetadataEntry l = Some a" "psBase (aptListMetadataSelector a) \<noteq> []" for a
    using f(3) [OF that] Cons.IH [OF f(1)] by (meson image_mono subsetD)
  then show ?case using Cons.IH [OF f(1)] f(2,4) by simp fast
qed auto

lemma map_filter_all: "distinct (map fst al) \<Longrightarrow> List.map_filter (map_of al) (map fst al) = map snd al"
proof -
  assume d: "distinct (map fst al)"
  have "map_of al k = Some v" if "(k, v) \<in> set al" for k v using d that by simp
  then have "List.map_filter (map_of al) (map fst xs) = map snd xs" if "set xs \<subseteq> set al" for xs
    using that by (induction xs) (auto simp: List.map_filter_simps)
  then show ?thesis by simp
qed

lemma metadata_entries:
  assumes "ParseAptListMetadataEntries out [] = (av, names)"
  shows "a \<in> set av \<Longrightarrow> \<exists>line\<in>set (split_char (CHR 0x0A) out). ParseAptListMetadataEntry line = Some a"
    and "line \<in> set (split_char (CHR 0x0A) out) \<Longrightarrow> ParseAptListMetadataEntry line = Some a \<Longrightarrow> psBase (aptListMetadataSelector a) \<noteq> []
       \<Longrightarrow> \<exists>a'\<in>set av. psSelector (aptListMetadataSelector a') = psSelector (aptListMetadataSelector a)"
proof -
  let ?found = "fold (metadata_line []) (split_char (CHR 0x0A) out) []"
  have d: "distinct (map fst ?found)" using metadata_fold [of "[]"] by simp
  have av: "av = map snd ?found"
    using assms map_filter_all [OF d] by (simp add: ParseAptListMetadataEntries_def packageSelectorsFromEntries_def Let_def)
  have orig: "k = psSelector (aptListMetadataSelector v) \<and> (\<exists>l\<in>set (split_char (CHR 0x0A) out). ParseAptListMetadataEntry l = Some v)"
    if "(k, v) \<in> set ?found" for k v using metadata_fold [of "[]" "split_char (CHR 0x0A) out"] that by fastforce
  show "\<exists>line\<in>set (split_char (CHR 0x0A) out). ParseAptListMetadataEntry line = Some a" if "a \<in> set av"
    using that orig by (auto simp: av)
  assume "line \<in> set (split_char (CHR 0x0A) out)" "ParseAptListMetadataEntry line = Some a" "psBase (aptListMetadataSelector a) \<noteq> []"
  then have "psSelector (aptListMetadataSelector a) \<in> fst ` set ?found" using metadata_fold [of "[]" "split_char (CHR 0x0A) out"] by simp
  then obtain v where "(psSelector (aptListMetadataSelector a), v) \<in> set ?found" by auto
  with orig [OF this] show "\<exists>a'\<in>set av. psSelector (aptListMetadataSelector a') = psSelector (aptListMetadataSelector a)"
    by (force simp: av)
qed

lemma merge_result:
  assumes m: "MergeAvailableUpdatesWithStandard sha std names av avNames out ok = (pending, upg, plan)"
    and std: "\<forall>u\<in>set std. good_name (uPackage u) \<and> standard_update u" and av: "\<forall>a\<in>set av. good_name (uPackage a)"
  shows "\<forall>u\<in>set std. \<exists>p\<in>set pending. standard_update p \<and> same_base p (uPackage u)"
    and "\<forall>a\<in>set av. \<exists>p\<in>set pending. same_base p (uPackage a)"
    and "\<forall>p\<in>set pending. uKeptBack p = uRequiresFull p"
    and "\<forall>p\<in>set pending. uRequiresFull p \<longrightarrow> base_name (uPackage p) \<notin> uPackage ` set std \<and> (\<exists>a\<in>set av. uRaw p = uRaw a)"
    and "plan = BuildUpgradePlan sha pending out ok"
proof -
  let ?goal = "(\<forall>u\<in>set std. \<exists>p\<in>set pending. standard_update p \<and> same_base p (uPackage u)) \<and> (\<forall>a\<in>set av. \<exists>p\<in>set pending. same_base p (uPackage a))
    \<and> (\<forall>p\<in>set pending. uKeptBack p = uRequiresFull p)
    \<and> (\<forall>p\<in>set pending. uRequiresFull p \<longrightarrow> base_name (uPackage p) \<notin> uPackage ` set std \<and> (\<exists>a\<in>set av. uRaw p = uRaw a))
    \<and> plan = BuildUpgradePlan sha pending out ok"
  have ?goal
  proof (cases "av = []")
    case True
    then have "pending = std" "plan = BuildUpgradePlan sha pending out ok" using m by (auto simp: MergeAvailableUpdatesWithStandard_def)
    with True std show ?thesis by (auto simp: standard_update_def same_base_def)
  next
    case False
    let ?recs = "available_records av avNames"
    have recs: "\<forall>r\<in>set ?recs. sel_ok (arSelector r) (base_name (uPackage (arUpdate r)))"
      using records_mem(1) av metadata_selector_ok by metis
    have good: "\<forall>(i, u)\<in>set (enumerate 0 std). good_name (uPackage u)" using std by (auto simp: in_set_enumerate_eq)
    from merge_standard_fold [OF good recs, of names "[]" "[]" "[]"] obtain new ps ts where
      one: "fold (merge_standard ?recs names) (enumerate 0 std) ([], [], []) = (new, ps, ts)" "\<forall>p\<in>set ps. standard_update p"
        "\<forall>(i, u)\<in>set (enumerate 0 std). \<exists>p\<in>set ps. same_base p (uPackage u)" "\<forall>s\<in>set new. \<exists>p\<in>set ps. same_base p s"
        "\<forall>(i, u)\<in>set (enumerate 0 std). CHR '':'' \<notin> set (uPackage u) \<longrightarrow> uPackage u \<in> set new" by auto
    from merge_available_fold [OF recs, of new ps ts] obtain new' ps' ts' where
      two: "fold merge_available ?recs (new, ps, ts) = (new @ new', ps @ ps', ts @ ts')"
        "\<forall>p\<in>set ps'. uRequiresFull p \<and> uKeptBack p \<and> base_name (uPackage p) \<notin> set new \<and> (\<exists>r\<in>set ?recs. uRaw p = uRaw (arUpdate r))"
        "\<forall>s\<in>set new'. \<exists>p\<in>set ps'. same_base p s"
        "\<forall>r\<in>set ?recs. psSelector (arSelector r) \<in> set (new @ new') \<or> psBase (arSelector r) \<in> set (new @ new')" by auto
    have res: "pending = ps @ ps'" "plan = BuildUpgradePlan sha pending out ok"
      using m False one(1) two(1) by (auto simp: MergeAvailableUpdatesWithStandard_def)
    have ix: "u \<in> set std \<Longrightarrow> \<exists>i. (i, u) \<in> set (enumerate 0 std)" for u by (simp add: in_set_enumerate_eq) (metis in_set_conv_nth)
    have seen: "\<exists>p\<in>set pending. same_base p s" if "s \<in> set (new @ new')" for s using that one(4) two(3) res(1) by auto
    have "\<exists>p\<in>set pending. same_base p (uPackage a)" if a: "a \<in> set av" for a
    proof -
      have ok: "sel_ok (aptListMetadataSelector a) (base_name (uPackage a))" using av a metadata_selector_ok by blast
      note b = sel_ok_base [OF ok]
      from records_mem(2) [OF a, of avNames] b obtain r where "r \<in> set ?recs" "arSelector r = aptListMetadataSelector a" by blast
      with two(4) have "psSelector (aptListMetadataSelector a) \<in> set (new @ new') \<or> psBase (aptListMetadataSelector a) \<in> set (new @ new')" by metis
      with seen b show ?thesis unfolding same_base_def by metis
    qed
    moreover have "\<exists>p\<in>set pending. standard_update p \<and> same_base p (uPackage u)" if "u \<in> set std" for u
      using ix [OF that] one(2,3) res(1) by fastforce
    moreover have "uKeptBack p = uRequiresFull p" if "p \<in> set pending" for p
      using that one(2) two(2) by (auto simp: res(1) standard_update_def)
    moreover have "base_name (uPackage p) \<notin> uPackage ` set std \<and> (\<exists>a\<in>set av. uRaw p = uRaw a)" if p: "p \<in> set pending" "uRequiresFull p" for p
    proof -
      have "p \<in> set ps'" using p one(2) by (auto simp: res(1) standard_update_def)
      with two(2) have "base_name (uPackage p) \<notin> set new" "\<exists>r\<in>set ?recs. uRaw p = uRaw (arUpdate r)" by blast+
      moreover have "uPackage u \<noteq> base_name (uPackage p)" if "u \<in> set std" for u
        using ix [OF that] one(5) colon_not_in_base [of "uPackage p"] \<open>base_name (uPackage p) \<notin> set new\<close> by fastforce
      ultimately show ?thesis using records_mem(1) [of _ av avNames] by (metis imageE)
    qed
    ultimately show ?thesis using res(2) by blast
  qed
  then show "\<forall>u\<in>set std. \<exists>p\<in>set pending. standard_update p \<and> same_base p (uPackage u)" "\<forall>a\<in>set av. \<exists>p\<in>set pending. same_base p (uPackage a)"
    "\<forall>p\<in>set pending. uKeptBack p = uRequiresFull p"
    "\<forall>p\<in>set pending. uRequiresFull p \<longrightarrow> base_name (uPackage p) \<notin> uPackage ` set std \<and> (\<exists>a\<in>set av. uRaw p = uRaw a)"
    "plan = BuildUpgradePlan sha pending out ok" by blast+
qed

subsection \<open>The digest of a simulation\<close>

lemma fields_loop_chars: "x \<in> set (fields_loop w s) \<Longrightarrow> set x \<subseteq> set w \<union> set s"
proof (induction w s rule: fields_loop.induct)
  case (1 w s)
  show ?case
  proof (cases "s = []")
    case False
    then have "set (drop n s) \<subseteq> set s" "hd s \<in> set s" "set (tl s) \<subseteq> set s" for n by (auto simp: set_drop_subset list.set_sel(2))
    with 1 False show ?thesis
      by (cases "space_width s = 0") (fastforce simp: fields_loop.simps [of w s] split: if_splits)+
  qed (use 1(3) in \<open>simp add: fields_loop.simps [of w "[]"] split: if_splits\<close>)
qed

lemma join_chars: "set (join sep xs) \<subseteq> set sep \<union> \<Union> (set ` set xs)"
  by (induction sep xs rule: join.induct) auto

lemma split_join: "xs \<noteq> [] \<Longrightarrow> \<forall>x\<in>set xs. c \<notin> set x \<Longrightarrow> split_char c (join [c] xs) = xs"
  by (induction "[c]" xs rule: join.induct) (simp_all add: split_char_none split_char_append)

lemma simulation_facts_lines: "x \<in> set (simulation_facts output) \<Longrightarrow> CHR 0x0A \<notin> set x"
proof -
  assume "x \<in> set (simulation_facts output)"
  then obtain l where l: "l \<in> set (split_char (CHR 0x0A) output)" "x = join '' '' (go_fields (trim_space l))" by (auto simp: simulation_facts_def)
  have "CHR 0x0A \<notin> set (trim_space l)" using split_char_free [OF l(1)] set_trim_space [of l] by blast
  then have "\<forall>w\<in>set (go_fields (trim_space l)). CHR 0x0A \<notin> set w" using fields_loop_chars [of _ "[]" "trim_space l"] by (auto simp: go_fields_def)
  then show ?thesis using join_chars [of "'' ''" "go_fields (trim_space l)"] l(2) by auto
qed

subsection \<open>Preparation keeps the updates\<close>

definition update_view :: "pending_update \<Rightarrow> string \<times> string \<times> bool \<times> bool \<times> bool" where
  "update_view u = (uPackage u, uRaw u, uRequiresFull u, uKeptBack u, uSecurity u)"

lemma prepared_mset: "mset (map update_view (PreparePendingUpdatesForCVE updates)) = mset (map update_view updates)"
proof -
  have "map update_view (PreparePendingUpdatesForCVE updates) = map update_view (SortPendingUpdates updates)"
    by (simp add: PreparePendingUpdatesForCVE_def update_view_def)
  then show ?thesis by (simp add: SortPendingUpdates_def)
qed

lemma prepared_views:
  "q \<in> set updates \<Longrightarrow> \<exists>q'\<in>set (PreparePendingUpdatesForCVE updates). update_view q' = update_view q"
  "q \<in> set (PreparePendingUpdatesForCVE updates) \<Longrightarrow> \<exists>q'\<in>set updates. update_view q' = update_view q"
proof -
  have "update_view ` set (PreparePendingUpdatesForCVE updates) = update_view ` set updates"
    using arg_cong [OF prepared_mset, of set_mset updates] by simp
  then show "q \<in> set updates \<Longrightarrow> \<exists>q'\<in>set (PreparePendingUpdatesForCVE updates). update_view q' = update_view q"
    "q \<in> set (PreparePendingUpdatesForCVE updates) \<Longrightarrow> \<exists>q'\<in>set updates. update_view q' = update_view q"
    by (metis imageE imageI)+
qed

lemma prepared_counts:
  "length (filter (\<lambda>q. P (update_view q)) (PreparePendingUpdatesForCVE updates)) = length (filter (\<lambda>q. P (update_view q)) updates)"
proof -
  have "length (filter (\<lambda>q. P (update_view q)) xs) = size (filter_mset P (mset (map update_view xs)))" for xs
    by (induction xs) auto
  then show ?thesis by (simp only: prepared_mset)
qed

subsection \<open>Properties\<close>



text \<open>C33: A command is retried a bounded number of times. It is called at least once and at most as often as the policy
  allows; every call but the last ended in a retryable error and was followed by its delay; the result is that of the
  last call; and it is a retryable error only when the attempts are used up.\<close>

theorem retries_are_bounded:
  assumes "RunWithRetryWithSleep maxAttempts delay fn s = (res, s', log)"
  shows "int (length log) < max 1 maxAttempts \<and> (res, s') = fn (((\<lambda>x. snd (fn x)) ^^ length log) s)
     \<and> (\<forall>i<length log. \<exists>e. fst (fn (((\<lambda>x. snd (fn x)) ^^ i) s)) = Some e \<and> IsRetryableError (Some e)
          \<and> log ! i = (int i + 1, delay (int i + 1), e))
     \<and> (IsRetryableError res \<longrightarrow> int (length log) + 1 = max 1 maxAttempts)"
proof -
  have r: "retry_loop delay fn (nat (if maxAttempts < 1 then 1 else maxAttempts) - 1) 1 s = (res, s', log)"
    using assms by (simp add: RunWithRetryWithSleep_def Let_def)
  have n: "int (nat (if maxAttempts < 1 then 1 else maxAttempts) - 1) = max 1 maxAttempts - 1" by (auto simp: max_def)
  show ?thesis using retry_loop_result [OF r] n by (auto simp: add.commute) 
qed

subsection \<open>Witnesses\<close>

definition sample_listed :: string where
  "sample_listed = ''curl/stable 2 amd64 [upgradable from: 1]'' @ CHR 0x0A # ''linux/stable-security 6 amd64 [upgradable from: 5]''"

definition sample_run :: command_runner where
  "sample_run cmd =
     (if cmd = AptListUpgradableCmd then (''Inst curl [1] (2 Debian:12 [amd64])'', [], None)
      else if cmd = AptListMetadataCmd then (sample_listed, [], None)
      else ([], [], Some \<lparr>reText = ''timeout'', reStopped = False, reTagged = None, reNetTimeout = False\<rparr>))"

definition sample_discovered :: "(run_error, discovery_outcome) result" where
  "sample_discovered = DiscoverPackageUpdates (\<lambda>x. x) (Some sample_run)"

lemma sample_discovered_value:
  "case sample_discovered of Inl _ \<Rightarrow> False
   | Inr outcome \<Rightarrow> map uPackage (doPendingUpdates outcome) = [''linux'', ''curl''] \<and> map uRequiresFull (doPendingUpdates outcome) = [True, False]"
  by code_simp

lemma sample_runs:
  "sample_run AptListUpgradableCmd = (''Inst curl [1] (2 Debian:12 [amd64])'', [], None)"
  "sample_run AptListMetadataCmd = (sample_listed, [], None)"
  by code_simp+

lemma sample_names:
  "list_all (\<lambda>u. good_name (uPackage u)) (fst (ParseUpgradableEntries ''Inst curl [1] (2 Debian:12 [amd64])''))"
  "list_all (\<lambda>line. case ParseAptListMetadataEntry line of None \<Rightarrow> True | Some a \<Rightarrow> good_name (uPackage a)) (split_char (CHR 0x0A) sample_listed)"
  by code_simp+



text \<open>A command that fails twice with a timeout and then succeeds, with three attempts.\<close>

definition sample_flaky :: "nat \<Rightarrow> run_error option \<times> nat" where
  "sample_flaky n = (if n < 2 then Some \<lparr>reText = ''i/o timeout'', reStopped = False, reTagged = None, reNetTimeout = False\<rparr> else None, Suc n)"

theorem retries_are_bounded_witness:
  "let (res, s, log) = RunWithRetryWithSleep 3 (\<lambda>n. n) sample_flaky 0 in res = None \<and> s = 3 \<and> length log = 2 \<and> int (length log) < 3"
proof -
  have v: "let (res, s, log) = RunWithRetryWithSleep 3 (\<lambda>n. n) sample_flaky 0 in res = None \<and> s = 3 \<and> length log = 2" by code_simp
  obtain res s log where r: "RunWithRetryWithSleep 3 (\<lambda>n. n) sample_flaky 0 = (res, s, log)" by (metis surj_pair)
  show ?thesis using v retries_are_bounded [OF r] by (simp add: r Let_def)
qed

end
