(* ===== verification/Spec2Isabelle.thy ===== *)
theory Spec2Isabelle
  imports Prelude DebianVersion JobLogs Jobs Runtime Maintenance Deferrals Commands Packages Disk
    Servers DeferralPlan Approval Actions Outbox NotificationSettings Payload Conditions Delivery
    Discovery
begin

text \<open>
  \<^bold>\<open>SimpleLinuxUpdater\<close> is a Go server that maintains the packages of Debian and Ubuntu hosts over
  SSH. An operator or a policy starts an action on a server; a job record is created and a runner
  discovers updates on the host, simulates them, asks for approval, and upgrades. The state is kept in
  two places: SQLite tables (jobs, job logs, servers, deferral rules, maintenance state, notifications) and the
  shared in-memory status of every server, a projection of its latest job. This development models the
  parts that decide: what is stored, which transitions are allowed, what is approved, which command is
  sent to the host, and what remains after a crash.

  \<^bold>\<open>Conventions.\<close> Go strings are byte lists (\<open>string\<close>); a table is a list of rows in \<open>rowid\<close> order; a Go
  map is an association list; fallible functions return a sum whose left side is the error. Clocks,
  random identifiers, JSON text, time formats, encryption, digests and everything read from a host are
  arguments of the definitions. A mutex section or an SQL transaction is one step; interleavings are
  sequences of such steps. Machine integers are words where they wrap (\<open>64 word\<close> generations) and
  integers with explicit bounds where the code checks them.

  \<^bold>\<open>Theories.\<close>

  \<^item> \<open>Prelude\<close>: results, the operations of the package \<open>strings\<close> that the code uses, and generic facts.
  \<^item> \<open>DebianVersion\<close> (\<open>internal/updates/debian_version.go\<close>): parsing and comparing Debian versions. The
    comparison loops are proved equal to the order of the Debian policy, a total preorder. The locale
    \<open>comparator\<close> is the interface of an ordering; it is interpreted on the model's comparisons.
  \<^item> \<open>JobLogs\<close> (\<open>internal/jobs/logs.go\<close>): chunks, the limit with its truncation marker, paging and previews.
    Any sequence of writes refines an abstract text; reading returns what was written.
  \<^item> \<open>Jobs\<close> (\<open>internal/jobs/jobs.go\<close>, \<open>approval.go\<close>): records, intents, the transition graph, compare-and-swap
    writes, restart recovery and approval answers. An inductive step relation interleaves concurrent
    callers; its reachable tables are consistent, terminal jobs are final, and a revision is written once.
  \<^item> \<open>Runtime\<close> (\<open>internal/runtime/status_projection.go\<close>): the projection of a job to a server status and back.
  \<^item> \<open>Maintenance\<close> (\<open>internal/maintenance\<close>): the shared/exclusive gate, leases, the recovery latch and its
    persistence. The locale \<open>maintenance_store\<close> is the contract of a store; the memory and the SQLite store
    are its interpretations.
  \<^item> \<open>Deferrals\<close>, \<open>DeferralPlan\<close> (\<open>internal/deferrals\<close>, \<open>internal/updates/package_deferrals.go\<close>): rules that
    hold packages back, the reading of simulated transactions, and the plan of every scope.
  \<^item> \<open>Commands\<close> (\<open>internal/updates/helpers.go\<close>, \<open>privileged_helper.go\<close>, \<open>types.go\<close>): quoting and the commands sent
    to hosts, with a model of how a shell reads the quoted words back.
  \<^item> \<open>Packages\<close>, \<open>Disk\<close> (\<open>internal/updates/helpers.go\<close>, \<open>apt_disk_facts.go\<close>): the packages of an approval
    scope, and the disk space check.
  \<^item> \<open>Servers\<close> (\<open>internal/servers\<close>): the inventory with its table, and the ownership of actions by generation.
  \<^item> \<open>Approval\<close> (\<open>internal/updates/approval_scope.go\<close>, \<open>approval_revalidation.go\<close>): the decisions of operators and
    policies, their interpretation by the runner, and the comparison of a fresh scan with the approved one.
  \<^item> \<open>Actions\<close> (\<open>server_action_lifecycle.go\<close>, \<open>server_action_approval.go\<close>, \<open>jobs.go\<close>): starting, approving and
    cancelling, the composition of inventory, job table and approval decision, and the publication of job
    records into the server state.
  \<^item> \<open>Outbox\<close>, \<open>NotificationSettings\<close>, \<open>Payload\<close>, \<open>Conditions\<close>, \<open>Delivery\<close> (\<open>internal/notifications\<close>): the durable queue of
    notifications with every statement on it, the settings with their secrets, the redacted payloads and requests,
    the episodes of conditions, and the worker that claims, sends and retries. An inductive step relation
    interleaves admissions, saved settings, the worker and crashes; the loop of the worker is a partial
    function whose termination is a theorem.
  \<^item> \<open>Discovery\<close> (\<open>internal/updates/package_discovery.go\<close>, \<open>helpers.go\<close>): reading the output of APT, merging the simulated upgrade
    with the list of all updates, the plan with its counts and digests, and the retry loop.
  The last sections of this theory hold the properties that span components.

  \<^bold>\<open>Bounds and fuel.\<close> No definition uses fuel: every loop of the source is a structural recursion or has
  a termination proof with a measure (the remaining bytes of a text, the remaining rows of a page). The one
  exception is \<open>drain\<close>, the loop of the notification worker, which other processes could keep busy: it is a
  partial function, and \<open>drain_terminates\<close> bounds its passes by the attempts that are left.
  Sizes are natural numbers or integers; where the code guards against \<open>int64\<close> overflow, the guard is in
  the definition and the property states the bound.

  \<^bold>\<open>Not modelled.\<close> HTTP routing, request decoding, templates and the browser code (I/O around the components);
  SSH sessions and the shell helper on the hosts (external programs); the DDL of the tables; queries to
  vulnerability services; the HTTP client of the notifications and their pause during a restore; password hashing, TOTP and the encryption of archives (cryptographic libraries);
  calendar arithmetic in time zones; dashboards and exports (SQL projections without state of their own).
\<close>

section \<open>A crash in the middle of an upgrade\<close>

lemma recovered_needs_reconciliation:
  assumes "jStatus j = StatusRunning" and "mutating_phase j"
  shows "RuntimeStatusFromJob (row_record (recovered now (j, l))) = StatusNeedsReconciliation"
proof -
  have "equal_fold_ascii (trim_space ReconciliationRequired) ReconciliationRequired" by code_simp
  then show ?thesis using assms
    by (auto simp: recovered_def close_row_def mutating_phase_def RuntimeStatusFromJob_def row_record_def)
qed


section \<open>From the answer of the operator to the command\<close>



end
